(* ===== verification/Prelude.thy ===== *)
theory Prelude
  imports Complex_Main "HOL-Library.AList" "HOL-Library.List_Lexorder" "HOL-Library.Char_ord"
begin

text \<open>
  The JavaScript substrate the components share.  A string is an Isabelle \<open>string\<close>, that is a
  list of the code units 0 to 255; strings compare by code units, as JavaScript's relational
  operators do.  A number is a \<open>jsnum\<close>: a rational (every finite double is one) or one of the
  three non-finite values.  A plain object used as a dictionary is an association list in
  insertion order; \<open>js_entries\<close> puts the array-index keys first, as \<open>Object.entries\<close> does.  A
  value whose shape the code tests at run time (\<open>typeof\<close>, \<open>Array.isArray\<close>) is a \<open>jsval\<close>.

  The collections \<open>js_string\<close>, \<open>js_object\<close> and \<open>step_defs\<close> gather the facts that the
  component proofs pass to the simplifier.
\<close>

named_theorems js_string \<open>facts about trimming, case conversion and prefixes\<close>
named_theorems js_object \<open>facts about dictionaries in insertion order\<close>
named_theorems step_defs \<open>definitions of the single handlers of a reducer\<close>

section \<open>Numbers\<close>

datatype jsnum = Fin rat | PosInf | NegInf | NaN

fun num_isFinite :: "jsnum \<Rightarrow> bool" where
  "num_isFinite (Fin _) = True"
| "num_isFinite _ = False"

fun num_lt :: "jsnum \<Rightarrow> jsnum \<Rightarrow> bool" where
  "num_lt (Fin a) (Fin b) = (a < b)"
| "num_lt (Fin _) PosInf = True"
| "num_lt NegInf (Fin _) = True"
| "num_lt NegInf PosInf = True"
| "num_lt _ _ = False"

fun num_eq :: "jsnum \<Rightarrow> jsnum \<Rightarrow> bool" where
  "num_eq NaN _ = False"
| "num_eq _ NaN = False"
| "num_eq a b = (a = b)"

definition num_le :: "jsnum \<Rightarrow> jsnum \<Rightarrow> bool" where
  "num_le a b = (num_lt a b \<or> num_eq a b)"

fun num_isInteger :: "jsnum \<Rightarrow> bool" where
  "num_isInteger (Fin r) = (r = of_int \<lfloor>r\<rfloor>)"
| "num_isInteger _ = False"

definition num_isSafeInteger :: "jsnum \<Rightarrow> bool" where
  "num_isSafeInteger n = (num_isInteger n
     \<and> num_le (Fin (- 9007199254740991)) n \<and> num_le n (Fin 9007199254740991))"

definition num_scale :: "rat \<Rightarrow> jsnum \<Rightarrow> jsnum" where
  "num_scale k n = (case n of Fin r \<Rightarrow> Fin (k * r) | x \<Rightarrow> x)"
  \<comment> \<open>multiplication by a positive constant\<close>

definition num_int :: "int \<Rightarrow> jsnum" where
  "num_int i = Fin (of_int i)"

text \<open>\<open>Math.max(lo, Math.floor(x))\<close>, where \<open>x\<close> is known to be finite.\<close>

fun floor_at_least :: "int \<Rightarrow> jsnum \<Rightarrow> int" where
  "floor_at_least lo (Fin r) = max lo \<lfloor>r\<rfloor>"
| "floor_at_least lo _ = lo"

lemma num_lt_irrefl [simp]: "\<not> num_lt a a"
  by (cases a) auto

lemma num_lt_trans: "num_lt a b \<Longrightarrow> num_lt b c \<Longrightarrow> num_lt a c"
  by (cases a; cases b; cases c) auto

lemma num_le_lt_trans: "num_le a b \<Longrightarrow> num_lt b c \<Longrightarrow> num_lt a c"
  by (cases a; cases b; cases c) (auto simp: num_le_def)

lemma num_le_Fin [simp]: "num_le (Fin a) (Fin b) \<longleftrightarrow> a \<le> b"
  by (auto simp: num_le_def)

lemma floor_at_least_ge [simp]: "lo \<le> floor_at_least lo x"
  by (cases x) auto

lemma floor_at_least_int [simp]: "floor_at_least lo (num_int i) = max lo i"
  by (simp add: num_int_def)

lemma num_int_simps [simp]:
  "num_isFinite (num_int i)" "num_lt (num_int i) (num_int j) \<longleftrightarrow> i < j"
  "num_int i = num_int j \<longleftrightarrow> i = j" "num_isInteger (num_int i)"
  by (simp_all add: num_int_def)

section \<open>Values whose shape is tested at run time\<close>

datatype jsval =
    JUndefined
  | JNull
  | JBool bool
  | JNum jsnum
  | JStr string
  | JArr "jsval list"
  | JObj "(string \<times> jsval) list"

definition is_JBool :: "jsval \<Rightarrow> bool" where
  "is_JBool v = (case v of JBool _ \<Rightarrow> True | _ \<Rightarrow> False)"

definition is_JStr :: "jsval \<Rightarrow> bool" where
  "is_JStr v = (case v of JStr _ \<Rightarrow> True | _ \<Rightarrow> False)"

definition is_JArr :: "jsval \<Rightarrow> bool" where
  "is_JArr v = (case v of JArr _ \<Rightarrow> True | _ \<Rightarrow> False)"

text \<open>\<open>Array.isArray(v) ? v : []\<close>\<close>

definition array_or_empty :: "jsval \<Rightarrow> jsval list" where
  "array_or_empty v = (case v of JArr xs \<Rightarrow> xs | _ \<Rightarrow> [])"

fun string_items :: "jsval list \<Rightarrow> string list" where
  "string_items [] = []"
| "string_items (JStr s # vs) = s # string_items vs"
| "string_items (_ # vs) = string_items vs"

definition jstrings :: "string list \<Rightarrow> jsval" where
  "jstrings ss = JArr (map JStr ss)"

lemma is_J_simps [simp]:
  "is_JBool (JBool b)" "is_JStr (JStr s)" "is_JArr (JArr xs)"
  "\<not> is_JStr (JArr xs)" "\<not> is_JArr (JStr s)"
  by (simp_all add: is_JBool_def is_JStr_def is_JArr_def)

lemma is_JStr_iff: "is_JStr v \<longleftrightarrow> (\<exists>s. v = JStr s)"
  by (cases v) (auto simp: is_JStr_def)

lemma string_items_map_JStr [simp]: "string_items (map JStr ss) = ss"
  by (induction ss) auto

lemma set_string_items: "set (string_items vs) = {s. JStr s \<in> set vs}"
  by (induction vs rule: string_items.induct) auto

lemma array_or_empty_jstrings [simp]: "array_or_empty (jstrings ss) = map JStr ss"
  by (simp add: array_or_empty_def jstrings_def)

lemma is_JArr_jstrings [simp]: "is_JArr (jstrings ss)"
  by (simp add: is_JArr_def jstrings_def)

lemma jstrings_inject [simp]: "jstrings xs = jstrings ys \<longleftrightarrow> xs = ys"
  by (simp add: jstrings_def inj_map_eq_map inj_def)

lemma JStr_in_image [simp]: "JStr x \<in> JStr ` A \<longleftrightarrow> x \<in> A"
  by auto

lemma list_all_is_JStr_map [simp]: "list_all is_JStr (map JStr xs)"
  by (simp add: list_all_iff)

text \<open>A property that may be absent, \<open>null\<close>, or hold a value.\<close>

datatype 'a field = Undefined | Null | Present 'a

fun nullish :: "'a field \<Rightarrow> 'a option" where
  "nullish (Present x) = Some x"
| "nullish _ = None"

fun null_if_nullish :: "'a field \<Rightarrow> 'a field" where
  "null_if_nullish (Present x) = Present x"
| "null_if_nullish _ = Null"

section \<open>Strings\<close>

definition js_ws :: "char \<Rightarrow> bool" where
  "js_ws c = (c \<in> set [CHR 0x09, CHR 0x0A, CHR 0x0B, CHR 0x0C, CHR 0x0D, CHR 0x20, CHR 0xA0])"

definition js_trim :: "string \<Rightarrow> string" where
  "js_trim s = rev (dropWhile js_ws (rev (dropWhile js_ws s)))"

text \<open>\<open>toLowerCase\<close> on the code units 0 to 255.\<close>

definition js_lower_char :: "char \<Rightarrow> char" where
  "js_lower_char c = (let n = of_char c :: nat in
     if (65 \<le> n \<and> n \<le> 90) \<or> (192 \<le> n \<and> n \<le> 222 \<and> n \<noteq> 215) then char_of (n + 32) else c)"

definition js_lower :: "string \<Rightarrow> string" where
  "js_lower s = map js_lower_char s"

definition js_starts_with :: "string \<Rightarrow> string \<Rightarrow> bool" where
  "js_starts_with s p = (take (length p) s = p)"

fun js_includes :: "string \<Rightarrow> string \<Rightarrow> bool" where
  "js_includes s p = (js_starts_with s p \<or> (case s of [] \<Rightarrow> False | _ # s' \<Rightarrow> js_includes s' p))"

fun js_join :: "string \<Rightarrow> string list \<Rightarrow> string" where
  "js_join sep [] = []"
| "js_join sep [x] = x"
| "js_join sep (x # y # ys) = x @ sep @ js_join sep (y # ys)"

definition is_digit :: "char \<Rightarrow> bool" where
  "is_digit c = (c \<in> set ''0123456789'')"

definition is_lower_alnum :: "char \<Rightarrow> bool" where
  "is_lower_alnum c = (c \<in> set ''abcdefghijklmnopqrstuvwxyz0123456789'')"

text \<open>\<open>/^[0-9a-f]{64}$/\<close>\<close>

definition is_hex64 :: "string \<Rightarrow> bool" where
  "is_hex64 s = (length s = 64 \<and> list_all (\<lambda>c. c \<in> set ''0123456789abcdef'') s)"

definition digit_value :: "char \<Rightarrow> nat" where
  "digit_value c = of_char c - 48"

definition nat_of_digits :: "string \<Rightarrow> nat" where
  "nat_of_digits s = foldl (\<lambda>n c. 10 * n + digit_value c) 0 s"

text \<open>Decimal rendering, as \<open>String(n)\<close> gives it below \<open>10^21\<close>.\<close>

fun string_of_nat :: "nat \<Rightarrow> string" where
  "string_of_nat n = (if n < 10 then [char_of (48 + n)]
     else string_of_nat (n div 10) @ [char_of (48 + n mod 10)])"

declare string_of_nat.simps [simp del]

definition string_of_int :: "int \<Rightarrow> string" where
  "string_of_int i = (if i < 0 then ''-'' @ string_of_nat (nat (- i)) else string_of_nat (nat i))"

lemma js_trim_Nil [simp]: "js_trim [] = []"
  by (simp add: js_trim_def)

lemma dropWhile_rev_dropWhile:
  "dropWhile P (rev (dropWhile P (rev (dropWhile P s)))) = rev (dropWhile P (rev (dropWhile P s)))"
proof (cases "dropWhile P s")
  case Nil
  then show ?thesis
    by (simp only: Nil rev.simps dropWhile.simps)
next
  case (Cons c cs)
  then have "\<not> P c"
    by (metis dropWhile_eq_Cons_conv)
  then have "dropWhile P (rev (c # cs)) = dropWhile P (rev cs) @ [c]"
    by (simp add: dropWhile_append)
  with Cons \<open>\<not> P c\<close> show ?thesis by simp
qed

lemma js_trim_idem [simp]: "js_trim (js_trim s) = js_trim s"
proof -
  have "dropWhile js_ws (js_trim s) = js_trim s"
    unfolding js_trim_def by (rule dropWhile_rev_dropWhile)
  then show ?thesis
    by (simp add: js_trim_def [of "js_trim s"]) (simp add: js_trim_def)
qed

lemma js_lower_char_idem [simp]: "js_lower_char (js_lower_char c) = js_lower_char c"
proof -
  have "of_char c < (256::nat)" by simp
  then show ?thesis by (auto simp: js_lower_char_def Let_def)
qed

lemma js_lower_idem [simp]: "js_lower (js_lower s) = js_lower s"
  by (simp add: js_lower_def)

lemma js_lower_Nil [simp]: "js_lower [] = []" and js_lower_eq_Nil [simp]: "js_lower s = [] \<longleftrightarrow> s = []"
  by (simp_all add: js_lower_def)

lemma js_ws_lower [simp]: "js_ws (js_lower_char c) = js_ws c"
proof -
  have "js_ws c = (of_char c \<in> {9, 10, 11, 12, 13, 32, 160 :: nat})" for c
    by (cases c) (auto simp: js_ws_def)
  then show ?thesis by (auto simp: js_lower_char_def Let_def)
qed

lemma js_trim_lower: "js_trim (js_lower s) = js_lower (js_trim s)"
proof -
  have *: "dropWhile js_ws (map js_lower_char t) = map js_lower_char (dropWhile js_ws t)" for t
    by (induction t) auto
  then show ?thesis by (simp add: js_trim_def js_lower_def rev_map)
qed

lemma js_starts_with_append [js_string]: "js_starts_with (p @ s) p"
  by (simp add: js_starts_with_def)

lemma js_starts_with_iff: "js_starts_with s p \<longleftrightarrow> (\<exists>t. s = p @ t)"
  by (metis append_take_drop_id append_eq_conv_conj js_starts_with_def)

lemma js_starts_with_Cons [simp]:
  "js_starts_with s []" "\<not> js_starts_with [] (c # p)"
  "js_starts_with (d # s) (c # p) \<longleftrightarrow> c = d \<and> js_starts_with s p"
  by (auto simp: js_starts_with_def)

section \<open>Sets, dictionaries and sorting\<close>

lemma find_SomeD: "List.find P xs = Some x \<Longrightarrow> x \<in> set xs \<and> P x"
  by (induction xs) (auto split: if_splits)

text \<open>\<open>[...new Set(xs)]\<close>: the first occurrence of every element, in order.\<close>

definition js_set :: "'a list \<Rightarrow> 'a list" where
  "js_set xs = rev (remdups (rev xs))"

lemma set_js_set [simp]: "set (js_set xs) = set xs"
  by (simp add: js_set_def)

lemma distinct_js_set [simp]: "distinct (js_set xs)"
  by (simp add: js_set_def)

lemma js_set_distinct: "distinct xs \<Longrightarrow> js_set xs = xs"
  by (simp add: js_set_def distinct_remdups_id)

lemma js_set_Nil [simp]: "js_set [] = []"
  by (simp add: js_set_def)

lemma js_set_eq_Nil [simp]: "js_set xs = [] \<longleftrightarrow> xs = []"
  by (simp add: js_set_def)

text \<open>\<open>xs.sort(cmp)\<close>: a stable sort by a comparator.\<close>

fun js_insert :: "('a \<Rightarrow> 'a \<Rightarrow> int) \<Rightarrow> 'a \<Rightarrow> 'a list \<Rightarrow> 'a list" where
  "js_insert cmp x [] = [x]"
| "js_insert cmp x (y # ys) = (if cmp x y \<le> 0 then x # y # ys else y # js_insert cmp x ys)"

definition js_sort :: "('a \<Rightarrow> 'a \<Rightarrow> int) \<Rightarrow> 'a list \<Rightarrow> 'a list" where
  "js_sort cmp xs = foldr (js_insert cmp) xs []"

lemma set_js_insert [simp]: "set (js_insert cmp x ys) = insert x (set ys)"
  by (induction ys) auto

lemma length_js_insert [simp]: "length (js_insert cmp x ys) = Suc (length ys)"
  by (induction ys) auto

lemma distinct_js_insert [simp]: "distinct (js_insert cmp x ys) \<longleftrightarrow> x \<notin> set ys \<and> distinct ys"
  by (induction ys) auto

lemma js_sort_Nil [simp]: "js_sort cmp [] = []"
  and js_sort_Cons: "js_sort cmp (x # xs) = js_insert cmp x (js_sort cmp xs)"
  by (simp_all add: js_sort_def)

lemma set_js_sort [simp]: "set (js_sort cmp xs) = set xs"
  by (induction xs) (auto simp: js_sort_Cons)

lemma length_js_sort [simp]: "length (js_sort cmp xs) = length xs"
  by (induction xs) (auto simp: js_sort_Cons)

lemma distinct_js_sort [simp]: "distinct (js_sort cmp xs) \<longleftrightarrow> distinct xs"
  by (induction xs) (auto simp: js_sort_Cons)

text \<open>
  A comparator contract: what \<open>Array.prototype.sort\<close> needs of its argument for the result to be
  determined.  Under it the result is sorted, and sorting a sorted list changes nothing.
\<close>

locale comparator =
  fixes cmp :: "'a \<Rightarrow> 'a \<Rightarrow> int"
  assumes cmp_total: "cmp x y \<le> 0 \<or> cmp y x \<le> 0"
    and cmp_trans: "cmp x y \<le> 0 \<Longrightarrow> cmp y z \<le> 0 \<Longrightarrow> cmp x z \<le> 0"
begin

abbreviation in_order :: "'a list \<Rightarrow> bool" where
  "in_order \<equiv> sorted_wrt (\<lambda>x y. cmp x y \<le> 0)"

lemma js_insert_in_order: "in_order ys \<Longrightarrow> in_order (js_insert cmp x ys)"
proof (induction ys)
  case Nil
  then show ?case by simp
next
  case (Cons y ys)
  show ?case
  proof (cases "cmp x y \<le> 0")
    case True
    with Cons.prems show ?thesis by (auto intro: cmp_trans)
  next
    case False
    then have "cmp y x \<le> 0" using cmp_total by blast
    with False Cons show ?thesis by auto
  qed
qed

lemma js_sort_in_order: "in_order (js_sort cmp xs)"
  by (induction xs) (auto simp: js_sort_Cons js_insert_in_order)

lemma js_sort_sorted: "in_order xs \<Longrightarrow> js_sort cmp xs = xs"
proof (induction xs)
  case Nil
  then show ?case by simp
next
  case (Cons x xs)
  then have "js_sort cmp xs = xs" by simp
  with Cons.prems show ?case by (cases xs) (auto simp: js_sort_Cons)
qed

lemma js_sort_idem: "js_sort cmp (js_sort cmp xs) = js_sort cmp xs"
  by (rule js_sort_sorted) (rule js_sort_in_order)

lemma in_order_unique:
  assumes antisym: "\<And>x y. cmp x y \<le> 0 \<Longrightarrow> cmp y x \<le> 0 \<Longrightarrow> x = y"
  shows "in_order xs \<Longrightarrow> in_order ys \<Longrightarrow> distinct xs \<Longrightarrow> distinct ys \<Longrightarrow> set xs = set ys \<Longrightarrow> xs = ys"
proof (induction xs arbitrary: ys)
  case Nil
  then show ?case by simp
next
  case (Cons x xs)
  then obtain y ys' where ys: "ys = y # ys'" by (cases ys) auto
  have "x = y"
  proof (rule ccontr)
    assume "x \<noteq> y"
    then have "x \<in> set ys'" and "y \<in> set xs" using Cons.prems ys by auto
    then have "cmp y x \<le> 0" and "cmp x y \<le> 0" using Cons.prems ys by auto
    with \<open>x \<noteq> y\<close> show False using antisym by blast
  qed
  moreover have "set xs = set ys'"
    using Cons.prems ys \<open>x = y\<close> by auto
  ultimately show ?case using Cons ys by auto
qed

end

type_synonym 'v obj = "(string \<times> 'v) list"

abbreviation obj_get :: "'v obj \<Rightarrow> string \<Rightarrow> 'v option" where
  "obj_get ob k \<equiv> map_of ob k"

abbreviation obj_set :: "string \<Rightarrow> 'v \<Rightarrow> 'v obj \<Rightarrow> 'v obj" where
  "obj_set k v ob \<equiv> AList.update k v ob"

definition array_index_key :: "string \<Rightarrow> bool" where
  "array_index_key k = (k = ''0'' \<or> (k \<noteq> [] \<and> hd k \<noteq> CHR ''0'' \<and> list_all is_digit k
     \<and> nat_of_digits k < 4294967295))"

text \<open>\<open>Object.entries\<close>: array-index keys in ascending order, then the others as inserted.\<close>

definition js_entries :: "'v obj \<Rightarrow> (string \<times> 'v) list" where
  "js_entries ob = sort_key (\<lambda>e. nat_of_digits (fst e)) (filter (\<lambda>e. array_index_key (fst e)) ob)
     @ filter (\<lambda>e. \<not> array_index_key (fst e)) ob"

definition js_values :: "'v obj \<Rightarrow> 'v list" where
  "js_values ob = map snd (js_entries ob)"

text \<open>
  \<open>Object.fromEntries\<close>, and the spread \<open>{...a, ...b}\<close>.  The copy \<open>{...a}\<close> has the value of
  \<open>a\<close> itself, since every read goes through \<open>obj_get\<close> or \<open>js_entries\<close>.
\<close>

fun obj_set_all :: "(string \<times> 'v) list \<Rightarrow> 'v obj \<Rightarrow> 'v obj" where
  "obj_set_all [] ob = ob"
| "obj_set_all ((k, v) # es) ob = obj_set_all es (obj_set k v ob)"

definition from_entries :: "(string \<times> 'v) list \<Rightarrow> 'v obj" where
  "from_entries es = obj_set_all es []"

definition obj_spread :: "'v obj \<Rightarrow> 'v obj \<Rightarrow> 'v obj" where
  "obj_spread a b = obj_set_all (js_entries b) a"

lemma set_js_entries [simp]: "set (js_entries ob) = set ob"
  by (auto simp: js_entries_def)

lemma set_js_values [simp]: "set (js_values ob) = snd ` set ob"
  by (simp add: js_values_def)

lemma js_entries_Nil [simp]: "js_entries [] = []" and js_values_Nil [simp]: "js_values [] = []"
  by (simp_all add: js_entries_def js_values_def)

lemma obj_get_set [simp]: "obj_get (obj_set k v ob) k' = (if k' = k then Some v else obj_get ob k')"
  by (simp add: update_conv')

lemma distinct_obj_set [js_object]: "distinct (map fst ob) \<Longrightarrow> distinct (map fst (obj_set k v ob))"
  by (rule distinct_update)

lemma distinct_obj_set_all [js_object]:
  "distinct (map fst ob) \<Longrightarrow> distinct (map fst (obj_set_all es ob))"
  by (induction es ob rule: obj_set_all.induct) (simp_all add: distinct_update)

lemma distinct_from_entries [simp]: "distinct (map fst (from_entries es))"
  by (simp add: from_entries_def distinct_obj_set_all)

lemma obj_get_set_all_notin: "k \<notin> fst ` set es \<Longrightarrow> obj_get (obj_set_all es ob) k = obj_get ob k"
  by (induction es ob rule: obj_set_all.induct) auto

lemma obj_get_set_all_in:
  "distinct (map fst es) \<Longrightarrow> (k, v) \<in> set es \<Longrightarrow> obj_get (obj_set_all es ob) k = Some v"
  by (induction es ob rule: obj_set_all.induct) (auto simp: obj_get_set_all_notin)

lemma dom_obj_set_all: "dom (obj_get (obj_set_all es ob)) = fst ` set es \<union> dom (obj_get ob)"
  by (induction es ob rule: obj_set_all.induct) (auto split: if_splits)

lemma obj_set_all_cases:
  "obj_get (obj_set_all es ob) k = Some v \<Longrightarrow> (k, v) \<in> set es \<or> obj_get ob k = Some v"
  by (induction es ob rule: obj_set_all.induct) (auto split: if_splits)

lemma in_set_obj_set:
  "distinct (map fst ob) \<Longrightarrow> (k', v') \<in> set (obj_set k v ob) \<longleftrightarrow>
     (if k' = k then v' = v else (k', v') \<in> set ob)"
  by (metis distinct_update map_of_eq_Some_iff obj_get_set option.inject)

lemma distinct_js_entries: "distinct (map fst ob) \<Longrightarrow> distinct (map fst (js_entries ob))"
proof -
  assume d: "distinct (map fst ob)"
  have "distinct (map fst (sort_key f (filter P ob)))" for f :: "_ \<Rightarrow> nat" and P
    using d by (simp add: distinct_map inj_on_def)
  then show ?thesis
    using d by (auto simp: js_entries_def distinct_map_filter)
qed

lemma obj_get_spread:
  assumes "distinct (map fst b)"
  shows "obj_get (obj_spread a b) k = (case obj_get b k of Some v \<Rightarrow> Some v | None \<Rightarrow> obj_get a k)"
proof (cases "obj_get b k")
  case None
  then have "k \<notin> fst ` set (js_entries b)" by (simp add: map_of_eq_None_iff)
  with None show ?thesis by (simp add: obj_spread_def obj_get_set_all_notin)
next
  case (Some v)
  then have "(k, v) \<in> set (js_entries b)" by (auto dest: map_of_SomeD)
  with Some obj_get_set_all_in [OF distinct_js_entries [OF assms]] show ?thesis
    by (simp add: obj_spread_def)
qed

lemma distinct_obj_spread [js_object]: "distinct (map fst a) \<Longrightarrow> distinct (map fst (obj_spread a b))"
  by (simp add: obj_spread_def distinct_obj_set_all)

lemma from_entries_constant:
  "obj_get (from_entries (map (\<lambda>k. (k, v)) ks)) k = (if k \<in> set ks then Some v else None)"
proof -
  have dom: "k \<in> dom (obj_get (from_entries (map (\<lambda>k. (k, v)) ks))) \<longleftrightarrow> k \<in> set ks"
    by (simp only: from_entries_def dom_obj_set_all) (simp add: image_image)
  have "obj_get (from_entries (map (\<lambda>k. (k, v)) ks)) k = Some w \<Longrightarrow> w = v" for w
    by (auto simp: from_entries_def dest: obj_set_all_cases)
  with dom show ?thesis
    by (cases "obj_get (from_entries (map (\<lambda>k. (k, v)) ks)) k") (auto simp: domIff)
qed

lemma obj_get_js_entries:
  assumes "distinct (map fst ob)"
  shows "obj_get (js_entries ob) k = obj_get ob k"
proof (cases "obj_get ob k")
  case None
  then have "k \<notin> fst ` set (js_entries ob)" by (simp add: map_of_eq_None_iff)
  then have "obj_get (js_entries ob) k = None" unfolding map_of_eq_None_iff .
  with None show ?thesis by simp
next
  case (Some v)
  then have "(k, v) \<in> set (js_entries ob)" by (auto dest: map_of_SomeD)
  with distinct_js_entries [OF assms] Some show ?thesis by simp
qed

section \<open>The host\<close>

text \<open>
  What the source takes from outside: the bech32 decoder of \<open>nostr-tools\<close>, the SHA-256 of the Rust
  crate \<open>sha2\<close>, and the parts of the JavaScript runtime whose result depends on the engine or the
  locale (date parsing beyond ISO strings, collation, rendering of fractions, the URL parser).
\<close>

record host =
  host_isRelayUrl :: "string \<Rightarrow> bool"
  host_isNpub :: "string \<Rightarrow> bool"
  host_dateParse :: "string \<Rightarrow> jsnum"
  host_sha256 :: "string \<Rightarrow> string"
  host_localeCompare :: "string \<Rightarrow> string \<Rightarrow> int"
  host_numString :: "rat \<Rightarrow> string"

definition string_of_num :: "host \<Rightarrow> jsnum \<Rightarrow> string" where
  "string_of_num h n = (case n of
     Fin r \<Rightarrow> if r = of_int \<lfloor>r\<rfloor> then string_of_int \<lfloor>r\<rfloor> else host_numString h r
   | PosInf \<Rightarrow> ''Infinity'' | NegInf \<Rightarrow> ''-Infinity'' | NaN \<Rightarrow> ''NaN'')"

text \<open>\<open>String(v)\<close>, as a template literal renders \<open>v\<close>.\<close>

fun js_String :: "host \<Rightarrow> jsval \<Rightarrow> string" where
  "js_String h (JStr s) = s"
| "js_String h JUndefined = ''undefined''"
| "js_String h JNull = ''null''"
| "js_String h (JBool b) = (if b then ''true'' else ''false'')"
| "js_String h (JNum n) = string_of_num h n"
| "js_String h (JArr vs) = js_join '','' (map (\<lambda>v. case v of JUndefined \<Rightarrow> [] | JNull \<Rightarrow> [] | _ \<Rightarrow> js_String h v) vs)"
| "js_String h (JObj _) = ''[object Object]''"

text \<open>A concrete host for the examples: every parser is a simple total function.\<close>

definition plain_host :: host where
  "plain_host = \<lparr>host_isRelayUrl = (\<lambda>s. js_starts_with s ''wss://''),
     host_isNpub = (\<lambda>s. js_starts_with s ''npub1''),
     host_dateParse = (\<lambda>s. if s \<noteq> [] \<and> list_all is_digit s then num_int (int (nat_of_digits s)) else NaN),
     host_sha256 = (\<lambda>s. s),
     host_localeCompare = (\<lambda>a b. if a < b then -1 else if b < a then 1 else 0),
     host_numString = (\<lambda>_. ''fraction'')\<rparr>"

text \<open>Error lists are built from guarded singletons.\<close>

definition flag :: "bool \<Rightarrow> string \<Rightarrow> string list" where
  "flag b e = (if b then [e] else [])"

lemma flag_eq_Nil [simp]: "flag b e = [] \<longleftrightarrow> \<not> b"
  by (simp add: flag_def)

lemma set_flag [simp]: "x \<in> set (flag b e) \<longleftrightarrow> b \<and> x = e"
  by (auto simp: flag_def)

lemma filter_flag: "filter P (flag b e) = flag (b \<and> P e) e"
  by (simp add: flag_def)

lemma flag_simps [simp]: "flag True e = [e]" "flag False e = []"
  by (simp_all add: flag_def)

end
