(* ===== verification/Protocol.thy ===== *)
theory Protocol
  imports Prelude
begin

text \<open>
  The data model of a questionnaire and its scope, ballot-slot and rank helpers
  (\<open>web/src/questionnaireProtocol.ts\<close>, lines 18 to 545).  Values are taken at their declared
  TypeScript types; the content of an answer, which reaches the code from the network, is kept
  dynamic (\<open>jsval\<close>), because the validators test its shape.  A property that the code reads
  through \<open>??\<close> or \<open>?.\<close> only, so that \<open>null\<close> and a missing value behave alike, is an option.
\<close>

section \<open>Data model\<close>

record localised_text =
  lt_en :: string
  lt_fr :: "string option"
  lt_ta :: "string option"

datatype localisable_text = Plain string | Localised localised_text

text \<open>
  What an answer holds beside its question: the tag and the payload fields of the four variants.
  A field that the sender left out is \<open>JUndefined\<close>.
\<close>

record answer_body =
  ab_answerType :: string
  ab_value :: jsval
  ab_selectedOptionIds :: jsval
  ab_rankedOptionIds :: jsval
  ab_text :: jsval

record response_answer =
  ra_questionId :: string
  ra_body :: answer_body

definition yes_no_body :: "bool \<Rightarrow> answer_body" where
  "yes_no_body b = \<lparr>ab_answerType = ''yes_no'', ab_value = JBool b, ab_selectedOptionIds = JUndefined,
     ab_rankedOptionIds = JUndefined, ab_text = JUndefined\<rparr>"

definition multiple_choice_body :: "string list \<Rightarrow> answer_body" where
  "multiple_choice_body ids = \<lparr>ab_answerType = ''multiple_choice'', ab_value = JUndefined,
     ab_selectedOptionIds = jstrings ids, ab_rankedOptionIds = JUndefined, ab_text = JUndefined\<rparr>"

definition rank_body :: "string list \<Rightarrow> answer_body" where
  "rank_body ids = \<lparr>ab_answerType = ''rank'', ab_value = JUndefined, ab_selectedOptionIds = JUndefined,
     ab_rankedOptionIds = jstrings ids, ab_text = JUndefined\<rparr>"

definition free_text_body :: "string \<Rightarrow> answer_body" where
  "free_text_body s = \<lparr>ab_answerType = ''free_text'', ab_value = JUndefined,
     ab_selectedOptionIds = JUndefined, ab_rankedOptionIds = JUndefined, ab_text = JStr s\<rparr>"

record question_condition =
  qc_dependsOnQuestionId :: string
  qc_requiredAnswer :: "answer_body option"

record ballot_slot =
  bs_slotId :: string
  bs_slotIndex :: jsnum
  bs_version :: jsnum

record choice_option =
  co_optionId :: string
  co_label :: localisable_text
  co_translations :: "localised_text obj option"

datatype question_kind =
    YesNo
  | MultipleChoice bool "choice_option list"
  | Rank "choice_option list" jsnum
  | FreeText jsnum "jsval field"

record question =
  q_questionId :: string
  q_prompt :: localisable_text
  q_translations :: "localised_text obj option"
  q_required :: bool
  q_ballotSlot :: "ballot_slot option"
  q_requiredScope :: "string option"
  q_ballotGroup :: "string option"
  q_showIf :: "question_condition option"
  q_kind :: question_kind

record voter_group =
  vg_id :: string
  vg_label :: string

record private_worker =
  pw_npub :: string
  pw_dmRelays :: "string list"
  pw_batchThreshold :: jsnum
  pw_submissionDeadline :: string

record blind_public_key =
  bk_keyId :: string
  bk_jwk :: jsval

record questionnaire_definition =
  d_protocolVersion :: "int option"
  d_flowMode :: "string option"
  d_responseMode :: string
  d_questionnaireId :: string
  d_title :: localisable_text
  d_description :: "localisable_text option"
  d_translations :: "localised_text obj option"
  d_createdAt :: jsnum
  d_openAt :: jsnum
  d_closeAt :: jsnum
  d_coordinatorPubkey :: string
  d_coordinatorEncryptionPubkey :: string
  d_responseVisibility :: string
  d_eligibilityMode :: string
  d_generalInvitePowDifficulty :: "jsnum option"
  d_allowMultipleResponsesPerPubkey :: bool
  d_ballotCredentialMode :: "string option"
  d_credentialsPerVoter :: "jsnum option"
  d_blindSigningPublicKey :: "blind_public_key option"
  d_questionnaireRelays :: "string list option"
  d_privateWorker :: "private_worker option"
  d_voterGroups :: "voter_group list option"
  d_questions :: "question list"

record response_payload =
  rp_questionnaireId :: string
  rp_responseId :: string
  rp_submittedAt :: jsnum
  rp_answers :: "response_answer list"

record response_envelope =
  re_questionnaireId :: string
  re_responseId :: "string option"
  re_createdAt :: jsnum
  re_authorPubkey :: string
  re_ciphertextRecipient :: string
  re_ciphertext :: string
  re_payloadHash :: string

datatype question_summary =
    YesNoSummary string nat nat
  | MultipleChoiceSummary string "nat obj"
  | RankSummary string "int obj" "nat obj obj" nat nat
  | FreeTextSummary string nat

record result_summary =
  rs_questionnaireId :: string
  rs_createdAt :: int
  rs_coordinatorPubkey :: string
  rs_acceptedResponseCount :: nat
  rs_rejectedResponseCount :: nat
  rs_acceptedNullifierCount :: nat
  rs_questionSummaries :: "question_summary list"
  rs_resultHash :: string

datatype state_value = StDraft | StOpen | StClosed | StResultsPublished

record state_event =
  se_questionnaireId :: string
  se_state :: state_value
  se_createdAt :: jsnum
  se_coordinatorPubkey :: string
  se_closedBy :: "string option"

record validation_result =
  vr_valid :: bool
  vr_errors :: "string list"

definition validation_of :: "string list \<Rightarrow> validation_result" where
  "validation_of errs = \<lparr>vr_valid = (errs = []), vr_errors = errs\<rparr>"

section \<open>Scopes\<close>

definition QUESTIONNAIRE_PRIVATE_INVITE_MAX_REDEMPTIONS :: int where
  "QUESTIONNAIRE_PRIVATE_INVITE_MAX_REDEMPTIONS = 10000"

definition normaliseQuestionnairePrivateInviteMaxRedemptions :: "jsval \<Rightarrow> int" where
  "normaliseQuestionnairePrivateInviteMaxRedemptions value =
     (let count = (case value of JNum (Fin r) \<Rightarrow> \<lfloor>r\<rfloor> | _ \<Rightarrow> 1)
      in min QUESTIONNAIRE_PRIVATE_INVITE_MAX_REDEMPTIONS (max 1 count))"

definition is_scope_char :: "char \<Rightarrow> bool" where
  "is_scope_char c = (is_lower_alnum c \<or> c = CHR ''_'' \<or> c = CHR ''-'')"

text \<open>\<open>/^[a-z0-9][a-z0-9_-]{0,63}$/\<close>\<close>

definition scope_pattern :: "string \<Rightarrow> bool" where
  "scope_pattern s = (s \<noteq> [] \<and> is_lower_alnum (hd s) \<and> list_all is_scope_char (tl s) \<and> length s \<le> 64)"

definition normaliseQuestionnaireScope :: "string option \<Rightarrow> string option" where
  "normaliseQuestionnaireScope value = (case value of None \<Rightarrow> None | Some v \<Rightarrow>
     (let normalised = js_lower (js_trim v) in
      if normalised = [] \<or> normalised = ''main'' \<or> normalised = ''0'' then None
      else if normalised = ''a'' then Some ''1''
      else if normalised = ''b'' then Some ''2''
      else if normalised = ''c'' then Some ''3''
      else if scope_pattern normalised then Some normalised else None))"

definition normaliseQuestionnaireBallotGroup :: "string option \<Rightarrow> string option" where
  "normaliseQuestionnaireBallotGroup = normaliseQuestionnaireScope"

definition coalesce :: "'a option \<Rightarrow> 'a option \<Rightarrow> 'a option" where
  "coalesce a b = (case a of None \<Rightarrow> b | Some _ \<Rightarrow> a)"

definition questionRequiredScope :: "question \<Rightarrow> string option" where
  "questionRequiredScope q = normaliseQuestionnaireScope (coalesce (q_requiredScope q) (q_ballotGroup q))"

definition allowedScopesForRequiredScope :: "string option \<Rightarrow> string list" where
  "allowedScopesForRequiredScope requiredScope =
     (case normaliseQuestionnaireScope requiredScope of Some s \<Rightarrow> [''0'', s] | None \<Rightarrow> [''0''])"

definition scope_cmp :: "string \<Rightarrow> string \<Rightarrow> int" where
  "scope_cmp l r = (if l = ''0'' then -1 else if r = ''0'' then 1
     else if l < r then -1 else if r < l then 1 else 0)"

definition normaliseQuestionnaireAllowedScopes :: "jsval list option \<Rightarrow> string option \<Rightarrow> string list" where
  "normaliseQuestionnaireAllowedScopes value fallbackRequiredScope =
     (let entries = (case value of Some vs \<Rightarrow> vs | None \<Rightarrow> []);
          scopes = ''0'' # map (\<lambda>s. case normaliseQuestionnaireScope (Some s) of Some n \<Rightarrow> n | None \<Rightarrow> ''0'')
                            (string_items entries);
          fallback = (case normaliseQuestionnaireScope fallbackRequiredScope of Some f \<Rightarrow> [f] | None \<Rightarrow> [])
      in js_sort scope_cmp (js_set (scopes @ fallback)))"

lemma normaliseQuestionnaireScope_None [simp]: "normaliseQuestionnaireScope None = None"
  by (simp add: normaliseQuestionnaireScope_def)

lemma scope_pattern_lower_char: "is_scope_char c \<Longrightarrow> js_lower_char c = c \<and> \<not> js_ws c"
  by (auto simp: is_scope_char_def is_lower_alnum_def js_lower_char_def Let_def js_ws_def)

lemma scope_pattern_chars: "scope_pattern s \<Longrightarrow> list_all is_scope_char s"
  by (cases s) (auto simp: scope_pattern_def is_scope_char_def)

lemma scope_chars_fixed:
  assumes "list_all is_scope_char s"
  shows "js_lower (js_trim s) = s"
proof -
  have nows: "\<forall>c\<in>set s. \<not> js_ws c" and low: "\<forall>c\<in>set s. js_lower_char c = c"
    using assms scope_pattern_lower_char by (auto simp: list_all_iff)
  have drop: "dropWhile js_ws t = t" if "\<forall>c\<in>set t. \<not> js_ws c" for t
    using that by (cases t) auto
  have "js_trim s = s" using nows by (simp add: js_trim_def drop)
  with low show ?thesis by (simp add: js_lower_def map_idI)
qed

text \<open>A normalised scope is a lower-case identifier other than \<open>main\<close>, \<open>0\<close>, \<open>a\<close>, \<open>b\<close>, \<open>c\<close>.\<close>

lemma normaliseQuestionnaireScope_Some:
  assumes "normaliseQuestionnaireScope v = Some s"
  shows "scope_pattern s" "s \<noteq> ''main''" "s \<noteq> ''0''" "s \<noteq> ''a''" "s \<noteq> ''b''" "s \<noteq> ''c''"
  using assms
  by (auto simp: normaliseQuestionnaireScope_def Let_def scope_pattern_def is_lower_alnum_def
      split: option.splits if_splits)

lemma normaliseQuestionnaireScope_fixed:
  assumes "normaliseQuestionnaireScope v = Some s"
  shows "normaliseQuestionnaireScope (Some s) = Some s"
proof -
  note s = normaliseQuestionnaireScope_Some [OF assms]
  have "js_lower (js_trim s) = s"
    using s(1) by (intro scope_chars_fixed scope_pattern_chars)
  moreover have "s \<noteq> []" using s(1) by (simp add: scope_pattern_def)
  ultimately show ?thesis using s by (simp add: normaliseQuestionnaireScope_def)
qed

lemma normaliseQuestionnaireScope_idem [simp]:
  "normaliseQuestionnaireScope (normaliseQuestionnaireScope v) = normaliseQuestionnaireScope v"
  by (cases "normaliseQuestionnaireScope v") (simp_all add: normaliseQuestionnaireScope_fixed)

lemma normaliseQuestionnaireScope_main: "normaliseQuestionnaireScope (Some ''0'') = None"
  by code_simp

interpretation scopes: comparator scope_cmp
proof
  show "scope_cmp x y \<le> 0 \<or> scope_cmp y x \<le> 0" for x y
    by (auto simp: scope_cmp_def)
  show "scope_cmp x z \<le> 0" if "scope_cmp x y \<le> 0" "scope_cmp y z \<le> 0" for x y z
    using that by (auto simp: scope_cmp_def split: if_splits)
qed

text \<open>The members of a normalised scope list: always \<open>0\<close>, then every valid scope given.\<close>

lemma set_normaliseQuestionnaireAllowedScopes:
  "set (normaliseQuestionnaireAllowedScopes vs fb) =
     {''0''} \<union> {n. \<exists>es s. vs = Some es \<and> JStr s \<in> set es \<and> normaliseQuestionnaireScope (Some s) = Some n}
       \<union> set_option (normaliseQuestionnaireScope fb)"
  by (cases vs; cases "normaliseQuestionnaireScope fb")
     (force simp: normaliseQuestionnaireAllowedScopes_def Let_def set_string_items split: option.splits)+

lemma distinct_normaliseQuestionnaireAllowedScopes [simp]:
  "distinct (normaliseQuestionnaireAllowedScopes vs fb)"
  by (simp add: normaliseQuestionnaireAllowedScopes_def Let_def)

lemma normaliseQuestionnaireAllowedScopes_sorted:
  "scopes.in_order (normaliseQuestionnaireAllowedScopes vs fb)"
  by (simp add: normaliseQuestionnaireAllowedScopes_def Let_def scopes.js_sort_in_order)

lemma scope_cmp_antisym: "scope_cmp x y \<le> 0 \<Longrightarrow> scope_cmp y x \<le> 0 \<Longrightarrow> x = y"
  by (auto simp: scope_cmp_def split: if_splits)

lemma normaliseQuestionnaireAllowedScopes_eqI:
  assumes "set (normaliseQuestionnaireAllowedScopes vs fb) = set (normaliseQuestionnaireAllowedScopes ws gb)"
  shows "normaliseQuestionnaireAllowedScopes vs fb = normaliseQuestionnaireAllowedScopes ws gb"
  using scopes.in_order_unique [OF scope_cmp_antisym normaliseQuestionnaireAllowedScopes_sorted
      normaliseQuestionnaireAllowedScopes_sorted] assms by simp

text \<open>
  Normalising again, with or without the group that was already merged in, changes nothing.
\<close>

lemma normaliseQuestionnaireAllowedScopes_idem [simp]:
  assumes "gb = None \<or> normaliseQuestionnaireScope gb = normaliseQuestionnaireScope fb"
  shows "normaliseQuestionnaireAllowedScopes
           (Some (map JStr (normaliseQuestionnaireAllowedScopes vs fb))) gb
         = normaliseQuestionnaireAllowedScopes vs fb"
proof (rule normaliseQuestionnaireAllowedScopes_eqI)
  let ?S = "set (normaliseQuestionnaireAllowedScopes vs fb)"
  have zero: "''0'' \<in> ?S"
    by (simp add: set_normaliseQuestionnaireAllowedScopes)
  have fixed: "normaliseQuestionnaireScope (Some s) = Some s" if "s \<in> ?S" "s \<noteq> ''0''" for s
    using that normaliseQuestionnaireScope_fixed
    by (cases "normaliseQuestionnaireScope fb")
       (auto simp: set_normaliseQuestionnaireAllowedScopes)
  have gb: "set_option (normaliseQuestionnaireScope gb) \<subseteq> ?S"
    using assms by (auto simp: set_normaliseQuestionnaireAllowedScopes)
  have "set (normaliseQuestionnaireAllowedScopes (Some (map JStr (normaliseQuestionnaireAllowedScopes vs fb))) gb)
      = {''0''} \<union> {n. \<exists>s\<in>?S. normaliseQuestionnaireScope (Some s) = Some n}
          \<union> set_option (normaliseQuestionnaireScope gb)"
    by (subst set_normaliseQuestionnaireAllowedScopes) auto
  also have "{n. \<exists>s\<in>?S. normaliseQuestionnaireScope (Some s) = Some n} = ?S - {''0''}"
    using fixed normaliseQuestionnaireScope_main normaliseQuestionnaireScope_Some(3)
    by (auto; metis option.inject option.distinct(1))
  finally show "set (normaliseQuestionnaireAllowedScopes
      (Some (map JStr (normaliseQuestionnaireAllowedScopes vs fb))) gb) = ?S"
    using zero gb by auto
qed

section \<open>Credentials and ballot slots\<close>

definition questionnaireUsesPerQuestionCredentials :: "questionnaire_definition option \<Rightarrow> bool" where
  "questionnaireUsesPerQuestionCredentials d =
     (case d of None \<Rightarrow> False | Some d \<Rightarrow> d_ballotCredentialMode d = Some ''per_question'')"

definition normaliseQuestionnaireCredentialsPerVoter :: "jsnum option \<Rightarrow> int" where
  "normaliseQuestionnaireCredentialsPerVoter value = (if value = Some (Fin 2) then 2 else 1)"

definition questionnaireCredentialsPerVoter :: "questionnaire_definition option \<Rightarrow> int" where
  "questionnaireCredentialsPerVoter d =
     normaliseQuestionnaireCredentialsPerVoter (Option.bind d d_credentialsPerVoter)"

record normal_slot =
  ns_slotId :: string
  ns_slotIndex :: int
  ns_version :: int

definition normaliseQuestionBallotSlot :: "question \<Rightarrow> nat \<Rightarrow> normal_slot" where
  "normaliseQuestionBallotSlot q index = (case q_ballotSlot q of
     None \<Rightarrow> \<lparr>ns_slotId = js_trim (q_questionId q), ns_slotIndex = int index + 1, ns_version = 1\<rparr>
   | Some slot \<Rightarrow>
       \<lparr>ns_slotId = (if js_trim (bs_slotId slot) \<noteq> [] then js_trim (bs_slotId slot)
                     else js_trim (q_questionId q)),
        ns_slotIndex = (if num_isFinite (bs_slotIndex slot) then floor_at_least 1 (bs_slotIndex slot)
                        else int index + 1),
        ns_version = (if num_isFinite (bs_version slot) then floor_at_least 1 (bs_version slot) else 1)\<rparr>)"

definition credential_suffix :: "int \<Rightarrow> string" where
  "credential_suffix credentialIndex =
     (if credentialIndex > 1 then '':c'' @ string_of_int credentialIndex else [])"

definition num_floor :: "jsnum \<Rightarrow> int" where
  "num_floor n = (case n of Fin r \<Rightarrow> \<lfloor>r\<rfloor> | _ \<Rightarrow> 0)"

definition questionBallotScopeKey :: "question \<Rightarrow> nat \<Rightarrow> jsnum \<Rightarrow> string" where
  "questionBallotScopeKey q index credentialIndex =
     (let slot = normaliseQuestionBallotSlot q index;
          scopePrefix = (case questionRequiredScope q of Some s \<Rightarrow> ''scopes:'' @ s @ '':'' | None \<Rightarrow> []);
          credentialSuffix = (if num_isFinite credentialIndex then credential_suffix (num_floor credentialIndex)
                              else [])
      in scopePrefix @ ''slot:'' @ string_of_int (ns_slotIndex slot) @ '':v''
           @ string_of_int (ns_version slot) @ credentialSuffix)"

record credential_scope =
  cs_slotIndex :: int
  cs_version :: int
  cs_allowedScopes :: "string list option"
  cs_credentialIndex :: "int option"

definition questionBallotCredentialScope :: "question \<Rightarrow> nat \<Rightarrow> jsnum \<Rightarrow> credential_scope" where
  "questionBallotCredentialScope q index credentialIndex =
     (let slot = normaliseQuestionBallotSlot q index;
          normalizedCredentialIndex = (if num_isFinite credentialIndex then floor_at_least 1 credentialIndex else 1);
          requiredScope = questionRequiredScope q
      in \<lparr>cs_slotIndex = ns_slotIndex slot, cs_version = ns_version slot,
          cs_allowedScopes = (if requiredScope \<noteq> None then Some (allowedScopesForRequiredScope requiredScope)
                              else None),
          cs_credentialIndex = (if normalizedCredentialIndex > 1 then Some normalizedCredentialIndex else None)\<rparr>)"

lemma normaliseQuestionBallotSlot_bounds:
  "1 \<le> ns_slotIndex (normaliseQuestionBallotSlot q i)" "1 \<le> ns_version (normaliseQuestionBallotSlot q i)"
  by (auto simp: normaliseQuestionBallotSlot_def split: option.splits)

lemma allowedScopes_credentialScope:
  "questionRequiredScope q = Some s \<Longrightarrow>
     cs_allowedScopes (questionBallotCredentialScope q i c) = Some [''0'', s]"
  by (simp add: questionBallotCredentialScope_def Let_def allowedScopesForRequiredScope_def
      questionRequiredScope_def split: option.splits)
     (metis normaliseQuestionnaireScope_fixed option.distinct(1) option.inject)

section \<open>Ranked choices\<close>

definition clampRankMinimum :: "choice_option list \<Rightarrow> jsnum \<Rightarrow> int" where
  "clampRankMinimum options minimumRanked =
     (if \<not> num_isFinite minimumRanked then 0
      else min (int (length options)) (floor_at_least 0 minimumRanked))"

fun rank_scan :: "string list \<Rightarrow> string list \<Rightarrow> jsval list \<Rightarrow> string list" where
  "rank_scan valid seen [] = []"
| "rank_scan valid seen (v # vs) = (case v of
     JStr optionId \<Rightarrow>
       (if optionId \<notin> set valid \<or> optionId \<in> set seen then rank_scan valid seen vs
        else optionId # rank_scan valid (optionId # seen) vs)
   | _ \<Rightarrow> rank_scan valid seen vs)"

definition normaliseRankedOptionIds :: "choice_option list \<Rightarrow> jsval \<Rightarrow> string list" where
  "normaliseRankedOptionIds options rankedOptionIds = (case rankedOptionIds of
     JArr vs \<Rightarrow> take (length options) (rank_scan (map co_optionId options) [] vs)
   | _ \<Rightarrow> [])"

fun assign_scores :: "int \<Rightarrow> nat \<Rightarrow> string list \<Rightarrow> int obj \<Rightarrow> int obj" where
  "assign_scores optionCount index [] scores = scores"
| "assign_scores optionCount index (optionId # ids) scores =
     assign_scores optionCount (Suc index) ids (obj_set optionId (optionCount - int index) scores)"

definition calculateRankQuestionScores :: "choice_option list \<Rightarrow> jsval \<Rightarrow> int obj" where
  "calculateRankQuestionScores options rankedOptionIds =
     assign_scores (int (length options)) 0 (normaliseRankedOptionIds options rankedOptionIds)
       (from_entries (map (\<lambda>opt. (co_optionId opt, 0)) options))"

lemma rank_scan_props:
  "distinct (rank_scan valid seen vs) \<and> set (rank_scan valid seen vs) \<subseteq> set valid - set seen"
proof (induction valid seen vs rule: rank_scan.induct)
  case (2 valid seen v vs)
  then show ?case by (cases v) (auto split: if_splits)
qed simp

lemma normaliseRankedOptionIds_props:
  "distinct (normaliseRankedOptionIds options v)"
  "set (normaliseRankedOptionIds options v) \<subseteq> co_optionId ` set options"
proof -
  have "set (take n xs) \<subseteq> set xs" for n and xs :: "string list"
    by (rule set_take_subset)
  with rank_scan_props [of "map co_optionId options" "[]"]
  show "distinct (normaliseRankedOptionIds options v)"
    and "set (normaliseRankedOptionIds options v) \<subseteq> co_optionId ` set options"
    by (cases v; force simp: normaliseRankedOptionIds_def)+
qed

text \<open>The final \<open>slice\<close> never drops anything: the scan yields at most one entry per option.\<close>

lemma rank_scan_length: "length (rank_scan (map co_optionId options) seen vs) \<le> length options"
proof -
  let ?r = "rank_scan (map co_optionId options) seen vs"
  have "distinct ?r" and "set ?r \<subseteq> co_optionId ` set options"
    using rank_scan_props [of "map co_optionId options" seen vs] by auto
  then have "length ?r \<le> card (co_optionId ` set options)"
    by (metis List.finite_set card_mono distinct_card finite_imageI)
  also have "\<dots> \<le> length options"
    by (metis List.finite_set card_image_le card_length le_trans)
  finally show ?thesis .
qed

lemma normaliseRankedOptionIds_JArr:
  "normaliseRankedOptionIds options (JArr vs) = rank_scan (map co_optionId options) [] vs"
  by (simp add: normaliseRankedOptionIds_def rank_scan_length)

lemma normaliseRankedOptionIds_length:
  "length (normaliseRankedOptionIds options v) \<le> length options"
  by (cases v) (auto simp: normaliseRankedOptionIds_def)

lemma rank_scan_id:
  "distinct ids \<Longrightarrow> set ids \<subseteq> set valid \<Longrightarrow> set ids \<inter> set seen = {} \<Longrightarrow>
     rank_scan valid seen (map JStr ids) = ids"
  by (induction ids arbitrary: seen) auto

lemma assign_scores_notin: "x \<notin> set ids \<Longrightarrow> obj_get (assign_scores n k ids sc) x = obj_get sc x"
  by (induction n k ids sc rule: assign_scores.induct) auto

lemma dom_assign_scores: "dom (obj_get (assign_scores n k ids sc)) = set ids \<union> dom (obj_get sc)"
  by (induction n k ids sc rule: assign_scores.induct) (auto split: if_splits)

lemma assign_scores_nth:
  assumes "distinct ids" "i < length ids"
  shows "obj_get (assign_scores n k ids sc) (ids ! i) = Some (n - int k - int i)"
  using assms
proof (induction n k ids sc arbitrary: i rule: assign_scores.induct)
  case (2 n k x ids sc)
  then show ?case
    by (cases i) (auto simp: assign_scores_notin)
qed simp

lemma distinct_assign_scores: "distinct (map fst sc) \<Longrightarrow> distinct (map fst (assign_scores n k ids sc))"
  by (induction n k ids sc rule: assign_scores.induct) (simp_all add: distinct_update)

lemma dom_calculateRankQuestionScores:
  "dom (obj_get (calculateRankQuestionScores options v)) = co_optionId ` set options"
  using normaliseRankedOptionIds_props(2) [of options v]
  by (auto simp: calculateRankQuestionScores_def dom_assign_scores from_entries_def dom_obj_set_all image_image)

lemma from_entries_const:
  "obj_get (from_entries (map (\<lambda>opt. (f opt, c)) xs)) k = Some v \<Longrightarrow> v = c"
  by (auto simp: from_entries_def dest: obj_set_all_cases)

lemma from_entries_const_get [simp]:
  "obj_get (from_entries (map (\<lambda>opt. (f opt, c)) xs)) k = (if k \<in> f ` set xs then Some c else None)"
proof -
  let ?m = "obj_get (from_entries (map (\<lambda>opt. (f opt, c)) xs))"
  have dom: "k \<in> dom ?m \<longleftrightarrow> k \<in> f ` set xs"
    by (simp only: from_entries_def dom_obj_set_all) (simp add: image_image)
  show ?thesis
  proof (cases "?m k")
    case None
    then have "k \<notin> dom ?m" by (simp only: domIff not_not)
    with dom None show ?thesis by simp
  next
    case (Some v)
    then have "k \<in> dom ?m" by (rule domI)
    with dom from_entries_const [OF Some] Some show ?thesis by simp
  qed
qed

text \<open>The \<open>i\<close>-th choice of \<open>n\<close> options scores \<open>n - i\<close>, an unranked option scores 0.\<close>

lemma calculateRankQuestionScores_nth:
  assumes "i < length (normaliseRankedOptionIds options v)"
  shows "obj_get (calculateRankQuestionScores options v) (normaliseRankedOptionIds options v ! i)
           = Some (int (length options) - int i)"
  using assms normaliseRankedOptionIds_props(1)
  by (simp add: calculateRankQuestionScores_def assign_scores_nth)

lemma calculateRankQuestionScores_unranked:
  assumes "x \<in> co_optionId ` set options" "x \<notin> set (normaliseRankedOptionIds options v)"
  shows "obj_get (calculateRankQuestionScores options v) x = Some 0"
  using assms by (simp add: calculateRankQuestionScores_def assign_scores_notin)

end
