(* ===== verification/Conditions.thy ===== *)
theory Conditions
  imports Protocol
begin

text \<open>
  Conditional questions (\<open>web/src/questionConditionEvaluator.ts\<close>): the search for a cycle in the
  \<open>showIf\<close> chain, the evaluation of one condition, and \<open>shouldShowQuestion\<close>, whose recursion
  over the chain is proved to end for every map of questions, cyclic or not.
\<close>

datatype circular_dependency =
    DependsOnItself string
  | PartOfCycle string
  | DependsOnCycle string

type_synonym question_map = "question obj"

definition question_map_of :: "question list \<Rightarrow> question_map" where
  "question_map_of qs = from_entries (map (\<lambda>q. (q_questionId q, q)) qs)"

definition answer_map_of :: "response_answer list \<Rightarrow> answer_body obj" where
  "answer_map_of as = from_entries (map (\<lambda>a. (ra_questionId a, ra_body a)) as)"

section \<open>The cycle search\<close>

text \<open>The \<open>while\<close> loop of \<open>checkForCycle\<close>; \<open>visited\<close> grows inside the finite set of keys.\<close>

function walk_chain :: "question_map \<Rightarrow> string \<Rightarrow> string \<Rightarrow> string list \<Rightarrow> circular_dependency + unit" where
  "walk_chain qs originalId currentId visited =
     (if currentId = originalId then Inl (PartOfCycle originalId)
      else if currentId \<in> set visited then Inl (DependsOnCycle originalId)
      else (case obj_get qs currentId of
          None \<Rightarrow> Inr ()
        | Some depQuestion \<Rightarrow> (case q_showIf depQuestion of
              None \<Rightarrow> Inr ()
            | Some c \<Rightarrow> walk_chain qs originalId (qc_dependsOnQuestionId c) (currentId # visited))))"
  by pat_completeness auto
termination
proof (relation "measure (\<lambda>(qs, _, _, visited). card (dom (obj_get qs) - set visited))", goal_cases)
  case 1
  show ?case by simp
next
  case (2 qs originalId currentId visited dq c)
  then have "currentId \<in> dom (obj_get qs) - set visited" by auto
  then have "dom (obj_get qs) - set (currentId # visited) \<subset> dom (obj_get qs) - set visited" by auto
  then show ?case by (simp add: finite_dom_map_of psubset_card_mono)
qed

declare walk_chain.simps [simp del]

definition checkForCycle ::
  "string \<Rightarrow> string \<Rightarrow> question_map option \<Rightarrow> circular_dependency + unit" where
  "checkForCycle originalId dependsOnId allQuestions =
     (if dependsOnId = originalId then Inl (DependsOnItself originalId)
      else (case allQuestions of None \<Rightarrow> Inr () | Some qs \<Rightarrow> walk_chain qs originalId dependsOnId []))"

text \<open>
  The number of questions on the chain from a question, if the chain ends: what the cycle search
  has established once it passes, and the measure for the recursion below.
\<close>

function chain_length :: "question_map \<Rightarrow> string \<Rightarrow> string list \<Rightarrow> nat option" where
  "chain_length qs currentId visited =
     (if currentId \<in> set visited then None
      else (case Option.bind (obj_get qs currentId) q_showIf of
          None \<Rightarrow> Some 1
        | Some c \<Rightarrow> map_option Suc (chain_length qs (qc_dependsOnQuestionId c) (currentId # visited))))"
  by pat_completeness auto
termination
proof (relation "measure (\<lambda>(qs, _, visited). card (dom (obj_get qs) - set visited))", goal_cases)
  case 1
  show ?case by simp
next
  case (2 qs currentId visited c)
  then have "currentId \<in> dom (obj_get qs) - set visited" by (auto split: Option.bind_splits)
  then have "dom (obj_get qs) - set (currentId # visited) \<subset> dom (obj_get qs) - set visited" by auto
  then show ?case by (simp add: finite_dom_map_of psubset_card_mono)
qed

declare chain_length.simps [simp del]

lemma walk_chain_chain_length:
  "walk_chain qs originalId currentId visited = Inr u \<Longrightarrow> \<exists>n. chain_length qs currentId visited = Some n"
proof (induction qs originalId currentId visited rule: walk_chain.induct)
  case (1 qs originalId currentId visited)
  from "1.prems" have cur: "currentId \<noteq> originalId" "currentId \<notin> set visited"
    by (subst (asm) walk_chain.simps; simp split: if_splits)+
  show ?case
  proof (cases "Option.bind (obj_get qs currentId) q_showIf")
    case None
    with cur show ?thesis by (simp add: chain_length.simps [of qs currentId])
  next
    case (Some c)
    then obtain dq where dq: "obj_get qs currentId = Some dq" "q_showIf dq = Some c"
      by (auto split: Option.bind_splits)
    with "1.prems" cur have "walk_chain qs originalId (qc_dependsOnQuestionId c) (currentId # visited) = Inr u"
      by (subst (asm) walk_chain.simps) simp
    from "1.IH" [OF cur dq this] obtain n
      where "chain_length qs (qc_dependsOnQuestionId c) (currentId # visited) = Some n" by blast
    with cur Some show ?thesis by (simp add: chain_length.simps [of qs currentId])
  qed
qed

lemma chain_length_antimono:
  "chain_length qs currentId visited = Some n \<Longrightarrow> set visited' \<subseteq> set visited \<Longrightarrow>
     chain_length qs currentId visited' = Some n"
proof (induction qs currentId visited arbitrary: visited' n rule: chain_length.induct)
  case (1 qs currentId visited)
  from "1.prems" have cur: "currentId \<notin> set visited" "currentId \<notin> set visited'"
    by (subst (asm) chain_length.simps; auto split: if_splits)+
  show ?case
  proof (cases "Option.bind (obj_get qs currentId) q_showIf")
    case None
    with cur "1.prems" show ?thesis by (simp add: chain_length.simps [of qs currentId])
  next
    case (Some c)
    with "1.prems" cur obtain m
      where m: "chain_length qs (qc_dependsOnQuestionId c) (currentId # visited) = Some m" "n = Suc m"
      by (auto simp: chain_length.simps [of qs currentId visited])
    from "1.prems"(2) have "set (currentId # visited') \<subseteq> set (currentId # visited)" by auto
    with "1.IH" [OF cur(1) Some m(1)]
    have "chain_length qs (qc_dependsOnQuestionId c) (currentId # visited') = Some m" by blast
    with cur Some m show ?thesis by (simp add: chain_length.simps [of qs currentId visited'])
  qed
qed

lemma chain_length_step:
  assumes "chain_length qs x [] = Some n" "obj_get qs x = Some q" "q_showIf q = Some c"
  shows "\<exists>m. chain_length qs (qc_dependsOnQuestionId c) [] = Some m \<and> n = Suc m"
proof -
  from assms obtain m where "chain_length qs (qc_dependsOnQuestionId c) [x] = Some m" "n = Suc m"
    by (auto simp: chain_length.simps [of qs x])
  then show ?thesis using chain_length_antimono [of qs _ "[x]" m "[]"] by auto
qed

lemma checkForCycle_chain_length:
  "checkForCycle originalId dep (Some qs) = Inr u \<Longrightarrow> \<exists>n. chain_length qs dep [] = Some n"
  using walk_chain_chain_length by (auto simp: checkForCycle_def split: if_splits)

section \<open>One condition\<close>

text \<open>
  \<open>evaluateCondition\<close>: equal booleans, or every required option among those selected; a value of
  another shape or an answer of another type hides the question.
\<close>

definition all_strings :: "jsval \<Rightarrow> bool" where
  "all_strings v = (is_JArr v \<and> list_all is_JStr (array_or_empty v))"

definition evaluateCondition :: "answer_body option \<Rightarrow> answer_body \<Rightarrow> bool" where
  "evaluateCondition required actual = (case required of None \<Rightarrow> False | Some req \<Rightarrow>
     if ab_answerType req = ''yes_no'' \<and> ab_answerType actual = ''yes_no'' then
       is_JBool (ab_value req) \<and> is_JBool (ab_value actual) \<and> ab_value req = ab_value actual
     else if ab_answerType req = ''multiple_choice'' \<and> ab_answerType actual = ''multiple_choice'' then
       (if \<not> is_JArr (ab_selectedOptionIds req) \<or> array_or_empty (ab_selectedOptionIds req) = []
           \<or> \<not> all_strings (ab_selectedOptionIds req) \<or> \<not> all_strings (ab_selectedOptionIds actual)
        then False
        else list_all (\<lambda>reqId. reqId \<in> set (array_or_empty (ab_selectedOptionIds actual)))
               (js_set (array_or_empty (ab_selectedOptionIds req))))
     else False)"

section \<open>Visibility\<close>

function shouldShowQuestion ::
  "question \<Rightarrow> answer_body obj \<Rightarrow> question_map option \<Rightarrow> circular_dependency + bool" where
  "shouldShowQuestion q answered allQuestions = (case q_showIf q of
     None \<Rightarrow> Inr True
   | Some condition \<Rightarrow>
      (case checkForCycle (q_questionId q) (qc_dependsOnQuestionId condition) allQuestions of
        Inl e \<Rightarrow> Inl e
      | Inr _ \<Rightarrow>
        (let conclude = (case obj_get answered (qc_dependsOnQuestionId condition) of
               None \<Rightarrow> Inr False
             | Some depAnswer \<Rightarrow> Inr (evaluateCondition (qc_requiredAnswer condition) depAnswer))
         in case allQuestions of
            None \<Rightarrow> conclude
          | Some qs \<Rightarrow> (case obj_get qs (qc_dependsOnQuestionId condition) of
                None \<Rightarrow> Inr False
              | Some dependency \<Rightarrow> (case shouldShowQuestion dependency answered (Some qs) of
                    Inl e \<Rightarrow> Inl e
                  | Inr shown \<Rightarrow> if \<not> shown then Inr False else conclude)))))"
  by pat_completeness auto

definition show_measure :: "question \<Rightarrow> question_map option \<Rightarrow> nat" where
  "show_measure q allQuestions = (case (q_showIf q, allQuestions) of
     (Some c, Some qs) \<Rightarrow>
       (case chain_length qs (qc_dependsOnQuestionId c) [] of Some n \<Rightarrow> n | None \<Rightarrow> 0)
   | _ \<Rightarrow> 0)"

lemma chain_length_pos: "chain_length qs x vis = Some n \<Longrightarrow> 0 < n"
  by (subst (asm) chain_length.simps) (auto split: if_splits option.splits)

lemma show_measure_decreases:
  assumes "q_showIf q = Some c" "obj_get qs (qc_dependsOnQuestionId c) = Some dependency"
    and "checkForCycle (q_questionId q) (qc_dependsOnQuestionId c) (Some qs) = Inr u"
  shows "show_measure dependency (Some qs) < show_measure q (Some qs)"
proof -
  from assms(3) obtain n where n: "chain_length qs (qc_dependsOnQuestionId c) [] = Some n"
    using checkForCycle_chain_length by blast
  show ?thesis
  proof (cases "q_showIf dependency")
    case None
    with assms(1) n show ?thesis by (simp add: show_measure_def chain_length_pos)
  next
    case (Some c')
    with chain_length_step [OF n assms(2)] obtain m
      where "chain_length qs (qc_dependsOnQuestionId c') [] = Some m" "n = Suc m" by blast
    with assms(1) n Some show ?thesis by (simp add: show_measure_def)
  qed
qed

termination shouldShowQuestion
  by (relation "measure (\<lambda>(q, _, allQuestions). show_measure q allQuestions)")
     (auto intro: show_measure_decreases)

declare shouldShowQuestion.simps [simp del]

section \<open>When the recursion succeeds\<close>

text \<open>
  The \<open>showIf\<close> chain as a relation on question ids, and the chains that end.
\<close>

definition dep_of :: "question_map \<Rightarrow> string \<Rightarrow> string option" where
  "dep_of qs x = map_option qc_dependsOnQuestionId (Option.bind (obj_get qs x) q_showIf)"

inductive chain_ends :: "question_map \<Rightarrow> string \<Rightarrow> bool" for qs where
  stop: "dep_of qs x = None \<Longrightarrow> chain_ends qs x"
| step: "dep_of qs x = Some y \<Longrightarrow> chain_ends qs y \<Longrightarrow> chain_ends qs x"

inductive chain_reaches :: "question_map \<Rightarrow> string \<Rightarrow> string \<Rightarrow> bool" for qs where
  here: "chain_reaches qs x x"
| there: "dep_of qs x = Some y \<Longrightarrow> chain_reaches qs y z \<Longrightarrow> chain_reaches qs x z"

lemma chain_reaches_trans: "chain_reaches qs x y \<Longrightarrow> chain_reaches qs y z \<Longrightarrow> chain_reaches qs x z"
  by (induction rule: chain_reaches.induct) (auto intro: chain_reaches.intros)

lemma chain_reaches_next:
  assumes "chain_reaches qs y x" "dep_of qs x = Some y" "dep_of qs y = Some z"
  shows "chain_reaches qs z y"
  using assms
proof (cases rule: chain_reaches.cases)
  case here
  with assms show ?thesis by (auto intro: chain_reaches.intros)
next
  case (there w)
  then have "chain_reaches qs z x" using assms by simp
  then show ?thesis
    by (rule chain_reaches_trans) (auto intro: chain_reaches.intros assms)
qed

lemma chain_ends_acyclic:
  "chain_ends qs x \<Longrightarrow> dep_of qs x = Some w \<Longrightarrow> \<not> chain_reaches qs w x"
proof (induction arbitrary: w rule: chain_ends.induct)
  case (step x y)
  have "\<not> chain_reaches qs y x"
  proof
    assume r: "chain_reaches qs y x"
    then obtain z where z: "dep_of qs y = Some z"
      using step by (cases rule: chain_reaches.cases) auto
    from step.IH [OF z] chain_reaches_next [OF r step.hyps(1) z] show False by simp
  qed
  then show ?case using step.prems step.hyps by simp
qed simp

lemma walk_chain_dep:
  "walk_chain qs originalId x visited =
     (if x = originalId then Inl (PartOfCycle originalId)
      else if x \<in> set visited then Inl (DependsOnCycle originalId)
      else (case dep_of qs x of None \<Rightarrow> Inr ()
            | Some y \<Rightarrow> walk_chain qs originalId y (x # visited)))"
  by (subst walk_chain.simps) (auto simp: dep_of_def split: option.splits)

lemma walk_chain_passes:
  "chain_ends qs x \<Longrightarrow> \<forall>v\<in>set (originalId # visited). \<not> chain_reaches qs x v \<Longrightarrow>
     walk_chain qs originalId x visited = Inr ()"
proof (induction arbitrary: visited rule: chain_ends.induct)
  case (stop x)
  then show ?case using chain_reaches.here [of qs x] by (subst walk_chain_dep) auto
next
  case (step x y)
  have "chain_ends qs x" using step.hyps by (rule chain_ends.step)
  then have "\<not> chain_reaches qs y x" using step.hyps(1) by (rule chain_ends_acyclic)
  moreover have "\<not> chain_reaches qs y v" if "v \<in> set (originalId # visited)" for v
    using that step.prems step.hyps(1) chain_reaches.there by blast
  ultimately have "walk_chain qs originalId y (x # visited) = Inr ()"
    by (intro step.IH) auto
  then show ?case
    using step.prems step.hyps(1) chain_reaches.here [of qs x] by (subst walk_chain_dep) auto
qed

lemma checkForCycle_passes:
  assumes "chain_ends qs x" "dep_of qs x = Some y"
  shows "checkForCycle x y (Some qs) = Inr ()"
proof -
  have "\<not> chain_reaches qs y x" using assms by (rule chain_ends_acyclic)
  moreover from this have "y \<noteq> x" using chain_reaches.here by metis
  moreover have "chain_ends qs y" using assms by (cases rule: chain_ends.cases) auto
  ultimately show ?thesis by (simp add: checkForCycle_def walk_chain_passes)
qed

lemma chain_length_chain_ends: "chain_length qs x visited = Some n \<Longrightarrow> chain_ends qs x"
proof (induction qs x visited arbitrary: n rule: chain_length.induct)
  case (1 qs x visited)
  from "1.prems" have vis: "x \<notin> set visited"
    by (subst (asm) chain_length.simps) (auto split: if_splits)
  show ?case
  proof (cases "Option.bind (obj_get qs x) q_showIf")
    case None
    then show ?thesis by (intro chain_ends.stop) (simp add: dep_of_def)
  next
    case (Some c)
    with "1.prems" vis obtain m
      where "chain_length qs (qc_dependsOnQuestionId c) (x # visited) = Some m"
      by (auto simp: chain_length.simps [of qs x visited])
    with "1.IH" [OF vis Some] have "chain_ends qs (qc_dependsOnQuestionId c)" by blast
    with Some show ?thesis by (auto simp: dep_of_def intro: chain_ends.step [of qs x "qc_dependsOnQuestionId c"])
  qed
qed

text \<open>A map whose entries are filed under their own ids, as \<open>new Map(questions.map(...))\<close> builds it.\<close>

definition keyed_by_id :: "question_map \<Rightarrow> bool" where
  "keyed_by_id qs = (\<forall>k q. obj_get qs k = Some q \<longrightarrow> q_questionId q = k)"

lemma question_map_of_Some:
  assumes "obj_get (question_map_of qs) k = Some q"
  shows "q \<in> set qs \<and> q_questionId q = k"
  using obj_set_all_cases [OF assms [unfolded question_map_of_def from_entries_def]] by auto

lemma keyed_by_id_question_map_of [simp]: "keyed_by_id (question_map_of qs)"
  using question_map_of_Some by (simp only: keyed_by_id_def) blast

lemma shouldShowQuestion_no_condition [simp]:
  "q_showIf q = None \<Longrightarrow> shouldShowQuestion q answered m = Inr True"
  by (simp add: shouldShowQuestion.simps)

lemma shouldShowQuestion_returns:
  assumes "keyed_by_id qs"
  shows "chain_ends qs x \<Longrightarrow> obj_get qs x = Some q \<Longrightarrow> \<exists>b. shouldShowQuestion q answered (Some qs) = Inr b"
proof (induction arbitrary: q rule: chain_ends.induct)
  case (stop x)
  then have "q_showIf q = None" by (simp add: dep_of_def)
  then show ?case by (intro exI) (rule shouldShowQuestion_no_condition)
next
  case (step x y)
  then obtain c where c: "q_showIf q = Some c" "qc_dependsOnQuestionId c = y"
    by (auto simp: dep_of_def)
  have "q_questionId q = x" using assms step.prems by (simp add: keyed_by_id_def)
  moreover have "checkForCycle x y (Some qs) = Inr ()"
    using chain_ends.step [OF step.hyps] step.hyps(1) by (rule checkForCycle_passes)
  ultimately show ?case
    using c step.IH
    by (subst shouldShowQuestion.simps) (fastforce simp: Let_def split: option.splits sum.splits)
qed

lemma shouldShowQuestion_throws:
  assumes "shouldShowQuestion q answered (Some qs) = Inr b" "obj_get qs x = Some q"
  shows "chain_ends qs x"
proof (cases "q_showIf q")
  case None
  then show ?thesis using assms by (intro chain_ends.stop) (simp add: dep_of_def)
next
  case (Some c)
  with assms obtain u where "checkForCycle (q_questionId q) (qc_dependsOnQuestionId c) (Some qs) = Inr u"
    by (subst (asm) shouldShowQuestion.simps) (auto split: sum.splits)
  then obtain n where "chain_length qs (qc_dependsOnQuestionId c) [] = Some n"
    using checkForCycle_chain_length by blast
  then have "chain_ends qs (qc_dependsOnQuestionId c)" by (rule chain_length_chain_ends)
  moreover have "dep_of qs x = Some (qc_dependsOnQuestionId c)"
    using Some assms(2) by (simp add: dep_of_def)
  ultimately show ?thesis by (blast intro: chain_ends.step)
qed

section \<open>The visibility rules\<close>

text \<open>
  What the evaluator's header promises, as rules: a question without a condition is visible; one
  with a condition is visible if its dependency is a known, visible, answered question whose
  answer satisfies the condition; nothing else is.
\<close>

inductive visible :: "question_map \<Rightarrow> answer_body obj \<Rightarrow> question \<Rightarrow> bool" for qs answered where
  unconditional: "q_showIf q = None \<Longrightarrow> visible qs answered q"
| conditional: "q_showIf q = Some c \<Longrightarrow> obj_get qs (qc_dependsOnQuestionId c) = Some dependency \<Longrightarrow>
    visible qs answered dependency \<Longrightarrow> obj_get answered (qc_dependsOnQuestionId c) = Some depAnswer \<Longrightarrow>
    evaluateCondition (qc_requiredAnswer c) depAnswer \<Longrightarrow> visible qs answered q"

inductive_simps visible_iff: "visible qs answered q"

lemma shouldShowQuestion_visible:
  "shouldShowQuestion q answered (Some qs) = Inr b \<Longrightarrow> b \<longleftrightarrow> visible qs answered q"
proof (induction q answered "Some qs" arbitrary: b rule: shouldShowQuestion.induct)
  case (1 q answered)
  show ?case
  proof (cases "q_showIf q")
    case None
    with "1.prems" show ?thesis by (simp add: visible_iff [of qs answered q])
  next
    case (Some c)
    with "1.prems" obtain u where chk:
      "checkForCycle (q_questionId q) (qc_dependsOnQuestionId c) (Some qs) = Inr u"
      by (subst (asm) shouldShowQuestion.simps) (auto split: sum.splits)
    show ?thesis
    proof (cases "obj_get qs (qc_dependsOnQuestionId c)")
      case None
      with "1.prems" Some chk show ?thesis
        by (subst (asm) shouldShowQuestion.simps) (simp add: visible_iff [of qs answered q] Let_def)
    next
      case (Some dependency)
      with "1.prems" \<open>q_showIf q = Some c\<close> chk obtain shown
        where sh: "shouldShowQuestion dependency answered (Some qs) = Inr shown"
        by (subst (asm) shouldShowQuestion.simps) (auto simp: Let_def split: sum.splits)
      have "shown = visible qs answered dependency"
        using "1.hyps" \<open>q_showIf q = Some c\<close> chk Some sh by blast
      with "1.prems" \<open>q_showIf q = Some c\<close> chk Some sh show ?thesis
        by (subst (asm) shouldShowQuestion.simps)
           (auto simp: visible_iff [of qs answered q] Let_def split: if_splits option.splits)
    qed
  qed
qed

end
