(* ===== verification/Definition_Check.thy ===== *)
theory Definition_Check
  imports Conditions
begin

text \<open>
  Checking and normalising a questionnaire definition: relay lists
  (\<open>web/src/questionnaireRelays.ts\<close>), \<open>validateQuestionnaireDefinition\<close>,
  \<open>canonicaliseQuestionnaireDefinitionText\<close> and \<open>normalizeQuestionnaireDefinition\<close>
  (\<open>web/src/questionnaireProtocol.ts\<close>).  Every error of the source is an entry of the error list,
  in the order in which the source pushes it.
\<close>

section \<open>Relay lists\<close>

text \<open>The Rust core trims, drops empty entries and keeps the first of equal ones.\<close>

definition rust_ws :: "char \<Rightarrow> bool" where
  "rust_ws c = (js_ws c \<or> c = CHR 0x85)"

definition rust_trim :: "string \<Rightarrow> string" where
  "rust_trim s = rev (dropWhile rust_ws (rev (dropWhile rust_ws s)))"

fun normalize_trimmed_unique :: "string list \<Rightarrow> string list \<Rightarrow> string list" where
  "normalize_trimmed_unique seen [] = []"
| "normalize_trimmed_unique seen (value # values) =
     (let trimmed = rust_trim value in
      if trimmed = [] then normalize_trimmed_unique seen values
      else if trimmed \<in> set seen then normalize_trimmed_unique seen values
      else trimmed # normalize_trimmed_unique (trimmed # seen) values)"

definition normalizeRelaysRust :: "string list \<Rightarrow> string list" where
  "normalizeRelaysRust values = normalize_trimmed_unique [] values"

fun split_on :: "(char \<Rightarrow> bool) \<Rightarrow> string \<Rightarrow> string list" where
  "split_on P [] = [[]]"
| "split_on P (c # s) = (if P c then [] # split_on P s
     else (case split_on P s of [] \<Rightarrow> [[c]] | w # ws \<Rightarrow> (c # w) # ws))"

definition splitRelayInput :: "string \<Rightarrow> string list" where
  "splitRelayInput value =
     filter (\<lambda>e. e \<noteq> []) (map js_trim (split_on (\<lambda>c. js_ws c \<or> c = CHR '','') value))"

definition normalizeQuestionnaireRelays :: "host \<Rightarrow> jsval \<Rightarrow> string list" where
  "normalizeQuestionnaireRelays h value =
     (let entries = (case value of JStr s \<Rightarrow> splitRelayInput s | JArr vs \<Rightarrow> string_items vs | _ \<Rightarrow> [])
      in normalizeRelaysRust (filter (host_isRelayUrl h) (map js_trim entries)))"

definition DEFAULT_QUESTIONNAIRE_RELAYS :: "string list" where
  "DEFAULT_QUESTIONNAIRE_RELAYS = normalizeRelaysRust
     [''wss://vm-1734.lnvps.cloud/'', ''wss://relay.nostr.net'', ''wss://nos.lol'',
      ''wss://relay.nostr.info'', ''wss://relay.nos.social'', ''wss://nostr.mom'',
      ''wss://nostr.bitcoiner.social'', ''wss://relay.damus.io'', ''wss://relay.primal.net'']"

definition relaySetKey :: "host \<Rightarrow> string list \<Rightarrow> string" where
  "relaySetKey h relays = js_join [CHR 0x0A] (js_sort (host_localeCompare h) (js_set relays))"

definition questionnaireRelaysMatchDefault :: "host \<Rightarrow> string list \<Rightarrow> bool" where
  "questionnaireRelaysMatchDefault h relays =
     (relaySetKey h (normalizeQuestionnaireRelays h (jstrings relays)) = relaySetKey h DEFAULT_QUESTIONNAIRE_RELAYS)"

definition questionnaireRelaysForMetadata :: "host \<Rightarrow> string list \<Rightarrow> string list option" where
  "questionnaireRelaysForMetadata h relays =
     (let normalized = normalizeQuestionnaireRelays h (jstrings relays) in
      if normalized = [] \<or> questionnaireRelaysMatchDefault h normalized then None else Some normalized)"

definition mergeQuestionnaireRelayHints :: "string list option list \<Rightarrow> string list" where
  "mergeQuestionnaireRelayHints relaySets =
     normalizeRelaysRust (concat (map (\<lambda>r. case r of None \<Rightarrow> [] | Some rs \<Rightarrow> rs) relaySets))"

lemma normalize_trimmed_unique_props:
  "distinct (normalize_trimmed_unique seen vs)
     \<and> set (normalize_trimmed_unique seen vs) = rust_trim ` set vs - {[]} - set seen"
  by (induction seen vs rule: normalize_trimmed_unique.induct) (auto simp: Let_def)

lemma normalizeRelaysRust_set: "set (normalizeRelaysRust vs) = rust_trim ` set vs - {[]}"
  and normalizeRelaysRust_distinct [simp]: "distinct (normalizeRelaysRust vs)"
  using normalize_trimmed_unique_props [of "[]" vs] by (auto simp: normalizeRelaysRust_def)

section \<open>Header, worker and voter groups\<close>

definition isNonEmpty :: "string \<Rightarrow> bool" where
  "isNonEmpty s = (js_trim s \<noteq> [])"

definition hasLocalisedEn :: "localisable_text \<Rightarrow> bool" where
  "hasLocalisedEn t = (case t of Plain s \<Rightarrow> isNonEmpty s | Localised l \<Rightarrow> isNonEmpty (lt_en l))"

definition hasAnyLocalisedText :: "localisable_text \<Rightarrow> bool" where
  "hasAnyLocalisedText t = (case t of Plain s \<Rightarrow> isNonEmpty s
     | Localised l \<Rightarrow> list_ex isNonEmpty
         ([lt_en l] @ (case lt_fr l of Some s \<Rightarrow> [s] | None \<Rightarrow> []) @ (case lt_ta l of Some s \<Rightarrow> [s] | None \<Rightarrow> [])))"

definition header_errors :: "host \<Rightarrow> questionnaire_definition \<Rightarrow> string list" where
  "header_errors h d =
     flag (case d_flowMode d of None \<Rightarrow> False
           | Some m \<Rightarrow> m \<noteq> ''legacy_private_dm'' \<and> m \<noteq> ''public_submission_v1'') ''flow_mode_invalid''
   @ flag (case d_ballotCredentialMode d of None \<Rightarrow> False
           | Some m \<Rightarrow> m \<noteq> ''questionnaire'' \<and> m \<noteq> ''per_question'') ''ballot_credential_mode_invalid''
   @ flag (case d_credentialsPerVoter d of None \<Rightarrow> False
           | Some n \<Rightarrow> n \<noteq> Fin 1 \<and> n \<noteq> Fin 2) ''credentials_per_voter_invalid''
   @ flag (case d_generalInvitePowDifficulty d of None \<Rightarrow> False
           | Some n \<Rightarrow> \<not> num_isInteger n \<or> num_lt n (Fin 0) \<or> num_lt (Fin 24) n)
          ''general_invite_pow_difficulty_invalid''
   @ flag (d_responseMode d \<noteq> ''blind_token'' \<and> d_responseMode d \<noteq> ''legacy_private_envelope'')
          ''response_mode_invalid''
   @ flag (\<not> isNonEmpty (d_questionnaireId d)) ''questionnaire_id_missing''
   @ flag (\<not> hasLocalisedEn (d_title d)) ''title_missing_en''
   @ flag (case d_description d of None \<Rightarrow> False
           | Some t \<Rightarrow> hasAnyLocalisedText t \<and> \<not> hasLocalisedEn t) ''description_missing_en''
   @ flag (\<not> isNonEmpty (d_coordinatorPubkey d)) ''coordinator_pubkey_missing''
   @ flag (\<not> isNonEmpty (d_coordinatorEncryptionPubkey d)) ''coordinator_encryption_pubkey_missing''
   @ flag (case d_questionnaireRelays d of None \<Rightarrow> False
           | Some rs \<Rightarrow> length (normalizeQuestionnaireRelays h (jstrings rs)) \<noteq> length rs)
          ''questionnaire_relays_invalid''"

definition matches_classes :: "(char \<Rightarrow> bool) list \<Rightarrow> string \<Rightarrow> bool" where
  "matches_classes ps s = list_all2 (\<lambda>p c. p c) ps s"

text \<open>The deadline pattern: \<open>YYYY-MM-DDThh:mm:ss\<close>, an optional fraction, then \<open>Z\<close> or an offset.\<close>

definition iso_zone :: "string \<Rightarrow> bool" where
  "iso_zone s = (s = ''Z'' \<or> matches_classes
     [\<lambda>c. c = CHR ''+'' \<or> c = CHR ''-'', is_digit, is_digit, \<lambda>c. c = CHR '':'', is_digit, is_digit] s)"

definition iso_deadline :: "string \<Rightarrow> bool" where
  "iso_deadline s =
     (let d = is_digit; dash = (\<lambda>c. c = CHR ''-''); colon = (\<lambda>c. c = CHR '':'');
          rest = drop 19 s
      in matches_classes [d, d, d, d, dash, d, d, dash, d, d, (\<lambda>c. c = CHR ''T''), d, d, colon, d, d, colon, d, d]
           (take 19 s)
         \<and> (if rest \<noteq> [] \<and> hd rest = CHR ''.''
            then takeWhile d (tl rest) \<noteq> [] \<and> iso_zone (dropWhile d (tl rest))
            else iso_zone rest))"

definition private_worker_errors :: "host \<Rightarrow> questionnaire_definition \<Rightarrow> string list" where
  "private_worker_errors h d = (case d_privateWorker d of None \<Rightarrow> [] | Some worker \<Rightarrow>
     (let normalisedDmRelays = normalizeQuestionnaireRelays h (jstrings (pw_dmRelays worker));
          deadline = host_dateParse h (pw_submissionDeadline worker)
      in flag (\<not> host_isNpub h (js_trim (pw_npub worker))) ''private_worker_npub_invalid''
       @ flag (normalisedDmRelays = [] \<or> length normalisedDmRelays \<noteq> length (pw_dmRelays worker))
              ''private_worker_dm_relays_invalid''
       @ flag (\<not> num_isSafeInteger (pw_batchThreshold worker) \<or> num_le (pw_batchThreshold worker) (Fin 0))
              ''private_worker_batch_threshold_invalid''
       @ flag (\<not> num_isFinite deadline \<or> \<not> iso_deadline (pw_submissionDeadline worker)
               \<or> num_le deadline (num_scale 1000 (d_openAt d))
               \<or> num_le (num_scale 1000 (d_closeAt d)) deadline)
              ''private_worker_submission_deadline_invalid''))"

text \<open>The loop over the voter groups: the errors, and the ids and labels collected.\<close>

fun scan_voter_groups ::
  "voter_group list \<Rightarrow> string list \<Rightarrow> string list \<Rightarrow> string list \<times> string list \<times> string list" where
  "scan_voter_groups [] ids labels = ([], ids, labels)"
| "scan_voter_groups (grp # groups) ids labels =
     (let label = js_trim (vg_label grp) in
      case normaliseQuestionnaireScope (Some (vg_id grp)) of
        None \<Rightarrow> (let (errs, ids', labels') = scan_voter_groups groups ids labels
                  in (''voter_group_invalid'' # errs, ids', labels'))
      | Some id' \<Rightarrow>
          if label = [] then
            (let (errs, ids', labels') = scan_voter_groups groups ids labels
             in (''voter_group_invalid'' # errs, ids', labels'))
          else
            (let labelKey = js_lower label;
                 (errs, ids', labels') = scan_voter_groups groups (id' # ids) (labelKey # labels)
             in (flag (id' \<in> set ids) (''voter_group_id_duplicate:'' @ id')
                 @ flag (labelKey \<in> set labels) (''voter_group_label_duplicate:'' @ labelKey) @ errs,
                 ids', labels')))"

definition voter_group_check :: "questionnaire_definition \<Rightarrow> string list \<times> string list" where
  "voter_group_check d = (case d_voterGroups d of
     None \<Rightarrow> ([], [])
   | Some groups \<Rightarrow>
       if length groups > 100 then ([''voter_groups_invalid''], [])
       else (let (errs, ids, _) = scan_voter_groups groups [] [] in (errs, ids)))"

definition window_errors :: "questionnaire_definition \<Rightarrow> string list" where
  "window_errors d = flag (\<not> num_isFinite (d_openAt d) \<or> \<not> num_isFinite (d_closeAt d)
     \<or> num_le (d_closeAt d) (d_openAt d)) ''invalid_open_close_window''"

section \<open>Questions\<close>

definition question_type :: "question_kind \<Rightarrow> string" where
  "question_type k = (case k of YesNo \<Rightarrow> ''yes_no'' | MultipleChoice _ _ \<Rightarrow> ''multiple_choice''
     | Rank _ _ \<Rightarrow> ''rank'' | FreeText _ _ \<Rightarrow> ''free_text'')"

definition question_options :: "question_kind \<Rightarrow> choice_option list" where
  "question_options k = (case k of MultipleChoice _ os \<Rightarrow> os | Rank os _ \<Rightarrow> os | _ \<Rightarrow> [])"

fun findIndex :: "('a \<Rightarrow> bool) \<Rightarrow> 'a list \<Rightarrow> nat option" where
  "findIndex P [] = None"
| "findIndex P (x # xs) = (if P x then Some 0 else map_option Suc (findIndex P xs))"

definition scope_errors :: "questionnaire_definition \<Rightarrow> string list \<Rightarrow> question \<Rightarrow> string list" where
  "scope_errors d voterGroupIds q =
     flag (case q_requiredScope q of None \<Rightarrow> False | Some s \<Rightarrow> normaliseQuestionnaireScope (Some s) = None)
          (''required_scope_invalid:'' @ q_questionId q)
   @ flag (case q_ballotGroup q of None \<Rightarrow> False | Some s \<Rightarrow> normaliseQuestionnaireScope (Some s) = None)
          (''ballot_group_invalid:'' @ q_questionId q)
   @ flag (case questionRequiredScope q of None \<Rightarrow> False
           | Some s \<Rightarrow> d_voterGroups d \<noteq> None \<and> s \<notin> set voterGroupIds)
          (''required_scope_unknown:'' @ q_questionId q)"

definition slot_errors :: "questionnaire_definition \<Rightarrow> nat \<Rightarrow> question \<Rightarrow> string list" where
  "slot_errors d index q = (if d_ballotCredentialMode d = Some ''per_question'' then
     (let slot = normaliseQuestionBallotSlot q index
      in flag (\<not> isNonEmpty (ns_slotId slot)) (''ballot_slot_id_missing:'' @ q_questionId q)
       @ flag (ns_slotIndex slot \<le> 0) (''ballot_slot_index_invalid:'' @ q_questionId q)
       @ flag (ns_version slot \<le> 0) (''ballot_slot_version_invalid:'' @ q_questionId q)) else [])"

fun option_errors :: "string \<Rightarrow> string list \<Rightarrow> choice_option list \<Rightarrow> string list" where
  "option_errors qid seen [] = []"
| "option_errors qid seen (opt # opts) =
     (if \<not> isNonEmpty (co_optionId opt) then (''option_id_missing:'' @ qid) # option_errors qid seen opts
      else flag (\<not> hasLocalisedEn (co_label opt)) (''option_label_missing_en:'' @ qid @ '':'' @ co_optionId opt)
         @ flag (co_optionId opt \<in> set seen) (''option_id_duplicate:'' @ qid @ '':'' @ co_optionId opt)
         @ option_errors qid (co_optionId opt # seen) opts)"

definition kind_limits_errors :: "question \<Rightarrow> string list" where
  "kind_limits_errors q = (case q_kind q of
     Rank options minimumRanked \<Rightarrow>
       flag (\<not> num_isFinite minimumRanked \<or> \<not> num_isInteger minimumRanked \<or> num_lt minimumRanked (Fin 0)
             \<or> num_lt (num_int (int (length options))) minimumRanked)
            (''rank_minimum_invalid:'' @ q_questionId q)
   | FreeText maxLength encryptResponses \<Rightarrow>
       flag (\<not> num_isFinite maxLength \<or> num_le maxLength (Fin 0))
            (''invalid_free_text_max_length:'' @ q_questionId q)
     @ flag (case encryptResponses of Undefined \<Rightarrow> False | Null \<Rightarrow> True | Present v \<Rightarrow> \<not> is_JBool v)
            (''invalid_free_text_encrypt_responses:'' @ q_questionId q)
   | _ \<Rightarrow> [])"

definition show_if_errors :: "host \<Rightarrow> question list \<Rightarrow> nat \<Rightarrow> question \<Rightarrow> string list" where
  "show_if_errors h questions index q = (case q_showIf q of None \<Rightarrow> [] | Some condition \<Rightarrow>
     (let depId = qc_dependsOnQuestionId condition; tail = q_questionId q @ '':'' @ depId in
      case findIndex (\<lambda>p. q_questionId p = depId) questions of
        None \<Rightarrow> [''show_if_dependency_not_found:'' @ tail]
      | Some depIndex \<Rightarrow>
          if index \<le> depIndex then [''show_if_forward_reference:'' @ tail]
          else (let depKind = q_kind (questions ! depIndex) in
            case qc_requiredAnswer condition of
              None \<Rightarrow> [''show_if_answer_type_mismatch:'' @ tail]
            | Some required \<Rightarrow>
                (let t = ab_answerType required in
                 if (t \<noteq> ''yes_no'' \<and> t \<noteq> ''multiple_choice'') \<or> t \<noteq> question_type depKind
                 then [''show_if_answer_type_mismatch:'' @ tail]
                 else if t = ''yes_no'' then
                   flag (\<not> is_JBool (ab_value required)) (''show_if_invalid_value:'' @ tail)
                 else if \<not> is_JArr (ab_selectedOptionIds required) \<or> array_or_empty (ab_selectedOptionIds required) = []
                 then [''show_if_empty_option_ids:'' @ tail]
                 else concat (map (\<lambda>optId. flag (optId \<notin> JStr ` set (map co_optionId (question_options depKind)))
                        (''show_if_invalid_option_id:'' @ tail @ '':'' @ js_String h optId))
                      (array_or_empty (ab_selectedOptionIds required)))))))"

text \<open>One iteration of the loop over the questions; \<open>seen\<close> holds the ids of the earlier ones.\<close>

definition question_errors ::
  "host \<Rightarrow> questionnaire_definition \<Rightarrow> string list \<Rightarrow> string list \<Rightarrow> nat \<Rightarrow> question \<Rightarrow> string list" where
  "question_errors h d voterGroupIds seen index q =
     (if \<not> isNonEmpty (q_questionId q) then [''question_id_missing'']
      else flag (q_questionId q \<in> set seen) (''question_id_duplicate:'' @ q_questionId q)
         @ flag (\<not> hasLocalisedEn (q_prompt q)) (''prompt_missing_en:'' @ q_questionId q)
         @ scope_errors d voterGroupIds q
         @ slot_errors d index q
         @ (if (case q_kind q of MultipleChoice _ _ \<Rightarrow> True | Rank _ _ \<Rightarrow> True | _ \<Rightarrow> False)
               \<and> length (question_options (q_kind q)) < 2
            then [question_type (q_kind q) @ ''_insufficient_options:'' @ q_questionId q]
            else option_errors (q_questionId q) [] (question_options (q_kind q))
               @ kind_limits_errors q
               @ show_if_errors h (d_questions d) index q))"

fun questions_errors ::
  "host \<Rightarrow> questionnaire_definition \<Rightarrow> string list \<Rightarrow> string list \<Rightarrow> nat \<Rightarrow> question list \<Rightarrow> string list" where
  "questions_errors h d voterGroupIds seen index [] = []"
| "questions_errors h d voterGroupIds seen index (q # qs) =
     question_errors h d voterGroupIds seen index q
     @ questions_errors h d voterGroupIds
         (if isNonEmpty (q_questionId q) then q_questionId q # seen else seen) (Suc index) qs"

definition definition_errors :: "host \<Rightarrow> questionnaire_definition \<Rightarrow> string list" where
  "definition_errors h d =
     header_errors h d @ private_worker_errors h d @ fst (voter_group_check d) @ window_errors d
     @ (if d_questions d = [] then [''questions_missing'']
        else questions_errors h d (snd (voter_group_check d)) [] 0 (d_questions d))"

definition validateQuestionnaireDefinition :: "host \<Rightarrow> questionnaire_definition \<Rightarrow> validation_result" where
  "validateQuestionnaireDefinition h d = validation_of (definition_errors h d)"

text \<open>What the absence of errors says about the questions.\<close>

lemma question_errors_Nil:
  assumes "question_errors h d ids seen i q = []"
  shows "isNonEmpty (q_questionId q)" "q_questionId q \<notin> set seen" "hasLocalisedEn (q_prompt q)"
    "option_errors (q_questionId q) [] (question_options (q_kind q)) = []"
    "kind_limits_errors q = []" "show_if_errors h (d_questions d) i q = []"
    "\<And>m os. q_kind q = MultipleChoice m os \<Longrightarrow> 2 \<le> length os"
    "\<And>os m. q_kind q = Rank os m \<Longrightarrow> 2 \<le> length os"
  using assms
  by (auto simp: question_errors_def question_options_def split: if_splits question_kind.splits)

lemma questions_errors_Nil:
  assumes "questions_errors h d ids seen k qs = []"
  shows "distinct (map q_questionId qs)" (is ?A)
    and "set (map q_questionId qs) \<inter> set seen = {}" (is ?B)
    and "\<forall>i<length qs. \<exists>seen'. question_errors h d ids seen' (k + i) (qs ! i) = []" (is ?C)
proof -
  have "?A \<and> ?B \<and> ?C"
    using assms
  proof (induction h d ids seen k qs rule: questions_errors.induct)
    case (2 h d ids seen k q qs)
    then have q: "question_errors h d ids seen k q = []" by simp
    note q' = question_errors_Nil [OF q]
    from 2 q'(1) have rest: "questions_errors h d ids (q_questionId q # seen) (Suc k) qs = []" by simp
    from "2.IH" rest q'(1) have
      "distinct (map q_questionId qs)" "set (map q_questionId qs) \<inter> set (q_questionId q # seen) = {}"
      and i: "\<forall>i<length qs. \<exists>seen'. question_errors h d ids seen' (Suc k + i) (qs ! i) = []"
      by simp_all
    moreover have "\<exists>seen'. question_errors h d ids seen' (k + i) ((q # qs) ! i) = []"
      if "i < length (q # qs)" for i
      using that q i by (cases i) auto
    ultimately show ?case using q'(2) by auto
  qed simp
  then show ?A ?B ?C by auto
qed

lemma findIndex_Some:
  "findIndex P xs = Some i \<Longrightarrow> i < length xs \<and> P (xs ! i) \<and> (\<forall>j<i. \<not> P (xs ! j))"
  by (induction xs arbitrary: i) (auto split: if_splits simp: less_Suc_eq_0_disj)

lemma findIndex_None: "findIndex P xs = None \<longleftrightarrow> (\<forall>x\<in>set xs. \<not> P x)"
  by (induction xs) auto

lemma show_if_errors_Nil:
  assumes "show_if_errors h qs i q = []" "q_showIf q = Some c"
  shows "\<exists>j<i. j < length qs \<and> q_questionId (qs ! j) = qc_dependsOnQuestionId c"
proof (cases "findIndex (\<lambda>p. q_questionId p = qc_dependsOnQuestionId c) qs")
  case None
  with assms show ?thesis by (simp add: show_if_errors_def Let_def)
next
  case (Some j)
  with assms have "j < i" by (simp add: show_if_errors_def Let_def split: if_splits)
  with findIndex_Some [OF Some] show ?thesis by blast
qed

text \<open>
  Well-ordered questions: distinct ids, and every condition refers to an earlier question.  A valid
  definition is well ordered, and on well-ordered questions every chain ends.
\<close>

definition well_ordered :: "question list \<Rightarrow> bool" where
  "well_ordered qs = (distinct (map q_questionId qs)
     \<and> (\<forall>i<length qs. \<forall>c. q_showIf (qs ! i) = Some c \<longrightarrow>
          (\<exists>j<i. q_questionId (qs ! j) = qc_dependsOnQuestionId c)))"

lemma valid_definition_questions:
  assumes "vr_valid (validateQuestionnaireDefinition h d)"
  shows "d_questions d \<noteq> []"
    and "questions_errors h d (snd (voter_group_check d)) [] 0 (d_questions d) = []"
  using assms
  by (auto simp: validateQuestionnaireDefinition_def validation_of_def definition_errors_def split: if_splits)

lemma valid_definition_question:
  assumes "vr_valid (validateQuestionnaireDefinition h d)" "i < length (d_questions d)"
  shows "\<exists>seen. question_errors h d (snd (voter_group_check d)) seen i (d_questions d ! i) = []"
  using questions_errors_Nil(3) [OF valid_definition_questions(2) [OF assms(1)]] assms(2) by simp

lemma valid_definition_well_ordered:
  assumes "vr_valid (validateQuestionnaireDefinition h d)"
  shows "well_ordered (d_questions d)"
proof -
  have "\<exists>j<i. q_questionId (d_questions d ! j) = qc_dependsOnQuestionId c"
    if "i < length (d_questions d)" "q_showIf (d_questions d ! i) = Some c" for i c
    using valid_definition_question [OF assms that(1)] question_errors_Nil(6) show_if_errors_Nil that(2)
    by blast
  then show ?thesis
    using questions_errors_Nil(1) [OF valid_definition_questions(2) [OF assms]]
    by (simp add: well_ordered_def)
qed

lemma question_map_of_nth:
  assumes "distinct (map q_questionId qs)" "i < length qs"
  shows "obj_get (question_map_of qs) (q_questionId (qs ! i)) = Some (qs ! i)"
  unfolding question_map_of_def from_entries_def
  by (rule obj_get_set_all_in) (use assms in \<open>auto simp: comp_def\<close>)

lemma well_ordered_chain_ends:
  assumes wo: "well_ordered qs"
  shows "i < length qs \<Longrightarrow> chain_ends (question_map_of qs) (q_questionId (qs ! i))"
proof (induction i rule: less_induct)
  case (less i)
  have dist: "distinct (map q_questionId qs)" using wo by (simp add: well_ordered_def)
  note get = question_map_of_nth [OF dist less.prems]
  show ?case
  proof (cases "q_showIf (qs ! i)")
    case None
    then show ?thesis by (intro chain_ends.stop) (simp add: dep_of_def get)
  next
    case (Some c)
    with wo less.prems obtain j where "j < i" "q_questionId (qs ! j) = qc_dependsOnQuestionId c"
      by (auto simp: well_ordered_def)
    with less have "chain_ends (question_map_of qs) (qc_dependsOnQuestionId c)" by force
    then show ?thesis
      by (rule chain_ends.step [rotated]) (simp add: dep_of_def get Some)
  qed
qed

lemma well_ordered_shows:
  assumes "well_ordered qs" "q \<in> set qs"
  shows "shouldShowQuestion q answered (Some (question_map_of qs))
           = Inr (visible (question_map_of qs) answered q)"
proof -
  from assms(2) obtain i where i: "i < length qs" "q = qs ! i" by (auto simp: in_set_conv_nth)
  have dist: "distinct (map q_questionId qs)" using assms(1) by (simp add: well_ordered_def)
  obtain b where "shouldShowQuestion q answered (Some (question_map_of qs)) = Inr b"
    using shouldShowQuestion_returns [OF keyed_by_id_question_map_of
        well_ordered_chain_ends [OF assms(1) i(1)] question_map_of_nth [OF dist i(1)]] i(2) by blast
  with shouldShowQuestion_visible [OF this] show ?thesis by simp
qed

section \<open>Canonical text and defaults\<close>

text \<open>\<open>serialiseTextFields\<close> for one field: the English text stays, other locales move to \<open>translations\<close>.\<close>

definition truthy_string :: "string option \<Rightarrow> bool" where
  "truthy_string s = (case s of None \<Rightarrow> False | Some t \<Rightarrow> t \<noteq> [])"

definition serialise_text_field ::
  "string \<Rightarrow> localisable_text \<times> localised_text obj option \<Rightarrow> localisable_text \<times> localised_text obj option" where
  "serialise_text_field field_name p = (case p of
     (Plain s, translations) \<Rightarrow> (Plain s, translations)
   | (Localised loc, translations) \<Rightarrow>
       (let base = AList.delete field_name (case translations of None \<Rightarrow> [] | Some t \<Rightarrow> t);
            nxt = (if truthy_string (lt_fr loc) \<or> truthy_string (lt_ta loc)
                     then obj_set field_name loc base else base)
        in (Plain (lt_en loc), if nxt = [] then None else Some nxt)))"

definition canonicalise_option :: "choice_option \<Rightarrow> choice_option" where
  "canonicalise_option opt =
     (let (l, t) = serialise_text_field ''label'' (co_label opt, co_translations opt)
      in opt\<lparr>co_label := l, co_translations := t\<rparr>)"

definition canonicalise_question :: "question \<Rightarrow> question" where
  "canonicalise_question q =
     (let (p, t) = serialise_text_field ''prompt'' (q_prompt q, q_translations q)
      in q\<lparr>q_prompt := p, q_translations := t, q_kind := (case q_kind q of
           MultipleChoice m os \<Rightarrow> MultipleChoice m (map canonicalise_option os)
         | Rank os m \<Rightarrow> Rank (map canonicalise_option os) m
         | k \<Rightarrow> k)\<rparr>)"

definition canonicaliseQuestionnaireDefinitionText :: "questionnaire_definition \<Rightarrow> questionnaire_definition" where
  "canonicaliseQuestionnaireDefinitionText d =
     (let (title, t1) = serialise_text_field ''title'' (d_title d, d_translations d);
          (desc, t2) = (case d_description d of None \<Rightarrow> (None, t1)
             | Some x \<Rightarrow> (let (y, t) = serialise_text_field ''description'' (x, t1) in (Some y, t)))
      in d\<lparr>d_title := title, d_description := desc, d_translations := t2,
           d_questions := map canonicalise_question (d_questions d)\<rparr>)"

text \<open>
  \<open>normalizeQuestionnaireDefinition\<close>; its two arguments that may be missing are passed apart from
  the record, whose own fields they replace.
\<close>

definition normalizeQuestionnaireDefinition ::
  "host \<Rightarrow> string option \<Rightarrow> string option \<Rightarrow> questionnaire_definition \<Rightarrow> questionnaire_definition" where
  "normalizeQuestionnaireDefinition h responseMode flowMode input =
     (let mode = (case responseMode of Some m \<Rightarrow> m | None \<Rightarrow> ''legacy_private_envelope'');
          flow = (case flowMode of Some f \<Rightarrow> f
                  | None \<Rightarrow> if mode = ''blind_token'' then ''public_submission_v1'' else ''legacy_private_dm'');
          relays = questionnaireRelaysForMetadata h
                     (case d_questionnaireRelays input of Some rs \<Rightarrow> rs | None \<Rightarrow> [])
      in input\<lparr>d_responseMode := mode, d_flowMode := Some flow,
           d_protocolVersion := Some (case d_protocolVersion input of Some v \<Rightarrow> v | None \<Rightarrow> 1),
           d_questionnaireRelays := relays\<rparr>)"

definition plain_texts :: "questionnaire_definition \<Rightarrow> bool" where
  "plain_texts d = ((\<exists>s. d_title d = Plain s) \<and> (\<forall>t. d_description d = Some t \<longrightarrow> (\<exists>s. t = Plain s))
     \<and> (\<forall>q\<in>set (d_questions d). (\<exists>s. q_prompt q = Plain s)
          \<and> (\<forall>opt\<in>set (question_options (q_kind q)). \<exists>s. co_label opt = Plain s)))"

lemma serialise_text_field_plain: "\<exists>s. fst (serialise_text_field f p) = Plain s"
  by (auto simp: serialise_text_field_def Let_def split: prod.splits localisable_text.splits)

lemma serialise_text_field_Plain [simp]: "serialise_text_field f (Plain s, t) = (Plain s, t)"
  by (simp add: serialise_text_field_def)

lemma canonicalise_option_plain: "\<exists>s. co_label (canonicalise_option opt) = Plain s"
  using serialise_text_field_plain [of "''label''" "(co_label opt, co_translations opt)"]
  by (auto simp: canonicalise_option_def split: prod.splits)

lemma canonicalise_option_id: "co_label opt = Plain s \<Longrightarrow> canonicalise_option opt = opt"
  by (simp add: canonicalise_option_def)

lemma canonicalise_question_plain:
  "\<exists>s. q_prompt (canonicalise_question q) = Plain s"
  "opt \<in> set (question_options (q_kind (canonicalise_question q))) \<Longrightarrow> \<exists>s. co_label opt = Plain s"
  using serialise_text_field_plain [of "''prompt''" "(q_prompt q, q_translations q)"]
  by (auto simp: canonicalise_question_def question_options_def canonicalise_option_plain
      split: prod.splits question_kind.splits)

lemma canonicalise_question_id:
  assumes "q_prompt q = Plain s" "\<forall>opt\<in>set (question_options (q_kind q)). \<exists>s. co_label opt = Plain s"
  shows "canonicalise_question q = q"
proof -
  have "map canonicalise_option os = os" if "os = question_options (q_kind q)" for os
    using assms(2) that canonicalise_option_id by (intro map_idI) blast
  then have "q_kind (canonicalise_question q) = q_kind q"
    using assms(1) by (auto simp: canonicalise_question_def question_options_def split: question_kind.splits)
  with assms(1) show ?thesis
    by (cases q) (auto simp: canonicalise_question_def)
qed

lemma plain_texts_canonicalise: "plain_texts (canonicaliseQuestionnaireDefinitionText d)"
proof -
  have title: "\<exists>s. fst (serialise_text_field f p) = Plain s" for f p
    by (rule serialise_text_field_plain)
  show ?thesis
    using title [of "''title''" "(d_title d, d_translations d)"]
      title [of "''description''"] canonicalise_question_plain
    by (auto simp: plain_texts_def canonicaliseQuestionnaireDefinitionText_def
        split: prod.splits option.splits) (metis fst_conv)+
qed

lemma canonicalise_plain_texts:
  assumes "plain_texts d"
  shows "canonicaliseQuestionnaireDefinitionText d = d"
proof -
  have "map canonicalise_question (d_questions d) = d_questions d"
    using assms canonicalise_question_id by (intro map_idI) (auto simp: plain_texts_def)
  with assms show ?thesis
    by (cases d) (auto simp: plain_texts_def canonicaliseQuestionnaireDefinitionText_def split: option.splits)
qed

end
