(* ===== verification/Json.thy ===== *)
theory Json
  imports Prelude
begin

text \<open>
  The texts that the source hashes and signs: \<open>JSON.stringify\<close> of strings and of arrays of
  strings, \<open>canonicalJsonStringify\<close> (\<open>web/src/questionnaireBlindToken.ts\<close>), \<open>JSON.stringify\<close> of a
  parsed value and \<open>stableJsonStringify\<close> (\<open>web/src/questionnaireDefinitionReference.ts\<close>).  Quoting is
  proved injective, so that a hashed preimage determines the values it was built from, and the
  canonical text is proved independent of the order of an object's properties.
\<close>

section \<open>Quoting\<close>

definition hex_digit :: "nat \<Rightarrow> char" where
  "hex_digit n = char_of (if n < 10 then 48 + n else 87 + n)"

definition json_escape_char :: "char \<Rightarrow> string" where
  "json_escape_char c =
     (if c = CHR 0x22 then [CHR 0x5C, CHR 0x22]
      else if c = CHR 0x5C then [CHR 0x5C, CHR 0x5C]
      else if c = CHR 0x08 then [CHR 0x5C, CHR ''b'']
      else if c = CHR 0x09 then [CHR 0x5C, CHR ''t'']
      else if c = CHR 0x0A then [CHR 0x5C, CHR ''n'']
      else if c = CHR 0x0C then [CHR 0x5C, CHR ''f'']
      else if c = CHR 0x0D then [CHR 0x5C, CHR ''r'']
      else if (of_char c :: nat) < 32
        then [CHR 0x5C, CHR ''u'', CHR ''0'', CHR ''0'', hex_digit (of_char c div 16), hex_digit (of_char c mod 16)]
      else [c])"

definition json_escape :: "string \<Rightarrow> string" where
  "json_escape s = concat (map json_escape_char s)"

definition json_string :: "string \<Rightarrow> string" where
  "json_string s = CHR 0x22 # json_escape s @ [CHR 0x22]"

text \<open>\<open>JSON.stringify\<close> of an array of strings.\<close>

definition json_string_array :: "string list \<Rightarrow> string" where
  "json_string_array ss = ''['' @ js_join '','' (map json_string ss) @ '']''"

lemma hex_digit_inj: "m < 16 \<Longrightarrow> n < 16 \<Longrightarrow> hex_digit m = hex_digit n \<longleftrightarrow> m = n"
  by (auto simp: hex_digit_def split: if_splits)

lemma control_char_inj:
  assumes "(of_char c :: nat) < 32" "(of_char d :: nat) < 32"
    and "hex_digit (of_char c div 16) = hex_digit (of_char d div 16)"
    and "hex_digit (of_char c mod 16) = hex_digit (of_char d mod 16)"
  shows "c = d"
proof -
  have "(of_char c :: nat) div 16 = of_char d div 16" "(of_char c :: nat) mod 16 = of_char d mod 16"
    using assms by (simp_all add: hex_digit_inj)
  then have "(of_char c :: nat) = of_char d"
    by (metis div_mult_mod_eq)
  then show ?thesis by simp
qed

lemma json_escape_char_prefix_free:
  "json_escape_char c @ r = json_escape_char d @ r' \<Longrightarrow> c = d \<and> r = r'"
  by (auto simp: json_escape_char_def dest: control_char_inj split: if_splits)

lemma json_escape_char_not_quote: "json_escape_char c @ r \<noteq> CHR 0x22 # r'"
  by (auto simp: json_escape_char_def)

lemma json_escape_simps [simp]:
  "json_escape [] = []" "json_escape (c # s) = json_escape_char c @ json_escape s"
  by (simp_all add: json_escape_def)

lemma json_escape_decodes:
  "json_escape s @ CHR 0x22 # r = json_escape t @ CHR 0x22 # r' \<Longrightarrow> s = t \<and> r = r'"
proof (induction s arbitrary: t)
  case Nil
  then show ?case by (cases t) (auto dest: sym simp: json_escape_char_not_quote)
next
  case (Cons c s)
  show ?case
  proof (cases t)
    case Nil
    with Cons.prems show ?thesis by (auto simp: json_escape_char_not_quote)
  next
    case (Cons d t')
    with Cons.prems have "json_escape_char c @ (json_escape s @ CHR 0x22 # r)
        = json_escape_char d @ (json_escape t' @ CHR 0x22 # r')" by simp
    then have "c = d" "json_escape s @ CHR 0x22 # r = json_escape t' @ CHR 0x22 # r'"
      using json_escape_char_prefix_free by blast+
    with Cons.IH Cons show ?thesis by simp
  qed
qed

lemma json_string_decodes: "json_string s @ r = json_string t @ r' \<Longrightarrow> s = t \<and> r = r'"
  by (rule json_escape_decodes) (simp add: json_string_def)

lemma json_string_append_eq: "json_string s @ r = json_string t @ r' \<longleftrightarrow> s = t \<and> r = r'"
  using json_string_decodes by blast

lemma json_string_inject [simp]: "json_string s = json_string t \<longleftrightarrow> s = t"
  using json_string_decodes [of s "[]" t "[]"] by auto

lemma json_join_decodes:
  "length ss = length ts \<Longrightarrow> js_join '','' (map json_string ss) @ r = js_join '','' (map json_string ts) @ r'
     \<Longrightarrow> ss = ts \<and> r = r'"
proof (induction ss arbitrary: ts)
  case Nil
  then show ?case by simp
next
  case (Cons s ss)
  then obtain t ts' where ts: "ts = t # ts'" and len: "length ss = length ts'"
    by (cases ts) auto
  show ?case
  proof (cases ss)
    case Nil
    with len ts Cons.prems show ?thesis by (auto dest: json_string_decodes)
  next
    case (Cons u us)
    with len obtain u' us' where ts': "ts' = u' # us'" by (cases ts') auto
    with Cons.prems ts \<open>ss = u # us\<close> have
      "json_string s @ ('','' @ js_join '','' (map json_string ss) @ r)
        = json_string t @ ('','' @ js_join '','' (map json_string ts') @ r')" by simp
    from json_string_decodes [OF this]
    have "s = t" and "js_join '','' (map json_string ss) @ r = js_join '','' (map json_string ts') @ r'"
      by simp_all
    with Cons.IH [OF len] ts show ?thesis by simp
  qed
qed

lemma json_string_array_inject:
  "length ss = length ts \<Longrightarrow> json_string_array ss = json_string_array ts \<longleftrightarrow> ss = ts"
  using json_join_decodes [of ss ts "'']''" "'']''"] by (auto simp: json_string_array_def)

section \<open>Canonical JSON\<close>

text \<open>
  \<open>canonicalJsonStringify\<close>.  \<open>None\<close> is the exception for a number that is not finite (and the
  \<open>TypeError\<close> for \<open>undefined\<close>).  The texts of the property values are computed before the keys
  are sorted, which yields the same result.
\<close>

function canonicalJsonStringify :: "host \<Rightarrow> jsval \<Rightarrow> string option" where
  "canonicalJsonStringify h JUndefined = None"
| "canonicalJsonStringify h JNull = Some ''null''"
| "canonicalJsonStringify h (JBool b) = Some (if b then ''true'' else ''false'')"
| "canonicalJsonStringify h (JNum n) = (if num_isFinite n then Some (string_of_num h n) else None)"
| "canonicalJsonStringify h (JStr s) = Some (json_string s)"
| "canonicalJsonStringify h (JArr vs) =
     map_option (\<lambda>ss. ''['' @ js_join '','' ss @ '']'') (those (map (canonicalJsonStringify h) vs))"
| "canonicalJsonStringify h (JObj es) =
     (let texts = map (\<lambda>e. (fst e, canonicalJsonStringify h (snd e))) es;
          keys = sort (map fst es)
      in map_option (\<lambda>ss. ''{'' @ js_join '','' ss @ ''}'')
           (those (map (\<lambda>key. map_option (\<lambda>v. json_string key @ '':'' @ v)
              (Option.bind (obj_get texts key) (\<lambda>t. t))) keys)))"
  by pat_completeness auto

lemma size_member_JObj: "e \<in> set es \<Longrightarrow> size (snd e) < size (JObj es)"
proof (induction es)
  case (Cons d es)
  then show ?case by (cases d) auto
qed simp

lemma size_member_JArr: "v \<in> set vs \<Longrightarrow> size v < size (JArr vs)"
  by (induction vs) auto

termination canonicalJsonStringify
  by (relation "measure (\<lambda>(h, v). size v)") (auto dest: size_member_JArr size_member_JObj)

lemma map_of_map_snd: "map_of (map (\<lambda>e. (fst e, f (snd e))) es) k = map_option f (map_of es k)"
  by (induction es) auto

text \<open>The order in which an object lists its properties does not show in the canonical text.\<close>

lemma canonicalJsonStringify_order:
  assumes "distinct (map fst es)" "distinct (map fst es')" "set es = set es'"
  shows "canonicalJsonStringify h (JObj es) = canonicalJsonStringify h (JObj es')"
proof -
  have "sort (map fst es) = sort (map fst es')"
    using assms by (intro sorted_distinct_set_unique) (auto simp del: set_map simp add: set_map)
  moreover have "map_of es = map_of es'"
    using assms map_of_eqI [of es es'] map_of_inject_set by metis
  ultimately show ?thesis
    by (simp add: Let_def map_of_map_snd)
qed

section \<open>Plain JSON\<close>

text \<open>
  \<open>JSON.stringify\<close> of any value that \<open>JSON.parse\<close> can yield: an absent property is left out, a
  number that is not finite prints as \<open>null\<close>.
\<close>

function JSON_stringify :: "host \<Rightarrow> jsval \<Rightarrow> string" where
  "JSON_stringify h JUndefined = ''null''"
| "JSON_stringify h JNull = ''null''"
| "JSON_stringify h (JBool b) = (if b then ''true'' else ''false'')"
| "JSON_stringify h (JNum n) = (if num_isFinite n then string_of_num h n else ''null'')"
| "JSON_stringify h (JStr s) = json_string s"
| "JSON_stringify h (JArr vs) = ''['' @ js_join '','' (map (JSON_stringify h) vs) @ '']''"
| "JSON_stringify h (JObj es) =
     (let texts = map (\<lambda>e. (snd e \<noteq> JUndefined, fst e, JSON_stringify h (snd e))) (js_entries es)
      in ''{'' @ js_join '','' (map (\<lambda>(_, key, text). json_string key @ '':'' @ text) (filter fst texts)) @ ''}'')"
  by pat_completeness auto

termination JSON_stringify
  by (relation "measure (\<lambda>(h, v). size v)") (auto dest: size_member_JArr size_member_JObj)

text \<open>
  \<open>stableJsonStringify\<close> (\<open>web/src/questionnaireDefinitionReference.ts\<close>), the text whose hash names a
  definition: as the canonical text, but an absent property is skipped instead of refused.
\<close>

function stableJsonStringify :: "host \<Rightarrow> jsval \<Rightarrow> string option" where
  "stableJsonStringify h JUndefined = Some ''null''"
| "stableJsonStringify h JNull = Some ''null''"
| "stableJsonStringify h (JBool b) = Some (if b then ''true'' else ''false'')"
| "stableJsonStringify h (JNum n) = (if num_isFinite n then Some (string_of_num h n) else None)"
| "stableJsonStringify h (JStr s) = Some (json_string s)"
| "stableJsonStringify h (JArr vs) =
     map_option (\<lambda>ss. ''['' @ js_join '','' ss @ '']'') (those (map (stableJsonStringify h) vs))"
| "stableJsonStringify h (JObj es) =
     (let texts = map (\<lambda>e. (fst e, stableJsonStringify h (snd e))) es;
          keys = sort (map fst (filter (\<lambda>e. snd e \<noteq> JUndefined) es))
      in map_option (\<lambda>ss. ''{'' @ js_join '','' ss @ ''}'')
           (those (map (\<lambda>key. map_option (\<lambda>v. json_string key @ '':'' @ v)
              (Option.bind (obj_get texts key) (\<lambda>t. t))) keys)))"
  by pat_completeness auto

termination stableJsonStringify
  by (relation "measure (\<lambda>(h, v). size v)") (auto dest: size_member_JArr size_member_JObj)

lemma stableJsonStringify_order:
  assumes "distinct (map fst es)" "distinct (map fst es')" "set es = set es'"
  shows "stableJsonStringify h (JObj es) = stableJsonStringify h (JObj es')"
proof -
  have "sort (map fst (filter (\<lambda>e. snd e \<noteq> JUndefined) es))
      = sort (map fst (filter (\<lambda>e. snd e \<noteq> JUndefined) es'))"
    using assms by (intro sorted_distinct_set_unique) (auto simp: distinct_map_filter simp del: set_map simp add: set_map)
  moreover have "map_of es = map_of es'"
    using assms map_of_eqI [of es es'] map_of_inject_set by metis
  ultimately show ?thesis
    by (simp add: Let_def map_of_map_snd)
qed

declare stableJsonStringify.simps(7) [simp del]
declare JSON_stringify.simps(7) [simp del]
declare canonicalJsonStringify.simps(7) [simp del]

end
