(* ===== verification/Pow.thy ===== *)
theory Pow
  imports Json
begin

text \<open>
  The proof of work of a general invite (\<open>web/src/questionnaireGeneralInvitePow.ts\<close>): the hashed
  preimage, the leading-zero test on a hexadecimal digest, the verifier, and the main-thread
  mining loop as a partial function that ends when a nonce exists.  SHA-256 is the field
  \<open>host_sha256\<close>, which yields the digest as hexadecimal text.
\<close>

definition GENERAL_INVITE_POW_MAX_DIFFICULTY :: int where
  "GENERAL_INVITE_POW_MAX_DIFFICULTY = 24"

record pow_proof =
  pp_nonce :: string

record pow_request =
  pw_electionId :: string
  pw_requestId :: string
  pw_invitedNpub :: string
  pw_blindSigningKeyId :: string
  pw_blindedMessage :: string
  pw_clientNonce :: string

definition isGeneralInvitePowDifficulty :: "jsnum \<Rightarrow> bool" where
  "isGeneralInvitePowDifficulty value = (num_isInteger value \<and> num_le (num_int 0) value
     \<and> num_le value (num_int GENERAL_INVITE_POW_MAX_DIFFICULTY))"

definition generalInvitePowPreimage :: "pow_request \<Rightarrow> string \<Rightarrow> string" where
  "generalInvitePowPreimage r nonce = json_string_array
     [''auditable-voting-general-invite-pow:v1'', pw_electionId r, pw_requestId r, pw_invitedNpub r,
      pw_blindSigningKeyId r, pw_blindedMessage r, pw_clientNonce r, nonce]"

text \<open>\<open>Number.parseInt(c, 16)\<close> of one character; \<open>None\<close> is \<open>NaN\<close>.\<close>

definition parse_nibble :: "char \<Rightarrow> nat option" where
  "parse_nibble c = (let n = of_char c :: nat in
     if 48 \<le> n \<and> n \<le> 57 then Some (n - 48)
     else if 97 \<le> n \<and> n \<le> 102 then Some (n - 87)
     else if 65 \<le> n \<and> n \<le> 70 then Some (n - 55) else None)"

definition hasLeadingZeroBits :: "string \<Rightarrow> nat \<Rightarrow> bool" where
  "hasLeadingZeroBits hexDigest difficulty =
     (let fullNibbles = difficulty div 4; remainingBits = difficulty mod 4
      in take fullNibbles hexDigest = replicate fullNibbles CHR ''0''
         \<and> (remainingBits = 0 \<or>
            (case parse_nibble (if fullNibbles < length hexDigest then hexDigest ! fullNibbles else CHR ''f'') of
               None \<Rightarrow> False | Some v \<Rightarrow> v < 2 ^ (4 - remainingBits))))"

text \<open>\<open>/^(0|[1-9][0-9]*)$/\<close>\<close>

definition decimal_nonce :: "string \<Rightarrow> bool" where
  "decimal_nonce s = (s = ''0'' \<or> (s \<noteq> [] \<and> hd s \<noteq> CHR ''0'' \<and> list_all is_digit s))"

definition verifyGeneralInvitePow :: "host \<Rightarrow> pow_request \<Rightarrow> jsnum \<Rightarrow> pow_proof option \<Rightarrow> bool" where
  "verifyGeneralInvitePow h r difficulty proof =
     (if \<not> isGeneralInvitePowDifficulty difficulty \<or> difficulty = num_int 0 then difficulty = num_int 0
      else case proof of
        None \<Rightarrow> False
      | Some p \<Rightarrow> if \<not> decimal_nonce (pp_nonce p) then False
          else hasLeadingZeroBits (host_sha256 h (generalInvitePowPreimage r (pp_nonce p)))
                 (nat (floor_at_least 0 difficulty)))"

text \<open>
  The main-thread loop of \<open>mineGeneralInvitePow\<close>: \<open>candidate = 0, 1, 2, ...\<close> until one
  verifies.  Progress reports and yields to the event loop are left out.  \<open>Inl\<close> is the thrown
  error; \<open>None\<close> is a loop that never ends.
\<close>

partial_function (option) mine_from :: "host \<Rightarrow> pow_request \<Rightarrow> jsnum \<Rightarrow> nat \<Rightarrow> pow_proof option" where
  "mine_from h r difficulty candidate =
     (let proof = \<lparr>pp_nonce = string_of_nat candidate\<rparr>
      in if verifyGeneralInvitePow h r difficulty (Some proof) then Some proof
         else mine_from h r difficulty (Suc candidate))"

definition mineGeneralInvitePow :: "host \<Rightarrow> pow_request \<Rightarrow> jsnum \<Rightarrow> (string + pow_proof) option" where
  "mineGeneralInvitePow h r difficulty =
     (if \<not> isGeneralInvitePowDifficulty difficulty
      then Some (Inl ''PoW difficulty must be an integer from 0 to 24.'')
      else map_option Inr (mine_from h r difficulty 0))"

section \<open>Facts\<close>

fun hex_value :: "string \<Rightarrow> nat" where
  "hex_value [] = 0"
| "hex_value (c # s) = (case parse_nibble c of Some v \<Rightarrow> v | None \<Rightarrow> 0) * 16 ^ length s + hex_value s"

definition is_hex :: "string \<Rightarrow> bool" where
  "is_hex s = list_all (\<lambda>c. parse_nibble c \<noteq> None) s"

lemma parse_nibble_less: "parse_nibble c = Some v \<Longrightarrow> v < 16"
  by (auto simp: parse_nibble_def Let_def split: if_splits)

lemma parse_nibble_zero: "parse_nibble c = Some 0 \<longleftrightarrow> c = CHR ''0''"
proof
  assume "parse_nibble c = Some 0"
  then have "(of_char c :: nat) = 48"
    by (auto simp: parse_nibble_def Let_def split: if_splits)
  then have "(of_char c :: nat) = of_char (CHR ''0'')" by simp
  then show "c = CHR ''0''" by (simp only: of_char_eq_iff)
qed (simp add: parse_nibble_def)

lemma hex_value_less: "hex_value s < 16 ^ length s"
proof (induction s)
  case (Cons c s)
  obtain v where v: "(case parse_nibble c of Some v \<Rightarrow> v | None \<Rightarrow> 0) = v" "v < 16"
    using parse_nibble_less by (cases "parse_nibble c") auto
  then have "v * 16 ^ length s + hex_value s < Suc v * 16 ^ length s" using Cons by simp
  also have "\<dots> \<le> 16 * 16 ^ length s" using v(2) by (intro mult_right_mono) auto
  finally show ?case using v(1) by simp
qed simp

lemma hasLeadingZeroBits_Cons_nibble:
  "hasLeadingZeroBits (c # s) (d + 4) \<longleftrightarrow> c = CHR ''0'' \<and> hasLeadingZeroBits s d"
  by (auto simp: hasLeadingZeroBits_def Let_def)

lemma hasLeadingZeroBits_Cons_bits:
  "d < 4 \<Longrightarrow> parse_nibble c = Some v \<Longrightarrow> hasLeadingZeroBits (c # s) d \<longleftrightarrow> v < 2 ^ (4 - d)"
  using parse_nibble_less [of c v] by (auto simp: hasLeadingZeroBits_def Let_def)

lemma leading_bits_step:
  assumes "x < (16::nat) ^ n" "d < 4"
  shows "(v * 16 ^ n + x) * 2 ^ d < 16 * 16 ^ n \<longleftrightarrow> v < 2 ^ (4 - d)"
proof -
  have split: "(16::nat) = 2 ^ (4 - d) * 2 ^ d"
    using assms(2) by (simp flip: power_add)
  have "(v * 16 ^ n + x) * 2 ^ d < 16 * 16 ^ n \<longleftrightarrow> (v * 16 ^ n + x) * 2 ^ d < (2 ^ (4 - d) * 16 ^ n) * 2 ^ d"
    by (subst split) (simp add: ac_simps)
  also have "\<dots> \<longleftrightarrow> v * 16 ^ n + x < 2 ^ (4 - d) * 16 ^ n" by simp
  also have "\<dots> \<longleftrightarrow> v < 2 ^ (4 - d)"
  proof
    assume "v < 2 ^ (4 - d)"
    then have "Suc v * 16 ^ n \<le> 2 ^ (4 - d) * 16 ^ n" by (intro mult_right_mono) auto
    then show "v * 16 ^ n + x < 2 ^ (4 - d) * 16 ^ n" using assms(1) by simp
  next
    assume "v * 16 ^ n + x < 2 ^ (4 - d) * 16 ^ n"
    then have "v * 16 ^ n < 2 ^ (4 - d) * 16 ^ n" by (rule le_less_trans [rotated]) simp
    then show "v < 2 ^ (4 - d)" by simp
  qed
  finally show ?thesis .
qed

text \<open>
  The test on the hexadecimal text is the numeric one: the digest, read as a number of
  \<open>4 * length\<close> bits, lies below \<open>2 ^ (4 * length - difficulty)\<close>.
\<close>

lemma hasLeadingZeroBits_value:
  "is_hex s \<Longrightarrow> d \<le> 4 * length s \<Longrightarrow> hasLeadingZeroBits s d \<longleftrightarrow> hex_value s * 2 ^ d < 16 ^ length s"
proof (induction s arbitrary: d)
  case Nil
  then show ?case by (simp add: hasLeadingZeroBits_def)
next
  case (Cons c s)
  then obtain v where v: "parse_nibble c = Some v" by (auto simp: is_hex_def)
  show ?case
  proof (cases "d < 4")
    case True
    with v leading_bits_step [OF hex_value_less True] show ?thesis
      by (simp add: hasLeadingZeroBits_Cons_bits)
  next
    case False
    then obtain e where d: "d = e + 4" using le_Suc_ex [of 4 d] by (auto simp: add.commute)
    have IH: "hasLeadingZeroBits s e \<longleftrightarrow> hex_value s * 2 ^ e < 16 ^ length s"
      using Cons d by (auto simp: is_hex_def)
    have "(v * 16 ^ length s + hex_value s) * 2 ^ d < 16 * 16 ^ length s
        \<longleftrightarrow> v = 0 \<and> hex_value s * 2 ^ e < 16 ^ length s"
    proof (cases "v = 0")
      case False
      then have "(1::nat) \<le> v * 2 ^ e" by simp
      then have "16 * 16 ^ length s \<le> v * 2 ^ e * (16 * 16 ^ length s)" by simp
      also have "\<dots> \<le> (v * 16 ^ length s + hex_value s) * 2 ^ d"
        by (simp add: d power_add algebra_simps)
      finally show ?thesis using False by simp
    qed (simp add: d power_add)
    moreover have "c = CHR ''0'' \<longleftrightarrow> v = 0"
      using v parse_nibble_zero [of c] by auto
    ultimately show ?thesis
      using v IH unfolding d hasLeadingZeroBits_Cons_nibble by simp
  qed
qed

text \<open>The loop returns the least nonce that verifies, as soon as one exists.\<close>

lemma mine_from_finds:
  assumes "verifyGeneralInvitePow h r d (Some \<lparr>pp_nonce = string_of_nat (k + n)\<rparr>)"
    and "\<forall>i<n. \<not> verifyGeneralInvitePow h r d (Some \<lparr>pp_nonce = string_of_nat (k + i)\<rparr>)"
  shows "mine_from h r d k = Some \<lparr>pp_nonce = string_of_nat (k + n)\<rparr>"
  using assms
proof (induction n arbitrary: k)
  case 0
  then show ?case by (subst mine_from.simps) simp
next
  case (Suc n)
  from Suc.prems(2) have "\<not> verifyGeneralInvitePow h r d (Some \<lparr>pp_nonce = string_of_nat k\<rparr>)"
    by (auto dest: spec [of _ 0])
  moreover from Suc.prems(2) have
    "\<forall>i<n. \<not> verifyGeneralInvitePow h r d (Some \<lparr>pp_nonce = string_of_nat (Suc k + i)\<rparr>)"
    by (auto dest: spec [of _ "Suc _"])
  ultimately show ?case
    using Suc.IH [of "Suc k"] Suc.prems(1) by (subst mine_from.simps) simp
qed

lemma mine_from_sound: "mine_from h r d k = Some p \<Longrightarrow> verifyGeneralInvitePow h r d (Some p)"
  by (erule mine_from.raw_induct [where P = "\<lambda>h r d k p. verifyGeneralInvitePow h r d (Some p)", rotated])
     (auto simp: Let_def split: if_splits)

lemma generalInvitePowPreimage_inject:
  "generalInvitePowPreimage r n = generalInvitePowPreimage r' n' \<longleftrightarrow> r = r' \<and> n = n'"
  by (cases r; cases r') (auto simp: generalInvitePowPreimage_def json_string_array_inject)

end
