(* ===== verification/Paper_Ballot.thy ===== *)
theory Paper_Ballot
  imports Json
begin

text \<open>
  Invite codes (\<open>web/src/questionnaireInviteCode.ts\<close>) and paper-ballot admissions
  (\<open>web/src/paperBallotAdmission.ts\<close>): the registry and its sanitiser, the printed codes, and the
  redemption of an admission.  The content of \<open>localStorage\<close> is the parsed registry, or \<open>None\<close>
  when the item is missing or does not parse.  The random source is a stream of byte lists.
\<close>

section \<open>Invite codes\<close>

definition string_or_empty :: "string option \<Rightarrow> string" where
  "string_or_empty v = (case v of Some s \<Rightarrow> s | None \<Rightarrow> [])"

definition normaliseQuestionnaireInviteCode :: "string option \<Rightarrow> string" where
  "normaliseQuestionnaireInviteCode code = js_lower (js_trim (string_or_empty code))"

definition isQuestionnaireInviteCodeHash :: "string option \<Rightarrow> bool" where
  "isQuestionnaireInviteCodeHash value = is_hex64 (js_lower (js_trim (string_or_empty value)))"

definition hashQuestionnaireInviteCode :: "host \<Rightarrow> string \<Rightarrow> string" where
  "hashQuestionnaireInviteCode h code =
     (let normalised = normaliseQuestionnaireInviteCode (Some code)
      in if normalised = [] then [] else host_sha256 h normalised)"

definition hashQuestionnairePrivateInviteClaim :: "host \<Rightarrow> string \<Rightarrow> string \<Rightarrow> string" where
  "hashQuestionnairePrivateInviteClaim h code npub_in =
     (let codeHash = js_lower (js_trim code); npub = js_trim npub_in
      in if \<not> isQuestionnaireInviteCodeHash (Some codeHash) \<or> npub = [] then []
         else host_sha256 h (''questionnaire-private-invite-claim:v1:'' @ codeHash @ '':'' @ npub))"

section \<open>Admission entries\<close>

datatype admission_state = Available | Redeemed | Revoked

text \<open>
  An entry at its declared type, with the names of the further properties it carries.
\<close>

record admission_entry =
  pa_electionId :: string
  pa_registryKey :: string
  pa_expiresAt :: string
  pa_state :: admission_state
  pa_redeemedAt :: "string option"
  pa_redeemedRequestId :: "string option"
  pa_redeemedIssuanceId :: "string option"
  pa_redeemedNpub :: "string option"
  pa_further :: "string list"

type_synonym admission_registry = "admission_entry obj"

definition isPaperBallotAdmissionEntry :: "host \<Rightarrow> admission_entry \<Rightarrow> bool" where
  "isPaperBallotAdmissionEntry h entry =
     (is_hex64 (pa_registryKey entry)
      \<and> num_isFinite (host_dateParse h (pa_expiresAt entry))
      \<and> ''masterlistNumber'' \<notin> set (pa_further entry)
      \<and> ''masterlistKey'' \<notin> set (pa_further entry)
      \<and> ''codeHash'' \<notin> set (pa_further entry))"

definition truthy :: "string option \<Rightarrow> bool" where
  "truthy v = (v \<noteq> None \<and> v \<noteq> Some [])"

text \<open>The properties the sanitiser keeps.\<close>

definition admission_fields :: "admission_entry \<Rightarrow> admission_entry" where
  "admission_fields entry = \<lparr>pa_electionId = pa_electionId entry, pa_registryKey = pa_registryKey entry,
     pa_expiresAt = pa_expiresAt entry, pa_state = pa_state entry, pa_redeemedAt = pa_redeemedAt entry,
     pa_redeemedRequestId = pa_redeemedRequestId entry, pa_redeemedIssuanceId = pa_redeemedIssuanceId entry,
     pa_redeemedNpub = (if pa_state entry = Redeemed \<and> truthy (pa_redeemedNpub entry)
                        then pa_redeemedNpub entry else None),
     pa_further = []\<rparr>"

definition sanitisePaperBallotAdmissions :: "host \<Rightarrow> admission_registry option \<Rightarrow> admission_registry" where
  "sanitisePaperBallotAdmissions h entries = from_entries
     (map (\<lambda>(key, entry). (key, admission_fields entry))
       (filter (\<lambda>(registryKey, entry). is_hex64 registryKey \<and> isPaperBallotAdmissionEntry h entry
                   \<and> pa_registryKey entry = registryKey)
         (js_entries (case entries of Some es \<Rightarrow> es | None \<Rightarrow> []))))"

section \<open>The stored registry\<close>

text \<open>
  Reading sanitises, and writes the sanitised registry back when an item is stored; the new content
  of the storage is returned with the registry.
\<close>

definition readPaperBallotAdmissionRegistry ::
  "host \<Rightarrow> admission_registry option \<Rightarrow> admission_registry \<times> admission_registry option" where
  "readPaperBallotAdmissionRegistry h stored =
     (let registry = sanitisePaperBallotAdmissions h stored
      in (registry, if stored = None then None else Some registry))"

definition savePaperBallotAdmission ::
  "host \<Rightarrow> admission_entry \<Rightarrow> admission_registry option \<Rightarrow> admission_registry option" where
  "savePaperBallotAdmission h entry stored =
     (let electionId = js_trim (pa_electionId entry);
          registryKey = js_lower (js_trim (pa_registryKey entry))
      in if electionId = [] \<or> \<not> isPaperBallotAdmissionEntry h entry then stored
         else Some (obj_set registryKey
                (admission_fields (entry\<lparr>pa_electionId := electionId, pa_registryKey := registryKey\<rparr>))
                (fst (readPaperBallotAdmissionRegistry h stored))))"

definition loadPaperBallotAdmission ::
  "host \<Rightarrow> string \<Rightarrow> admission_registry option \<Rightarrow> admission_entry option" where
  "loadPaperBallotAdmission h key stored =
     (let registryKey = js_lower (js_trim key)
      in if \<not> is_hex64 registryKey then None
         else obj_get (fst (readPaperBallotAdmissionRegistry h stored)) registryKey)"

section \<open>Printed codes\<close>

text \<open>
  \<open>toUpperCase\<close> on the code units 0 to 255.  Three of them have an upper case outside that range
  or of two letters (0xB5, 0xDF, 0xFF) and are left as they are.
\<close>

definition js_upper_char :: "char \<Rightarrow> char" where
  "js_upper_char c = (let n = of_char c :: nat in
     if (97 \<le> n \<and> n \<le> 122) \<or> (224 \<le> n \<and> n \<le> 254 \<and> n \<noteq> 247) then char_of (n - 32) else c)"

definition js_upper :: "string \<Rightarrow> string" where
  "js_upper s = map js_upper_char s"

definition PAPER_BALLOT_ALPHABET :: string where
  "PAPER_BALLOT_ALPHABET = ''0123456789ABCDEFGHJKMNPQRSTVWXYZ''"

definition paper_ballot_code_pattern :: "string \<Rightarrow> bool" where
  "paper_ballot_code_pattern s = (length s = 10 \<and> list_all (\<lambda>c. c \<in> set PAPER_BALLOT_ALPHABET) s)"

definition unambiguous_char :: "char \<Rightarrow> char" where
  "unambiguous_char c = (if c = CHR ''I'' \<or> c = CHR ''L'' then CHR ''1'' else if c = CHR ''O'' then CHR ''0'' else c)"

definition normalisePaperBallotCode :: "string option \<Rightarrow> string" where
  "normalisePaperBallotCode code = map unambiguous_char (js_upper (js_trim (string_or_empty code)))"

definition normalisePaperBallotMasterlistNumber :: "string option \<Rightarrow> string" where
  "normalisePaperBallotMasterlistNumber n = js_upper (js_trim (string_or_empty n))"

text \<open>
  Ten random bytes, each reduced modulo the 32 letters of the alphabet; bytes that the source of
  randomness leaves out stay zero.
\<close>

definition createPaperBallotCode :: "nat list \<Rightarrow> string" where
  "createPaperBallotCode bytes = map (\<lambda>i. PAPER_BALLOT_ALPHABET !
     ((if i < length bytes then bytes ! i mod 256 else 0) mod 32)) [0..<10]"

definition hashPaperBallotAdmissionKey :: "host \<Rightarrow> string \<Rightarrow> string \<Rightarrow> string \<Rightarrow> string" where
  "hashPaperBallotAdmissionKey h election masterlist given =
     (let electionId = js_trim election;
          masterlistNumber = normalisePaperBallotMasterlistNumber (Some masterlist);
          code = normalisePaperBallotCode (Some given)
      in if electionId = [] \<or> masterlistNumber = [] \<or> \<not> paper_ballot_code_pattern code then []
         else hashQuestionnaireInviteCode h
           (''paper-ballot-admission:v1:'' @ json_string_array [electionId, masterlistNumber, code]))"

text \<open>
  \<open>createPaperBallotAdmissionSheet\<close>: one code per master-list number, drawn again while it was
  used before.  \<open>rnd i\<close> is the \<open>i\<close>-th draw; the result is \<open>None\<close> when the draws never yield a
  fresh code.
\<close>

partial_function (option) draw_fresh :: "(nat \<Rightarrow> nat list) \<Rightarrow> string list \<Rightarrow> nat \<Rightarrow> (string \<times> nat) option" where
  "draw_fresh rnd codes i =
     (let code = createPaperBallotCode (rnd i)
      in if code \<in> set codes then draw_fresh rnd codes (Suc i) else Some (code, Suc i))"

record printable_admission =
  pr_masterlistNumber :: string
  pr_code :: string
  pr_admission :: admission_entry

fun build_sheet :: "host \<Rightarrow> (nat \<Rightarrow> nat list) \<Rightarrow> string \<Rightarrow> string \<Rightarrow> string list \<Rightarrow> nat \<Rightarrow> string list
    \<Rightarrow> printable_admission list option" where
  "build_sheet h rnd electionId expiresAt codes i [] = Some []"
| "build_sheet h rnd electionId expiresAt codes i (masterlistNumber # rest) =
     (case draw_fresh rnd codes i of None \<Rightarrow> None
      | Some (code, i') \<Rightarrow>
         map_option (Cons \<lparr>pr_masterlistNumber = masterlistNumber, pr_code = code,
             pr_admission = \<lparr>pa_electionId = electionId,
                pa_registryKey = hashPaperBallotAdmissionKey h electionId masterlistNumber code,
                pa_expiresAt = expiresAt, pa_state = Available, pa_redeemedAt = None,
                pa_redeemedRequestId = None, pa_redeemedIssuanceId = None, pa_redeemedNpub = None,
                pa_further = []\<rparr>\<rparr>)
           (build_sheet h rnd electionId expiresAt (code # codes) i' rest))"

definition createPaperBallotAdmissionSheet ::
  "host \<Rightarrow> jsnum \<Rightarrow> (nat \<Rightarrow> nat list) \<Rightarrow> string \<Rightarrow> string list \<Rightarrow> string \<Rightarrow> printable_admission list option" where
  "createPaperBallotAdmissionSheet h now rnd election masterlist expiry =
     (let electionId = js_trim election;
          expiresAt = js_trim expiry;
          expiresAtMs = host_dateParse h expiresAt
      in if electionId = [] \<or> \<not> num_isFinite expiresAtMs \<or> num_le expiresAtMs now then Some []
         else build_sheet h rnd electionId expiresAt [] 0
           (js_set (filter (\<lambda>n. n \<noteq> []) (map (\<lambda>n. normalisePaperBallotMasterlistNumber (Some n)) masterlist))))"

section \<open>Redemption\<close>

datatype admission_refusal = Unavailable | Mismatch | Expired

definition validatePaperBallotAdmission ::
  "host \<Rightarrow> admission_entry option \<Rightarrow> string \<Rightarrow> string \<Rightarrow> string \<Rightarrow> admission_refusal + unit" where
  "validatePaperBallotAdmission h entry electionId registryKey now = (case entry of
     None \<Rightarrow> Inl Unavailable
   | Some e \<Rightarrow>
       if pa_state e \<noteq> Available then Inl Unavailable
       else if pa_electionId e \<noteq> electionId \<or> pa_registryKey e \<noteq> js_lower (js_trim registryKey) then Inl Mismatch
       else if \<not> num_isFinite (host_dateParse h (pa_expiresAt e)) \<or> \<not> num_isFinite (host_dateParse h now)
               \<or> num_le (host_dateParse h (pa_expiresAt e)) (host_dateParse h now) then Inl Expired
       else Inr ())"

text \<open>A redemption yields whether it replays an earlier one, and the entry after it.\<close>

definition redeemPaperBallotAdmission ::
  "host \<Rightarrow> admission_entry option \<Rightarrow> string \<Rightarrow> string \<Rightarrow> string \<Rightarrow> string \<Rightarrow> string
     \<Rightarrow> admission_refusal + (bool \<times> admission_entry)" where
  "redeemPaperBallotAdmission h entry electionId registryKey requestId invitedNpub now = (case entry of
     None \<Rightarrow> Inl Unavailable
   | Some e \<Rightarrow>
       if pa_state e = Redeemed \<and> pa_redeemedNpub e = Some invitedNpub \<and> invitedNpub \<noteq> []
          \<and> pa_electionId e = electionId \<and> pa_registryKey e = js_lower (js_trim registryKey)
       then Inr (True, e)
       else case validatePaperBallotAdmission h (Some e) electionId registryKey now of
          Inl reason \<Rightarrow> Inl reason
        | Inr _ \<Rightarrow> Inr (False, e\<lparr>pa_state := Redeemed, pa_redeemedAt := Some now,
                        pa_redeemedRequestId := Some requestId, pa_redeemedNpub := Some invitedNpub\<rparr>))"

section \<open>Facts\<close>

lemma admission_fields_idem [simp]: "admission_fields (admission_fields e) = admission_fields e"
  by (auto simp: admission_fields_def)

lemma admission_fields_valid:
  "isPaperBallotAdmissionEntry h e \<Longrightarrow> isPaperBallotAdmissionEntry h (admission_fields e)"
  "pa_registryKey (admission_fields e) = pa_registryKey e"
  by (auto simp: isPaperBallotAdmissionEntry_def admission_fields_def)

text \<open>An admission the registry may hold under \<open>key\<close>.\<close>

definition admissible :: "host \<Rightarrow> string \<Rightarrow> admission_entry \<Rightarrow> bool" where
  "admissible h key e = (is_hex64 key \<and> isPaperBallotAdmissionEntry h e \<and> pa_registryKey e = key)"

lemma admissible_fields: "admissible h k e \<Longrightarrow> admissible h k (admission_fields e)"
  by (simp add: admissible_def admission_fields_valid)

lemma sanitisePaperBallotAdmissions_get:
  assumes "distinct (map fst es)"
  shows "obj_get (sanitisePaperBallotAdmissions h (Some es)) k =
     (case obj_get es k of Some e \<Rightarrow> if admissible h k e then Some (admission_fields e) else None
      | None \<Rightarrow> None)"
proof -
  let ?kept = "map (\<lambda>(key, entry). (key, admission_fields entry))
     (filter (\<lambda>(key, entry). admissible h key entry) (js_entries es))"
  have san: "sanitisePaperBallotAdmissions h (Some es) = from_entries ?kept"
    by (simp add: sanitisePaperBallotAdmissions_def admissible_def)
  have fsts: "map fst ?kept = map fst (filter (\<lambda>(key, entry). admissible h key entry) (js_entries es))"
    by (simp add: case_prod_beta comp_def)
  have dk: "distinct (map fst ?kept)"
    using distinct_js_entries [OF assms] unfolding fsts by (rule distinct_map_filter)
  have mem: "(k, e) \<in> set es \<longleftrightarrow> obj_get es k = Some e" for k e
    using assms by simp
  show ?thesis
  proof (cases "\<exists>e. obj_get es k = Some e \<and> admissible h k e")
    case True
    then obtain e where e: "obj_get es k = Some e" "admissible h k e" by blast
    then have "(k, admission_fields e) \<in> set ?kept"
      by (auto simp: mem intro!: image_eqI [of _ _ "(k, e)"])
    then have "obj_get (from_entries ?kept) k = Some (admission_fields e)"
      unfolding from_entries_def by (rule obj_get_set_all_in [OF dk])
    with e san show ?thesis by simp
  next
    case False
    then have "k \<notin> fst ` set ?kept" by (auto simp: mem)
    then have "obj_get (from_entries ?kept) k = None"
      unfolding from_entries_def by (simp add: obj_get_set_all_notin)
    with False san show ?thesis by (auto split: option.splits)
  qed
qed

lemma distinct_sanitisePaperBallotAdmissions [simp]:
  "distinct (map fst (sanitisePaperBallotAdmissions h es))"
  by (simp add: sanitisePaperBallotAdmissions_def)

lemma sanitisePaperBallotAdmissions_idem:
  assumes "distinct (map fst es)"
  shows "obj_get (sanitisePaperBallotAdmissions h (Some (sanitisePaperBallotAdmissions h (Some es))))
       = obj_get (sanitisePaperBallotAdmissions h (Some es))"
proof
  fix k
  show "obj_get (sanitisePaperBallotAdmissions h (Some (sanitisePaperBallotAdmissions h (Some es)))) k
       = obj_get (sanitisePaperBallotAdmissions h (Some es)) k"
    using assms by (cases "obj_get es k") (simp_all add: sanitisePaperBallotAdmissions_get admissible_fields)
qed

lemma alphabet_facts:
  "c \<in> set PAPER_BALLOT_ALPHABET \<Longrightarrow> unambiguous_char (js_upper_char c) = c \<and> \<not> js_ws c"
  by (auto simp: PAPER_BALLOT_ALPHABET_def unambiguous_char_def js_upper_char_def js_ws_def)

lemma js_trim_no_ws: "\<forall>c\<in>set s. \<not> js_ws c \<Longrightarrow> js_trim s = s"
proof -
  have drop: "dropWhile js_ws t = t" if "\<forall>c\<in>set t. \<not> js_ws c" for t
    using that by (cases t) auto
  assume "\<forall>c\<in>set s. \<not> js_ws c"
  then show ?thesis by (simp add: js_trim_def drop)
qed

lemma normalisePaperBallotCode_fixed:
  assumes "paper_ballot_code_pattern s"
  shows "normalisePaperBallotCode (Some s) = s"
proof -
  have "\<forall>c\<in>set s. unambiguous_char (js_upper_char c) = c \<and> \<not> js_ws c"
    using assms alphabet_facts by (auto simp: paper_ballot_code_pattern_def list_all_iff)
  then show ?thesis
    by (simp add: normalisePaperBallotCode_def string_or_empty_def js_trim_no_ws js_upper_def map_idI)
qed

lemma createPaperBallotCode_pattern: "paper_ballot_code_pattern (createPaperBallotCode bytes)"
proof -
  have "length PAPER_BALLOT_ALPHABET = 32" by code_simp
  then show ?thesis
    by (auto simp: paper_ballot_code_pattern_def createPaperBallotCode_def list_all_iff intro!: nth_mem)
qed

lemma draw_fresh_fresh:
  "draw_fresh rnd codes i = Some r \<Longrightarrow> fst r \<notin> set codes \<and> paper_ballot_code_pattern (fst r)"
  by (erule draw_fresh.raw_induct
        [where P = "\<lambda>rnd codes i r. fst r \<notin> set codes \<and> paper_ballot_code_pattern (fst r)", rotated])
     (auto simp: Let_def createPaperBallotCode_pattern split: if_splits)

lemma build_sheet_codes:
  "build_sheet h rnd el ex codes i ns = Some sheet \<Longrightarrow>
     distinct (map pr_code sheet) \<and> set (map pr_code sheet) \<inter> set codes = {}
     \<and> map pr_masterlistNumber sheet = ns \<and> (\<forall>p\<in>set sheet. paper_ballot_code_pattern (pr_code p))"
proof (induction h rnd el ex codes i ns arbitrary: sheet rule: build_sheet.induct)
  case (2 h rnd el ex codes i n ns)
  from "2.prems" obtain code j rest where d: "draw_fresh rnd codes i = Some (code, j)"
    and rest: "build_sheet h rnd el ex (code # codes) j ns = Some rest"
    and sheet: "pr_code (hd sheet) = code" "pr_masterlistNumber (hd sheet) = n" "sheet = hd sheet # rest"
    by (auto split: option.splits)
  have IH: "distinct (map pr_code rest) \<and> set (map pr_code rest) \<inter> set (code # codes) = {}
     \<and> map pr_masterlistNumber rest = ns \<and> (\<forall>p\<in>set rest. paper_ballot_code_pattern (pr_code p))"
    by (rule "2.IH" [OF d refl rest])
  have "code \<notin> set codes" "paper_ballot_code_pattern code"
    using draw_fresh_fresh [OF d] by auto
  with IH sheet(1,2) show ?case by (subst (1 2 3 4) sheet(3)) auto
qed simp

lemma build_sheet_total:
  assumes "\<And>codes i. length codes < bound \<Longrightarrow> draw_fresh rnd codes i \<noteq> None"
  shows "length codes + length ns \<le> bound \<Longrightarrow> build_sheet h rnd el ex codes i ns \<noteq> None"
proof (induction ns arbitrary: codes i)
  case (Cons n ns)
  then obtain code j where "draw_fresh rnd codes i = Some (code, j)"
    using assms [of codes i] by fastforce
  with Cons.IH [of "code # codes" j] Cons.prems show ?case by (auto split: option.splits)
qed simp

lemma redeem_ok_iff:
  "redeemPaperBallotAdmission h (Some e) el key req npub now = Inr (False, e') \<Longrightarrow>
     pa_state e = Available \<and> pa_state e' = Redeemed \<and> pa_redeemedNpub e' = Some npub
     \<and> pa_electionId e' = el \<and> pa_registryKey e' = js_lower (js_trim key)"
  by (auto simp: redeemPaperBallotAdmission_def validatePaperBallotAdmission_def split: if_splits sum.splits)

lemma redeemed_only_replays:
  assumes "pa_state e = Redeemed"
  shows "redeemPaperBallotAdmission h (Some e) el key req npub now =
     (if pa_redeemedNpub e = Some npub \<and> npub \<noteq> [] \<and> pa_electionId e = el
         \<and> pa_registryKey e = js_lower (js_trim key)
      then Inr (True, e) else Inl Unavailable)"
  using assms by (simp add: redeemPaperBallotAdmission_def validatePaperBallotAdmission_def)

end
