(* ===== verification/OptionA_Types.thy ===== *)
theory OptionA_Types
  imports Definition_Check Pow Paper_Ballot
begin

text \<open>
  The data of the blind-signature ballot flow (\<open>web/src/questionnaireOptionA.ts\<close>, lines 21 to
  386).  The literal properties \<open>type\<close> and \<open>schemaVersion\<close>, which every value of a message type
  shares, are left out; a property whose absence the code tells from \<open>null\<close> is a \<open>field\<close>, one that
  it reads through \<open>??\<close> or as a condition only is an option.  The content of an answer is dynamic.
\<close>

record ballot_scope =
  sc_questionId :: "string field"
  sc_slotId :: "string field"
  sc_slotIndex :: "jsnum field"
  sc_version :: "jsnum field"
  sc_credentialIndex :: "jsnum field"
  sc_allowedScopes :: "jsval list field"
  sc_ballotGroup :: "string field"

datatype election_phase = Draft | Published | Open | Closed | Counted

datatype claim_state =
    Whitelisted | Invited | Claimed | BlindRequestReceived | BlindSignatureIssued
  | VoteReceived | VoteAccepted | VoteRejected

datatype reject_reason =
    DuplicateNullifier | InvalidCredential | ElectionClosed | SchemaInvalid | NotWhitelisted
  | IssuanceMissing | AlreadyVoted

record worker_routing =
  wr_delegationId :: string
  wr_workerNpub :: string
  wr_controlRelays :: "string list option"
  wr_dmRelays :: "string list option"
  wr_expiresAt :: "string option"

record election_summary =
  es_electionId :: string
  es_title :: string
  es_description :: string
  es_state :: election_phase
  es_openedAt :: "string option"
  es_closedAt :: "string option"
  es_coordinatorNpub :: string
  es_blindSigningPublicKey :: "blind_public_key option"
  es_definitionCreatedAt :: "jsnum option"
  es_questionnaireRelays :: "string list option"
  es_issueBlindTokensWorker :: "worker_routing option"
  es_protocolVersion :: "int option"
  es_flowMode :: "string option"
  es_responseMode :: "string option"

record whitelist_entry =
  we_electionId :: string
  we_invitedNpub :: string
  we_addedAt :: string
  we_credentialsPerVoter :: "jsnum option"
  we_ballotGroup :: "string option"
  we_inviteSentAt :: "string option"
  we_inviteEventId :: "string option"
  we_inviteCodeHash :: "string option"
  we_inviteCodeRedeemedAt :: "string option"
  we_claimState :: claim_state
  we_issuanceId :: "string option"
  we_voterLastSeenAt :: "string option"
  we_ballotRequestedAt :: "string option"
  we_ballotIssuedAt :: "string option"
  we_ballotReceivedAt :: "string option"

datatype bearer_state = BearerAvailable | BearerRedeemed | BearerRevoked

record bearer_invite =
  bi_electionId :: string
  bi_codeHash :: string
  bi_createdAt :: string
  bi_state :: bearer_state
  bi_credentialsPerVoter :: "jsnum option"
  bi_maxRedemptions :: "jsnum option"
  bi_ballotGroup :: "string option"
  bi_note :: "string option"
  bi_autoRequestBallot :: "bool option"
  bi_markedUsedAt :: "string option"
  bi_redeemedAt :: "string option"
  bi_redeemedNpub :: "string option"
  bi_redeemedNpubs :: "string list option"
  bi_revokedAt :: "string option"

record definition_reference =
  dr_questionnaireId :: string
  dr_coordinatorNpub :: string
  dr_relays :: "string list option"
  dr_definitionHash :: "string option"
  dr_definitionEventId :: "string option"
  dr_createdAt :: "jsnum option"

record invite_message =
  im_electionId :: string
  im_title :: string
  im_description :: string
  im_voteUrl :: string
  im_invitedNpub :: string
  im_coordinatorNpub :: string
  im_credentialsPerVoter :: "jsnum option"
  im_ballotGroup :: "string option"
  im_definitionReference :: "definition_reference option"
  im_blindSigningPublicKey :: "blind_public_key option"
  im_issueBlindTokensWorker :: "worker_routing option"
  im_definition :: "questionnaire_definition option"
  im_expiresAt :: "string option"

record login_challenge =
  lc_domain :: string
  lc_electionId :: string
  lc_npub :: string
  lc_nonce :: string
  lc_issuedAt :: string
  lc_expiresAt :: string

record login_proof =
  lp_electionId :: string
  lp_npub :: string
  lp_challenge :: login_challenge
  lp_signature :: string

record blind_request =
  rq_electionId :: string
  rq_requestId :: string
  rq_invitedNpub :: string
  rq_blindedMessage :: string
  rq_blindSigningKeyId :: string
  rq_clientNonce :: string
  rq_createdAt :: string
  rq_inviteCodeHash :: "string field"
  rq_paperBallotAdmissionKey :: "string field"
  rq_generalInvitePow :: "pow_proof field"
  rq_ballotScope :: "ballot_scope field"
  rq_lastSentAt :: "string field"

record blind_issuance =
  is_electionId :: string
  is_requestId :: string
  is_issuanceId :: string
  is_invitedNpub :: string
  is_blindSigningKeyId :: string
  is_blindSignature :: string
  is_definitionHash :: "string field"
  is_definitionEventId :: "string field"
  is_ballotScope :: "ballot_scope field"
  is_definition :: "questionnaire_definition field"
  is_issuedAt :: string

record blind_plan =
  bp_type :: string
  bp_schemaVersion :: int
  bp_planId :: string
  bp_electionId :: string
  bp_invitedNpub :: string
  bp_issuerNpub :: string
  bp_initialRequestId :: string
  bp_blindSigningKeyId :: string
  bp_definitionHash :: "string field"
  bp_definitionEventId :: "string field"
  bp_credentialCount :: int
  bp_ballotScopes :: "ballot_scope option list"
  bp_issuedAt :: string

record ballot_answer =
  qa_questionId :: string
  qa_type :: string
  qa_answer :: jsval
  qa_encryptForCoordinator :: "bool option"

record ballot_payload =
  bl_electionId :: string
  bl_responses :: "ballot_answer list"

record credential_proof =
  cp_questionId :: "string option"
  cp_tokenCommitment :: string
  cp_blindSigningKeyId :: string
  cp_credential :: string
  cp_nullifier :: string
  cp_ballotScope :: "ballot_scope option"

record ballot_submission =
  su_electionId :: string
  su_submissionId :: string
  su_invitedNpub :: string
  su_responseNpub :: "string option"
  su_tokenCommitment :: string
  su_blindSigningKeyId :: string
  su_credential :: string
  su_nullifier :: string
  su_credentialBundle :: "credential_proof list option"
  su_payload :: ballot_payload
  su_submittedAt :: string

record acceptance_result =
  ac_electionId :: string
  ac_submissionId :: string
  ac_accepted :: bool
  ac_reason :: "reject_reason option"
  ac_decidedAt :: string

record blind_token_secret =
  ts_tokenSecret :: string
  ts_tokenCommitment :: string
  ts_blindingFactor :: string
  ts_blindSigningPublicKey :: blind_public_key
  ts_ballotScope :: "ballot_scope field"

record submission_decision =
  sd_submissionId :: string
  sd_accepted :: bool
  sd_decidedAt :: string
  sd_reason :: "string option"

record voter_state =
  vs_electionId :: string
  vs_invitedNpub :: string
  vs_coordinatorNpub :: string
  vs_loginVerified :: bool
  vs_loginVerifiedAt :: "string option"
  vs_inviteMessage :: "invite_message option"
  vs_privateInviteCredentialsPerVoter :: "jsnum option"
  vs_privateInviteBallotGroup :: "string option"
  vs_blindBallotPlan :: "blind_plan option"
  vs_blindRequest :: "blind_request option"
  vs_blindRequestSent :: bool
  vs_blindRequestSentAt :: "string option"
  vs_blindIssuance :: "blind_issuance option"
  vs_blindRequests :: "blind_request obj"
  vs_blindIssuances :: "blind_issuance obj"
  vs_credentialReady :: bool
  vs_blindTokenSecret :: "blind_token_secret option"
  vs_blindTokenSecrets :: "blind_token_secret obj"
  vs_responseNsec :: "string option"
  vs_responseNpub :: "string option"
  vs_draftResponses :: "ballot_answer list"
  vs_submission :: "ballot_submission option"
  vs_submissions :: "ballot_submission obj"
  vs_submissionAccepted :: "bool field"
  vs_submissionAcceptedAt :: "string option"
  vs_privateSubmissionQueued :: bool
  vs_privateSubmissionReceiptAccepted :: "bool option"
  vs_privateSubmissionReceiptAt :: "string option"
  vs_privateSubmissionReceiptReason :: "string option"
  vs_submissionDecisions :: "submission_decision obj"
  vs_lastUpdatedAt :: string

record blind_private_key =
  bpk_keyId :: string
  bpk_jwk :: jsval
  bpk_privateJwk :: jsval

record coordinator_state =
  co_election :: election_summary
  co_whitelist :: "whitelist_entry obj"
  co_bearerInviteCodes :: "bearer_invite obj"
  co_paperBallotAdmissions :: admission_registry
  co_pendingBlindRequests :: "blind_request obj"
  co_issuedBlindResponses :: "blind_issuance obj"
  co_receivedSubmissions :: "ballot_submission obj"
  co_acceptedNullifiers :: "string obj"
  co_acceptanceResults :: "acceptance_result obj"
  co_blindSigningPrivateKey :: "blind_private_key option"
  co_lastUpdatedAt :: string

datatype coordinator_event =
    WHITELIST_ADDED whitelist_entry
  | INVITE_SENT string string string string
  | COORDINATOR_LOGIN_VERIFIED string string
  | BLIND_REQUEST_RECEIVED blind_request
  | BLIND_SIGNATURE_ISSUED blind_issuance
  | BALLOT_SUBMISSION_RECEIVED ballot_submission
  | BALLOT_ACCEPTED acceptance_result
  | BALLOT_REJECTED acceptance_result

datatype voter_event =
    INVITE_LOADED invite_message
  | LOGIN_VERIFIED string string "string option"
  | BLIND_REQUEST_CREATED blind_request
  | BLIND_REQUEST_SENT string string string
  | BLIND_BALLOT_PLAN_RECEIVED blind_plan
  | BLIND_ISSUANCE_RECEIVED blind_issuance
  | DRAFT_RESPONSES_UPDATED string "ballot_answer list"
  | BALLOT_SUBMISSION_CREATED ballot_submission
  | PRIVATE_BALLOT_SUBMISSION_QUEUED string string
  | BALLOT_SUBMISSION_ACCEPTED string string
  | BALLOT_SUBMISSION_REJECTED string string string

datatype coordinator_error =
    CE_election_id_mismatch | CE_whitelist_missing | CE_state_transition_rejected
  | CE_election_not_open | CE_already_issued | CE_issuance_conflict | CE_request_missing
  | CE_submission_missing | CE_duplicate_nullifier | CE_already_voted | CE_not_whitelisted
  | CE_issuance_missing | CE_invalid_credential | CE_schema_invalid

datatype voter_error =
    VE_invite_npub_mismatch | VE_election_id_mismatch | VE_login_not_verified
  | VE_blind_request_missing | VE_issuance_conflict | VE_credential_not_ready
  | VE_already_submitted | VE_schema_invalid

record ('s, 'e) reducer_result =
  rr_state :: 's
  rr_ok :: bool
  rr_error :: "'e option"

definition accept :: "'s \<Rightarrow> ('s, 'e) reducer_result" where
  "accept s = \<lparr>rr_state = s, rr_ok = True, rr_error = None\<rparr>"

definition refuse :: "'s \<Rightarrow> 'e \<Rightarrow> ('s, 'e) reducer_result" where
  "refuse s e = \<lparr>rr_state = s, rr_ok = False, rr_error = Some e\<rparr>"

lemma reducer_result_simps [simp]:
  "rr_state (accept s) = s" "rr_ok (accept s)" "rr_error (accept s) = None"
  "rr_state (refuse s e) = s" "\<not> rr_ok (refuse s e)" "rr_error (refuse s e) = Some e"
  by (simp_all add: accept_def refuse_def)

section \<open>The order of claim states\<close>

fun CLAIM_STATE_ORDER :: "claim_state \<Rightarrow> nat" where
  "CLAIM_STATE_ORDER Whitelisted = 0"
| "CLAIM_STATE_ORDER Invited = 1"
| "CLAIM_STATE_ORDER Claimed = 2"
| "CLAIM_STATE_ORDER BlindRequestReceived = 3"
| "CLAIM_STATE_ORDER BlindSignatureIssued = 4"
| "CLAIM_STATE_ORDER VoteReceived = 5"
| "CLAIM_STATE_ORDER VoteAccepted = 6"
| "CLAIM_STATE_ORDER VoteRejected = 6"

text \<open>
  The claim states are preordered by \<open>CLAIM_STATE_ORDER\<close>: \<open>VoteAccepted\<close> and \<open>VoteRejected\<close> are
  equivalent.
\<close>

instantiation claim_state :: preorder
begin

definition less_eq_claim_state :: "claim_state \<Rightarrow> claim_state \<Rightarrow> bool" where
  "s \<le> t \<longleftrightarrow> CLAIM_STATE_ORDER s \<le> CLAIM_STATE_ORDER t"

definition less_claim_state :: "claim_state \<Rightarrow> claim_state \<Rightarrow> bool" where
  "s < t \<longleftrightarrow> CLAIM_STATE_ORDER s < CLAIM_STATE_ORDER t"

instance
  by standard (auto simp: less_eq_claim_state_def less_claim_state_def)

end

definition maxClaimState :: "claim_state \<Rightarrow> claim_state \<Rightarrow> claim_state" where
  "maxClaimState left right = (if CLAIM_STATE_ORDER left \<ge> CLAIM_STATE_ORDER right then left else right)"

lemma maxClaimState_ge [simp]: "s \<le> maxClaimState s t" "t \<le> maxClaimState s t"
  by (auto simp: maxClaimState_def less_eq_claim_state_def)

lemma maxClaimState_least: "s \<le> u \<Longrightarrow> t \<le> u \<Longrightarrow> maxClaimState s t \<le> u"
  by (auto simp: maxClaimState_def)

end
