(* ===== verification/OptionA_Scope.thy ===== *)
theory OptionA_Scope
  imports OptionA_Types
begin

text \<open>
  Ballot scopes, their keys, and the sanitisers that run on every stored and received message
  (\<open>web/src/questionnaireOptionA.ts\<close>, lines 434 to 721).  The interface \<open>keyed_sanitiser\<close> is what
  the reducers rely on: sanitising a message keeps its key and is done once and for all.
\<close>

section \<open>Sanitising a scope\<close>

fun field_of_option :: "'a option \<Rightarrow> 'a field" where
  "field_of_option (Some x) = Present x"
| "field_of_option None = Null"

text \<open>Keep a value or a \<open>null\<close>; drop what the type test refuses.\<close>

fun sanitise_index :: "jsnum field \<Rightarrow> jsnum field" where
  "sanitise_index (Present n) = (if num_isFinite n then Present (num_int (floor_at_least 1 n)) else Undefined)"
| "sanitise_index f = f"

fun sanitise_credential_index :: "jsnum field \<Rightarrow> jsnum field" where
  "sanitise_credential_index (Present n) =
     (if num_isFinite n \<and> floor_at_least 1 n > 1 then Present (num_int (floor_at_least 1 n)) else Undefined)"
| "sanitise_credential_index f = f"

definition empty_scope :: ballot_scope where
  "empty_scope = \<lparr>sc_questionId = Undefined, sc_slotId = Undefined, sc_slotIndex = Undefined,
     sc_version = Undefined, sc_credentialIndex = Undefined, sc_allowedScopes = Undefined,
     sc_ballotGroup = Undefined\<rparr>"

text \<open>The sanitised properties, before the test for an object without properties.\<close>

definition sanitised_scope :: "ballot_scope \<Rightarrow> ballot_scope" where
  "sanitised_scope scope =
     (let ballotGroup = normaliseQuestionnaireBallotGroup (nullish (sc_ballotGroup scope));
          allowedScopes = normaliseQuestionnaireAllowedScopes (nullish (sc_allowedScopes scope)) ballotGroup
      in \<lparr>sc_questionId = sc_questionId scope,
          sc_slotId = sc_slotId scope,
          sc_slotIndex = sanitise_index (sc_slotIndex scope),
          sc_version = sanitise_index (sc_version scope),
          sc_credentialIndex = sanitise_credential_index (sc_credentialIndex scope),
          sc_allowedScopes =
            (if nullish (sc_allowedScopes scope) \<noteq> None \<or> ballotGroup \<noteq> None
             then Present (map JStr allowedScopes)
             else if sc_allowedScopes scope = Null then Null else Undefined),
          sc_ballotGroup =
            (case ballotGroup of Some g \<Rightarrow> Present g
             | None \<Rightarrow> if sc_ballotGroup scope = Null then Null else Undefined)\<rparr>)"

definition sanitiseBallotScope :: "ballot_scope option \<Rightarrow> ballot_scope option" where
  "sanitiseBallotScope input = (case input of None \<Rightarrow> None
     | Some scope \<Rightarrow> let next = sanitised_scope scope in if next = empty_scope then None else Some next)"

section \<open>The key of a scope\<close>

definition trimmed_or_empty :: "string field \<Rightarrow> string" where
  "trimmed_or_empty f = (case nullish f of Some s \<Rightarrow> js_trim s | None \<Rightarrow> [])"

definition index_or :: "int \<Rightarrow> jsnum field \<Rightarrow> int" where
  "index_or d f = (case nullish f of
     Some n \<Rightarrow> if num_isFinite n then floor_at_least 1 n else d | None \<Rightarrow> d)"

definition ballotScopeKey :: "ballot_scope option \<Rightarrow> string" where
  "ballotScopeKey input =
     (let scope = (case input of Some s \<Rightarrow> s | None \<Rightarrow> empty_scope);
          questionId = trimmed_or_empty (sc_questionId scope);
          slotId = trimmed_or_empty (sc_slotId scope);
          ballotGroup = normaliseQuestionnaireBallotGroup (nullish (sc_ballotGroup scope));
          allowedScopes = filter (\<lambda>entry. entry \<noteq> ''0'')
            (normaliseQuestionnaireAllowedScopes (nullish (sc_allowedScopes scope)) ballotGroup);
          version = index_or 0 (sc_version scope);
          slotIndex = index_or 0 (sc_slotIndex scope);
          credentialIndex = index_or 1 (sc_credentialIndex scope);
          credentialSuffix = credential_suffix credentialIndex;
          scopePrefix = (if allowedScopes \<noteq> [] then ''scopes:'' @ js_join ''+'' allowedScopes @ '':'' else []);
          shownVersion = string_of_int (if version = 0 then 1 else version)
      in if questionId = [] \<and> slotId = [] \<and> version = 0 \<and> slotIndex = 0 \<and> credentialIndex \<le> 1
            \<and> allowedScopes = [] then ''__questionnaire__''
         else if questionId = [] \<and> slotId = [] \<and> version = 0 \<and> slotIndex = 0 \<and> allowedScopes \<noteq> []
           then scopePrefix @ ''questionnaire'' @ credentialSuffix
         else if slotIndex > 0
           then scopePrefix @ ''slot:'' @ string_of_int slotIndex @ '':v'' @ shownVersion @ credentialSuffix
         else scopePrefix @ (if questionId \<noteq> [] then questionId else slotId) @ '':'' @ slotId @ '':''
                @ string_of_int slotIndex @ '':v'' @ shownVersion @ credentialSuffix)"

definition sameBallotScope :: "ballot_scope option \<Rightarrow> ballot_scope option \<Rightarrow> bool" where
  "sameBallotScope left right = (ballotScopeKey left = ballotScopeKey right)"

definition ballotScopeBaseKey :: "ballot_scope option \<Rightarrow> string" where
  "ballotScopeBaseKey scope = ballotScopeKey (map_option (\<lambda>s. s\<lparr>sc_credentialIndex := Null\<rparr>) scope)"

text \<open>The scope that \<open>questionBallotCredentialScope\<close> yields, as a ballot scope.\<close>

definition scope_of_credential :: "credential_scope \<Rightarrow> ballot_scope" where
  "scope_of_credential cs = \<lparr>sc_questionId = Undefined, sc_slotId = Undefined,
     sc_slotIndex = Present (num_int (cs_slotIndex cs)), sc_version = Present (num_int (cs_version cs)),
     sc_credentialIndex = (case cs_credentialIndex cs of Some i \<Rightarrow> Present (num_int i) | None \<Rightarrow> Undefined),
     sc_allowedScopes = (case cs_allowedScopes cs of Some ss \<Rightarrow> Present (map JStr ss) | None \<Rightarrow> Undefined),
     sc_ballotGroup = Undefined\<rparr>"

lemma index_or_sanitise [simp]: "index_or d (sanitise_index f) = index_or d f"
  by (cases f) (simp_all add: index_or_def)

lemma index_or_sanitise_credential [simp]:
  "index_or 1 (sanitise_credential_index f) = index_or 1 f"
proof (cases f)
  case (Present n)
  then show ?thesis by (auto simp: index_or_def intro!: antisym)
qed (simp_all add: index_or_def)

lemma index_or_ge: "d \<le> index_or d f \<or> 1 \<le> index_or d f"
  by (auto simp: index_or_def split: option.splits)

lemma allowed_again [simp]:
  "normaliseQuestionnaireAllowedScopes (Some (map JStr (normaliseQuestionnaireAllowedScopes vs g))) g
     = normaliseQuestionnaireAllowedScopes vs g"
  by (rule normaliseQuestionnaireAllowedScopes_idem) simp

lemma sanitise_index_idem [simp]: "sanitise_index (sanitise_index f) = sanitise_index f"
  by (cases f) simp_all

lemma sanitise_credential_index_idem [simp]:
  "sanitise_credential_index (sanitise_credential_index f) = sanitise_credential_index f"
  by (cases f) simp_all

lemma ballotScopeKey_empty: "ballotScopeKey (Some empty_scope) = ballotScopeKey None"
  by (simp add: ballotScopeKey_def Let_def)

lemma sanitiseBallotScope_None [simp]: "sanitiseBallotScope None = None"
  by (simp add: sanitiseBallotScope_def)

lemma sanitiseBallotScope_Some:
  "sanitiseBallotScope (Some scope) =
     (if sanitised_scope scope = empty_scope then None else Some (sanitised_scope scope))"
  by (simp add: sanitiseBallotScope_def Let_def)

lemma sanitised_group:
  "normaliseQuestionnaireBallotGroup (nullish (sc_ballotGroup (sanitised_scope s)))
     = normaliseQuestionnaireBallotGroup (nullish (sc_ballotGroup s))"
  by (auto simp: sanitised_scope_def Let_def normaliseQuestionnaireBallotGroup_def
      normaliseQuestionnaireScope_fixed split: option.splits)

lemma sanitised_allowed:
  "normaliseQuestionnaireAllowedScopes (nullish (sc_allowedScopes (sanitised_scope s)))
       (normaliseQuestionnaireBallotGroup (nullish (sc_ballotGroup s)))
     = normaliseQuestionnaireAllowedScopes (nullish (sc_allowedScopes s))
       (normaliseQuestionnaireBallotGroup (nullish (sc_ballotGroup s)))"
  by (auto simp: sanitised_scope_def Let_def)

lemma ballotScopeKey_sanitised: "ballotScopeKey (Some (sanitised_scope s)) = ballotScopeKey (Some s)"
  unfolding ballotScopeKey_def option.case sanitised_group sanitised_allowed Let_def
  by (simp add: sanitised_scope_def Let_def)

lemma sanitised_scope_idem [simp]: "sanitised_scope (sanitised_scope s) = sanitised_scope s"
proof -
  have "sc_allowedScopes (sanitised_scope (sanitised_scope s)) = sc_allowedScopes (sanitised_scope s)"
    unfolding sanitised_scope_def [of "sanitised_scope s"] Let_def sanitised_group sanitised_allowed
    by (auto simp: sanitised_scope_def Let_def)
  moreover have "sc_ballotGroup (sanitised_scope (sanitised_scope s)) = sc_ballotGroup (sanitised_scope s)"
    unfolding sanitised_scope_def [of "sanitised_scope s"] Let_def sanitised_group
    by (auto simp: sanitised_scope_def Let_def split: option.splits)
  ultimately show ?thesis
    by (simp add: sanitised_scope_def Let_def)
qed

lemma ballotScopeKey_sanitise [simp]: "ballotScopeKey (sanitiseBallotScope s) = ballotScopeKey s"
proof (cases s)
  case (Some scope)
  then show ?thesis
    using ballotScopeKey_sanitised [of scope]
    by (cases "sanitised_scope scope = empty_scope")
       (simp_all add: sanitiseBallotScope_Some ballotScopeKey_empty)
qed (simp add: sanitiseBallotScope_def)

lemma sanitiseBallotScope_idem [simp]:
  "sanitiseBallotScope (sanitiseBallotScope s) = sanitiseBallotScope s"
  by (cases s) (simp_all add: sanitiseBallotScope_Some)

text \<open>
  A credential issued for a question carries a scope whose key is the question's own key.
\<close>

lemma normalised_pair:
  assumes "normaliseQuestionnaireScope v = Some s"
  shows "normaliseQuestionnaireAllowedScopes (Some [JStr ''0'', JStr s]) None = [''0'', s]"
proof (rule scopes.in_order_unique [OF scope_cmp_antisym])
  note s = normaliseQuestionnaireScope_Some(3) [OF assms] normaliseQuestionnaireScope_fixed [OF assms]
  show "scopes.in_order (normaliseQuestionnaireAllowedScopes (Some [JStr ''0'', JStr s]) None)"
    by (rule normaliseQuestionnaireAllowedScopes_sorted)
  show "scopes.in_order [''0'', s]" by (simp add: scope_cmp_def)
  show "distinct [''0'', s]" using s by auto
  show "set (normaliseQuestionnaireAllowedScopes (Some [JStr ''0'', JStr s]) None) = set [''0'', s]"
    unfolding set_normaliseQuestionnaireAllowedScopes normaliseQuestionnaireScope_None set_simps
    using s normaliseQuestionnaireScope_main by auto
qed (assumption | rule distinct_normaliseQuestionnaireAllowedScopes)+

lemma filter_not_zero:
  assumes "normaliseQuestionnaireScope v = Some s"
  shows "filter (\<lambda>entry. entry \<noteq> ''0'')
    (normaliseQuestionnaireAllowedScopes (Some (map JStr [''0'', s])) None) = [s]"
  unfolding list.map normalised_pair [OF assms] filter.simps
  using normaliseQuestionnaireScope_Some(3) [OF assms] by simp

lemma filter_only_zero:
  "filter (\<lambda>entry. entry \<noteq> ''0'') (normaliseQuestionnaireAllowedScopes None None) = []"
  by (simp add: normaliseQuestionnaireAllowedScopes_def js_set_def js_sort_Cons)

lemma num_floor_at_least: "num_isFinite c \<Longrightarrow> floor_at_least 1 c = max 1 (num_floor c)"
  by (cases c) (simp_all add: num_floor_def)

lemma ballotScopeKey_credential:
  "ballotScopeKey (Some (scope_of_credential (questionBallotCredentialScope q i c))) = questionBallotScopeKey q i c"
proof -
  have slot: "1 \<le> ns_slotIndex (normaliseQuestionBallotSlot q i)" "1 \<le> ns_version (normaliseQuestionBallotSlot q i)"
    by (rule normaliseQuestionBallotSlot_bounds)+
  have suffix: "credential_suffix (index_or 1 (case cs_credentialIndex (questionBallotCredentialScope q i c) of
        Some i \<Rightarrow> Present (num_int i) | None \<Rightarrow> Undefined))
      = (if num_isFinite c then credential_suffix (num_floor c) else [])"
    by (auto simp: questionBallotCredentialScope_def Let_def index_or_def credential_suffix_def num_floor_at_least)
  show ?thesis
  proof (cases "questionRequiredScope q")
    case None
    have "cs_allowedScopes (questionBallotCredentialScope q i c) = None"
      using None by (simp add: questionBallotCredentialScope_def Let_def)
    with slot suffix None filter_only_zero show ?thesis
      by (simp add: ballotScopeKey_def questionBallotScopeKey_def scope_of_credential_def Let_def
          trimmed_or_empty_def normaliseQuestionnaireBallotGroup_def)
         (simp add: questionBallotCredentialScope_def Let_def index_or_def)
  next
    case (Some s)
    then have n: "normaliseQuestionnaireScope (coalesce (q_requiredScope q) (q_ballotGroup q)) = Some s"
      by (simp add: questionRequiredScope_def)
    show ?thesis
      using slot suffix Some filter_not_zero [OF n] allowedScopes_credentialScope [OF Some, of i c]
      by (simp add: ballotScopeKey_def questionBallotScopeKey_def scope_of_credential_def Let_def
          trimmed_or_empty_def normaliseQuestionnaireBallotGroup_def)
         (simp add: questionBallotCredentialScope_def Let_def index_or_def)
  qed
qed

end
