(* ===== verification/OptionA_Messages.thy ===== *)
theory OptionA_Messages
  imports OptionA_Scope
begin

text \<open>
  Requests, issuances and submissions (\<open>web/src/questionnaireOptionA.ts\<close>, lines 482 to 847): the
  sanitisers, the search for a message by voter and scope, the credential bundle of a submission
  with the keys that detect a duplicate, and the schema of the answers.
\<close>

section \<open>Sanitising messages\<close>

fun trimmed_lower_or_null :: "string field \<Rightarrow> string field" where
  "trimmed_lower_or_null (Present s) = (if js_trim s = [] then Null else Present (js_lower (js_trim s)))"
| "trimmed_lower_or_null f = f"

fun sanitise_scope_field :: "ballot_scope field \<Rightarrow> ballot_scope field" where
  "sanitise_scope_field Undefined = Undefined"
| "sanitise_scope_field Null = Null"
| "sanitise_scope_field (Present s) = field_of_option (sanitiseBallotScope (Some s))"

definition sanitiseBlindBallotRequest :: "blind_request \<Rightarrow> blind_request" where
  "sanitiseBlindBallotRequest request = \<lparr>
     rq_electionId = rq_electionId request,
     rq_requestId = rq_requestId request,
     rq_invitedNpub = rq_invitedNpub request,
     rq_blindedMessage = rq_blindedMessage request,
     rq_blindSigningKeyId = rq_blindSigningKeyId request,
     rq_clientNonce = rq_clientNonce request,
     rq_createdAt = rq_createdAt request,
     rq_inviteCodeHash = rq_inviteCodeHash request,
     rq_paperBallotAdmissionKey = trimmed_lower_or_null (rq_paperBallotAdmissionKey request),
     rq_generalInvitePow = rq_generalInvitePow request,
     rq_ballotScope = sanitise_scope_field (rq_ballotScope request),
     rq_lastSentAt = rq_lastSentAt request\<rparr>"

definition sanitiseBlindBallotIssuance :: "blind_issuance \<Rightarrow> blind_issuance" where
  "sanitiseBlindBallotIssuance issuance = \<lparr>
     is_electionId = is_electionId issuance,
     is_requestId = is_requestId issuance,
     is_issuanceId = is_issuanceId issuance,
     is_invitedNpub = is_invitedNpub issuance,
     is_blindSigningKeyId = is_blindSigningKeyId issuance,
     is_blindSignature = is_blindSignature issuance,
     is_definitionHash = is_definitionHash issuance,
     is_definitionEventId = is_definitionEventId issuance,
     is_ballotScope = sanitise_scope_field (is_ballotScope issuance),
     is_definition = is_definition issuance,
     is_issuedAt = is_issuedAt issuance\<rparr>"

definition sanitiseBlindBallotPlan :: "blind_plan option \<Rightarrow> blind_plan option" where
  "sanitiseBlindBallotPlan plan = (case plan of None \<Rightarrow> None | Some candidate \<Rightarrow>
     if bp_type candidate \<noteq> ''blind_ballot_plan'' \<or> bp_schemaVersion candidate \<noteq> 1
        \<or> bp_credentialCount candidate \<noteq> 2 \<or> length (bp_ballotScopes candidate) \<noteq> 2
     then None
     else Some (candidate\<lparr>bp_ballotScopes := map sanitiseBallotScope (bp_ballotScopes candidate)\<rparr>))"

text \<open>Rebuild a dictionary of messages under the identifiers the messages carry.\<close>

definition rekeyed :: "('m \<Rightarrow> 'm) \<Rightarrow> ('m \<Rightarrow> string) \<Rightarrow> 'm obj \<Rightarrow> 'm obj" where
  "rekeyed sanitise ident ms = from_entries
     (map (\<lambda>m. (ident (sanitise m), sanitise m)) (js_values ms))"

definition sanitiseBlindBallotRequestRecord :: "blind_request obj \<Rightarrow> blind_request obj" where
  "sanitiseBlindBallotRequestRecord = rekeyed sanitiseBlindBallotRequest rq_requestId"

definition sanitiseBlindBallotIssuanceRecord :: "blind_issuance obj \<Rightarrow> blind_issuance obj" where
  "sanitiseBlindBallotIssuanceRecord = rekeyed sanitiseBlindBallotIssuance is_requestId"

text \<open>The same under the keys of the dictionary.\<close>

definition sanitised_values :: "('m \<Rightarrow> 'm) \<Rightarrow> 'm obj \<Rightarrow> 'm obj" where
  "sanitised_values sanitise ms = from_entries (map (\<lambda>(k, m). (k, sanitise m)) (js_entries ms))"

definition sanitiseBlindBallotRequestRecordPreservingKeys :: "blind_request obj \<Rightarrow> blind_request obj" where
  "sanitiseBlindBallotRequestRecordPreservingKeys = sanitised_values sanitiseBlindBallotRequest"

definition sanitiseBlindBallotIssuanceRecordPreservingKeys :: "blind_issuance obj \<Rightarrow> blind_issuance obj" where
  "sanitiseBlindBallotIssuanceRecordPreservingKeys = sanitised_values sanitiseBlindBallotIssuance"

section \<open>Finding and comparing messages\<close>

definition request_scope :: "blind_request \<Rightarrow> ballot_scope option" where
  "request_scope r = nullish (rq_ballotScope r)"

definition issuance_scope :: "blind_issuance \<Rightarrow> ballot_scope option" where
  "issuance_scope i = nullish (is_ballotScope i)"

definition findIssuanceByNpub :: "blind_issuance obj \<Rightarrow> string \<Rightarrow> blind_issuance option" where
  "findIssuanceByNpub issued npub = List.find (\<lambda>i. is_invitedNpub i = npub) (js_values issued)"

definition findIssuanceByNpubAndScope ::
  "blind_issuance obj \<Rightarrow> string \<Rightarrow> ballot_scope option \<Rightarrow> blind_issuance option" where
  "findIssuanceByNpubAndScope issued npub scope =
     List.find (\<lambda>i. is_invitedNpub i = npub \<and> sameBallotScope (issuance_scope i) scope) (js_values issued)"

definition findPendingBlindRequestByNpubAndScope ::
  "blind_request obj \<Rightarrow> string \<Rightarrow> ballot_scope option \<Rightarrow> blind_request option" where
  "findPendingBlindRequestByNpubAndScope pending npub scope =
     List.find (\<lambda>r. rq_invitedNpub r = npub \<and> sameBallotScope (request_scope r) scope) (js_values pending)"

definition sameBlindBallotRequest :: "blind_request \<Rightarrow> blind_request \<Rightarrow> bool" where
  "sameBlindBallotRequest left right =
     (rq_electionId left = rq_electionId right
      \<and> rq_requestId left = rq_requestId right
      \<and> rq_invitedNpub left = rq_invitedNpub right
      \<and> rq_blindedMessage left = rq_blindedMessage right
      \<and> rq_blindSigningKeyId left = rq_blindSigningKeyId right
      \<and> rq_clientNonce left = rq_clientNonce right
      \<and> rq_createdAt left = rq_createdAt right
      \<and> nullish (rq_inviteCodeHash left) = nullish (rq_inviteCodeHash right)
      \<and> map_option pp_nonce (nullish (rq_generalInvitePow left))
          = map_option pp_nonce (nullish (rq_generalInvitePow right))
      \<and> sameBallotScope (request_scope left) (request_scope right))"

section \<open>The credentials of a submission\<close>

definition submissionCredentialBundle :: "ballot_submission \<Rightarrow> credential_proof list" where
  "submissionCredentialBundle submission = (case su_credentialBundle submission of
     Some (proof # proofs) \<Rightarrow> proof # proofs
   | _ \<Rightarrow> [\<lparr>cp_questionId = None, cp_tokenCommitment = su_tokenCommitment submission,
            cp_blindSigningKeyId = su_blindSigningKeyId submission,
            cp_credential = su_credential submission, cp_nullifier = su_nullifier submission,
            cp_ballotScope = None\<rparr>])"

definition response_ids :: "ballot_submission \<Rightarrow> string list" where
  "response_ids submission = filter (\<lambda>s. s \<noteq> [])
     (map (\<lambda>entry. js_trim (qa_questionId entry)) (bl_responses (su_payload submission)))"

definition scoped_proofs :: "ballot_submission \<Rightarrow> credential_proof list" where
  "scoped_proofs submission =
     filter (\<lambda>proof. cp_ballotScope proof \<noteq> None) (submissionCredentialBundle submission)"

definition ballotSubmissionQuestionKeys :: "ballot_submission \<Rightarrow> string list" where
  "ballotSubmissionQuestionKeys submission =
     (if scoped_proofs submission \<noteq> [] then
        js_set (response_ids submission
          @ map (\<lambda>proof. ballotScopeKey (cp_ballotScope proof)) (scoped_proofs submission))
      else if su_credentialBundle submission = None \<or> su_credentialBundle submission = Some [] then []
      else js_set (response_ids submission))"

definition ballotSubmissionDuplicateKeys :: "ballot_submission \<Rightarrow> string list" where
  "ballotSubmissionDuplicateKeys submission =
     (if scoped_proofs submission \<noteq> [] then
        js_set (map (\<lambda>proof. ballotScopeKey (cp_ballotScope proof)) (scoped_proofs submission))
      else ballotSubmissionQuestionKeys submission)"

definition scope_allowed :: "ballot_scope option \<Rightarrow> string list" where
  "scope_allowed scope = normaliseQuestionnaireAllowedScopes
     (Option.bind scope (\<lambda>s. nullish (sc_allowedScopes s)))
     (Option.bind scope (\<lambda>s. nullish (sc_ballotGroup s)))"

definition answeredQuestionsMatchCredentialScopes ::
  "questionnaire_definition option \<Rightarrow> ballot_submission \<Rightarrow> bool" where
  "answeredQuestionsMatchCredentialScopes definition submission = (case definition of
     None \<Rightarrow> True
   | Some d \<Rightarrow>
       if \<not> questionnaireUsesPerQuestionCredentials (Some d) then
         (let allowedScopes = concat (map (\<lambda>proof. scope_allowed (cp_ballotScope proof))
                (submissionCredentialBundle submission))
          in list_all (\<lambda>answer.
               case List.find (\<lambda>entry. q_questionId entry = qa_questionId answer) (d_questions d) of
                 None \<Rightarrow> False
               | Some q \<Rightarrow> (case questionRequiredScope q of None \<Rightarrow> True
                   | Some requiredScope \<Rightarrow> requiredScope \<in> set allowedScopes))
             (bl_responses (su_payload submission)))
       else list_all (\<lambda>answer.
              case findIndex (\<lambda>q. q_questionId q = qa_questionId answer) (d_questions d) of
                None \<Rightarrow> False
              | Some questionIndex \<Rightarrow>
                  (let q = d_questions d ! questionIndex; requiredScope = questionRequiredScope q
                   in list_ex (\<lambda>proof.
                        ballotScopeBaseKey (cp_ballotScope proof)
                          = questionBallotScopeKey q questionIndex (num_int 1)
                        \<and> (case requiredScope of None \<Rightarrow> True
                           | Some s \<Rightarrow> s \<in> set (scope_allowed (cp_ballotScope proof))))
                      (submissionCredentialBundle submission)))
            (bl_responses (su_payload submission)))"

section \<open>The schema of the answers\<close>

definition nonblank_strings :: "jsval \<Rightarrow> bool" where
  "nonblank_strings v = (case v of
     JArr vs \<Rightarrow> vs \<noteq> [] \<and> list_all (\<lambda>entry. case entry of JStr s \<Rightarrow> js_trim s \<noteq> [] | _ \<Rightarrow> False) vs
   | _ \<Rightarrow> False)"

fun responses_schema :: "string list \<Rightarrow> ballot_answer list \<Rightarrow> bool" where
  "responses_schema seen [] = True"
| "responses_schema seen (answer # rest) =
     (if js_trim (qa_questionId answer) = [] \<or> qa_questionId answer \<in> set seen then False
      else if qa_type answer = ''yes_no'' \<and> qa_answer answer \<noteq> JStr ''yes'' \<and> qa_answer answer \<noteq> JStr ''no''
        then False
      else if qa_type answer = ''multiple_choice'' \<and> \<not> nonblank_strings (qa_answer answer) then False
      else if qa_type answer = ''rank'' \<and> \<not> nonblank_strings (qa_answer answer) then False
      else if qa_type answer = ''rank'' \<and> \<not> distinct (array_or_empty (qa_answer answer)) then False
      else if qa_type answer = ''text'' \<and> \<not> is_JStr (qa_answer answer) then False
      else if qa_type answer \<notin> {''yes_no'', ''multiple_choice'', ''rank'', ''text''} then False
      else responses_schema (qa_questionId answer # seen) rest)"

definition validateResponsesSchema :: "ballot_answer list \<Rightarrow> bool" where
  "validateResponsesSchema responses = responses_schema [] responses"

text \<open>
  \<open>optionAAnswerToResponse\<close>; \<open>None\<close> is the \<open>undefined\<close> that the \<open>switch\<close> leaves for a type the
  schema refuses.
\<close>

definition optionAAnswerToResponse :: "ballot_answer \<Rightarrow> response_answer option" where
  "optionAAnswerToResponse answer =
     (let blank = \<lparr>ab_answerType = [], ab_value = JUndefined, ab_selectedOptionIds = JUndefined,
            ab_rankedOptionIds = JUndefined, ab_text = JUndefined\<rparr>;
          respond = (\<lambda>body. Some \<lparr>ra_questionId = qa_questionId answer, ra_body = body\<rparr>)
      in if qa_type answer = ''yes_no'' then
           respond (blank\<lparr>ab_answerType := ''yes_no'', ab_value := JBool (qa_answer answer = JStr ''yes'')\<rparr>)
         else if qa_type answer = ''multiple_choice'' then
           respond (blank\<lparr>ab_answerType := ''multiple_choice'', ab_selectedOptionIds := qa_answer answer\<rparr>)
         else if qa_type answer = ''rank'' then
           respond (blank\<lparr>ab_answerType := ''rank'', ab_rankedOptionIds := qa_answer answer\<rparr>)
         else if qa_type answer = ''text'' then
           respond (blank\<lparr>ab_answerType := ''free_text'', ab_text := qa_answer answer\<rparr>)
         else None)"

section \<open>Keyed dictionaries of sanitised messages\<close>

text \<open>Every message stands under its own identifier and is sanitised.\<close>

definition well_keyed :: "('m \<Rightarrow> 'm) \<Rightarrow> ('m \<Rightarrow> string) \<Rightarrow> 'm obj \<Rightarrow> bool" where
  "well_keyed sanitise ident ms \<longleftrightarrow>
     distinct (map fst ms) \<and> (\<forall>(k, m) \<in> set ms. ident m = k \<and> sanitise m = m)"

lemma well_keyed_get: "well_keyed san ident ms \<Longrightarrow> obj_get ms k = Some m \<Longrightarrow> ident m = k \<and> san m = m"
  by (auto simp: well_keyed_def dest!: map_of_SomeD)

lemma well_keyed_in: "well_keyed san ident ms \<Longrightarrow> (k, m) \<in> set ms \<longleftrightarrow> obj_get ms k = Some m"
  by (simp add: well_keyed_def)

lemma well_keyed_values:
  "well_keyed san ident ms \<Longrightarrow> m \<in> set (js_values ms) \<longleftrightarrow> obj_get ms (ident m) = Some m"
  by (force simp: well_keyed_def)

lemma well_keyed_Nil [simp]: "well_keyed san ident []"
  by (simp add: well_keyed_def)

lemma well_keyed_set:
  "well_keyed san ident ms \<Longrightarrow> ident m = k \<Longrightarrow> san m = m \<Longrightarrow> well_keyed san ident (obj_set k m ms)"
  by (auto simp: well_keyed_def in_set_obj_set distinct_update split: if_splits)

lemma well_keyed_set_all:
  "well_keyed san ident ms \<Longrightarrow> \<forall>(k, m) \<in> set es. ident m = k \<and> san m = m \<Longrightarrow>
     well_keyed san ident (obj_set_all es ms)"
proof (induction es ms rule: obj_set_all.induct)
  case (2 k v es ms)
  then show ?case by (auto intro: well_keyed_set)
qed simp

text \<open>
  The interface between a kind of message and the reducers: sanitising twice is sanitising once,
  and it keeps the identifier and the scope key under which messages are stored and compared.
\<close>

locale keyed_sanitiser =
  fixes sanitise :: "'m \<Rightarrow> 'm"
    and ident :: "'m \<Rightarrow> string"
    and voter_of :: "'m \<Rightarrow> string"
    and scope_of :: "'m \<Rightarrow> ballot_scope option"
  assumes sanitise_idem: "sanitise (sanitise m) = sanitise m"
    and ident_sanitise: "ident (sanitise m) = ident m"
    and voter_sanitise: "voter_of (sanitise m) = voter_of m"
    and scope_sanitise: "ballotScopeKey (scope_of (sanitise m)) = ballotScopeKey (scope_of m)"
begin

lemma rekeyed_well_keyed: "well_keyed sanitise ident (rekeyed sanitise ident ms)"
  unfolding rekeyed_def from_entries_def
  by (rule well_keyed_set_all) (auto simp: sanitise_idem)

lemma rekeyed_get:
  assumes "well_keyed sanitise ident ms"
  shows "obj_get (rekeyed sanitise ident ms) k = obj_get ms k"
proof -
  have "map (\<lambda>m. (ident (sanitise m), sanitise m)) (js_values ms) = js_entries ms"
    using assms unfolding well_keyed_def js_values_def map_map
    by (intro map_idI) (auto simp: case_prod_beta)
  then have "obj_get (rekeyed sanitise ident ms) k = obj_get (obj_set_all (js_entries ms) []) k"
    by (simp add: rekeyed_def from_entries_def)
  also have "\<dots> = obj_get ms k"
  proof (cases "obj_get ms k")
    case None
    then have "k \<notin> fst ` set (js_entries ms)" by (simp add: map_of_eq_None_iff)
    with None show ?thesis by (simp add: obj_get_set_all_notin)
  next
    case (Some m)
    then have "(k, m) \<in> set (js_entries ms)" using assms by (simp add: well_keyed_in)
    moreover have "distinct (map fst (js_entries ms))"
      using assms by (intro distinct_js_entries) (simp add: well_keyed_def)
    ultimately show ?thesis using Some by (simp add: obj_get_set_all_in)
  qed
  finally show ?thesis .
qed

lemma sanitised_values_get:
  assumes "distinct (map fst ms)"
  shows "obj_get (sanitised_values sanitise ms) k = map_option sanitise (obj_get ms k)"
proof -
  let ?es = "map (\<lambda>(k, m). (k, sanitise m)) (js_entries ms)"
  have fsts: "map fst ?es = map fst (js_entries ms)" by (simp add: case_prod_beta)
  have d: "distinct (map fst ?es)" unfolding fsts using assms by (rule distinct_js_entries)
  show ?thesis
  proof (cases "obj_get ms k")
    case None
    then have "k \<notin> fst ` set ?es" by (auto simp: map_of_eq_None_iff image_image case_prod_beta)
    with None show ?thesis by (simp add: sanitised_values_def from_entries_def obj_get_set_all_notin)
  next
    case (Some m)
    then have "(k, sanitise m) \<in> set ?es" using assms by (force dest: map_of_SomeD)
    with Some d show ?thesis
      by (simp add: sanitised_values_def from_entries_def obj_get_set_all_in)
  qed
qed

lemma distinct_sanitised_values: "distinct (map fst (sanitised_values sanitise ms))"
  by (simp add: sanitised_values_def)

lemma sanitised_values_keyed:
  assumes "well_keyed sanitise key ms"
  shows "obj_get (sanitised_values sanitise ms) = obj_get ms"
    and "well_keyed sanitise key (sanitised_values sanitise ms)"
proof -
  have d: "distinct (map fst ms)" using assms by (simp add: well_keyed_def)
  show get: "obj_get (sanitised_values sanitise ms) = obj_get ms"
  proof
    fix k
    show "obj_get (sanitised_values sanitise ms) k = obj_get ms k"
      using well_keyed_get [OF assms, of k] sanitised_values_get [OF d, of k] by (cases "obj_get ms k") auto
  qed
  show "well_keyed sanitise key (sanitised_values sanitise ms)"
    unfolding well_keyed_def
  proof (intro conjI ballI distinct_sanitised_values)
    fix e
    assume "e \<in> set (sanitised_values sanitise ms)"
    then have "obj_get (sanitised_values sanitise ms) (fst e) = Some (snd e)"
      using distinct_sanitised_values by simp
    then show "case e of (k, m) \<Rightarrow> key m = k \<and> sanitise m = m"
      using get well_keyed_get [OF assms] by (auto simp: case_prod_beta)
  qed
qed

text \<open>One message per voter and scope key.\<close>

definition one_per_scope :: "'m obj \<Rightarrow> bool" where
  "one_per_scope ms \<longleftrightarrow> (\<forall>k l m n. obj_get ms k = Some m \<and> obj_get ms l = Some n
     \<and> voter_of m = voter_of n \<and> sameBallotScope (scope_of m) (scope_of n) \<longrightarrow> k = l)"

definition find_scope :: "'m obj \<Rightarrow> string \<Rightarrow> ballot_scope option \<Rightarrow> 'm option" where
  "find_scope ms npub scope =
     List.find (\<lambda>m. voter_of m = npub \<and> sameBallotScope (scope_of m) scope) (js_values ms)"

lemma find_scope_None:
  assumes "find_scope ms npub scope = None" "obj_get ms k = Some m"
  shows "\<not> (voter_of m = npub \<and> sameBallotScope (scope_of m) scope)"
proof -
  have "m \<in> set (js_values ms)" using assms(2) by (force dest: map_of_SomeD)
  with assms(1) show ?thesis unfolding find_scope_def find_None_iff by blast
qed

lemma one_per_scope_unique:
  "one_per_scope ms \<Longrightarrow> obj_get ms k = Some m \<Longrightarrow> obj_get ms l = Some n \<Longrightarrow> voter_of m = voter_of n
     \<Longrightarrow> sameBallotScope (scope_of m) (scope_of n) \<Longrightarrow> k = l"
  unfolding one_per_scope_def by blast

lemma one_per_scope_update:
  assumes one: "one_per_scope ms"
    and other: "\<And>l n. obj_get ms l = Some n \<Longrightarrow> l \<noteq> k \<Longrightarrow>
      \<not> (voter_of n = voter_of m \<and> sameBallotScope (scope_of n) (scope_of m))"
  shows "one_per_scope (obj_set k m ms)"
  unfolding one_per_scope_def
proof (intro allI impI, elim conjE)
  fix k' l' m' n'
  assume A: "obj_get (obj_set k m ms) k' = Some m'" "obj_get (obj_set k m ms) l' = Some n'"
    "voter_of m' = voter_of n'" "sameBallotScope (scope_of m') (scope_of n')"
  consider "k' = k" "l' = k" | "k' = k" "l' \<noteq> k" | "k' \<noteq> k" "l' = k" | "k' \<noteq> k" "l' \<noteq> k" by blast
  then show "k' = l'"
  proof cases
    case 2
    with A other [of l' n'] show ?thesis by (simp add: sameBallotScope_def)
  next
    case 3
    with A other [of k' m'] show ?thesis by (simp add: sameBallotScope_def)
  next
    case 4
    with A have "obj_get ms k' = Some m'" "obj_get ms l' = Some n'" by simp_all
    with A one_per_scope_unique [OF one] show ?thesis by blast
  qed simp
qed

lemma one_per_scope_insert:
  assumes "one_per_scope ms" "find_scope ms (voter_of m) (scope_of m) = None"
  shows "one_per_scope (obj_set k m ms)"
  using assms(1) by (rule one_per_scope_update) (use find_scope_None [OF assms(2)] in blast)

lemma one_per_scope_replace:
  assumes "one_per_scope ms" "obj_get ms k = Some m'" "voter_of m = voter_of m'"
    and "sameBallotScope (scope_of m) (scope_of m')"
  shows "one_per_scope (obj_set k m ms)"
  using assms(1)
proof (rule one_per_scope_update)
  fix l n assume "obj_get ms l = Some n" "l \<noteq> k"
  with one_per_scope_unique [OF assms(1) this(1) assms(2)] assms(3,4)
  show "\<not> (voter_of n = voter_of m \<and> sameBallotScope (scope_of n) (scope_of m))"
    by (auto simp: sameBallotScope_def)
qed

lemma one_per_scope_get: "obj_get ms = obj_get ns \<Longrightarrow> one_per_scope ms = one_per_scope ns"
  by (simp add: one_per_scope_def)

end

lemma trimmed_lower_or_null_idem [simp]: "trimmed_lower_or_null (trimmed_lower_or_null f) = trimmed_lower_or_null f"
  by (cases f) (simp_all add: js_trim_lower)

lemma sanitise_scope_field_idem [simp]: "sanitise_scope_field (sanitise_scope_field f) = sanitise_scope_field f"
proof (cases f)
  case (Present s)
  then show ?thesis
    using sanitiseBallotScope_idem [of "Some s"] by (cases "sanitiseBallotScope (Some s)") auto
qed simp_all

lemma nullish_field_of_option [simp]: "nullish (field_of_option v) = v"
  by (cases v) simp_all

lemma ballotScopeKey_sanitise_field [simp]:
  "ballotScopeKey (nullish (sanitise_scope_field f)) = ballotScopeKey (nullish f)"
  by (cases f) simp_all

interpretation requests: keyed_sanitiser sanitiseBlindBallotRequest rq_requestId rq_invitedNpub request_scope
  by unfold_locales (simp_all add: sanitiseBlindBallotRequest_def request_scope_def)

interpretation issuances: keyed_sanitiser sanitiseBlindBallotIssuance is_requestId is_invitedNpub issuance_scope
  by unfold_locales (simp_all add: sanitiseBlindBallotIssuance_def issuance_scope_def)

lemma findPendingBlindRequestByNpubAndScope_find_scope:
  "findPendingBlindRequestByNpubAndScope = requests.find_scope"
  by (simp add: fun_eq_iff findPendingBlindRequestByNpubAndScope_def requests.find_scope_def)

lemma findIssuanceByNpubAndScope_find_scope: "findIssuanceByNpubAndScope = issuances.find_scope"
  by (simp add: fun_eq_iff findIssuanceByNpubAndScope_def issuances.find_scope_def)

lemma sameBallotScope_simps [simp]:
  "sameBallotScope s s" "sameBallotScope (sanitiseBallotScope s) t = sameBallotScope s t"
  "sameBallotScope s (sanitiseBallotScope t) = sameBallotScope s t"
  by (simp_all add: sameBallotScope_def)

lemma sameBlindBallotRequest_refl [simp]: "sameBlindBallotRequest r r"
  by (simp add: sameBlindBallotRequest_def)

section \<open>Facts about submissions\<close>

lemma submissionCredentialBundle_nonempty [simp]: "submissionCredentialBundle su \<noteq> []"
  by (auto simp: submissionCredentialBundle_def split: option.splits list.splits)

lemma set_ballotSubmissionDuplicateKeys:
  "set (ballotSubmissionDuplicateKeys su) \<subseteq> set (ballotSubmissionQuestionKeys su)"
  by (auto simp: ballotSubmissionDuplicateKeys_def ballotSubmissionQuestionKeys_def)

lemma nonblank_strings_iff:
  "nonblank_strings v \<longleftrightarrow> (\<exists>ss. v = jstrings ss \<and> ss \<noteq> [] \<and> (\<forall>s\<in>set ss. js_trim s \<noteq> []))"
proof
  assume nb: "nonblank_strings v"
  then obtain vs where v: "v = JArr vs" and ne: "vs \<noteq> []"
    and vs: "list_all (\<lambda>entry. case entry of JStr s \<Rightarrow> js_trim s \<noteq> [] | _ \<Rightarrow> False) vs"
    by (cases v) (auto simp: nonblank_strings_def)
  have "vs = map JStr (string_items vs)"
    using vs by (induction vs rule: string_items.induct) auto
  moreover have "\<forall>s\<in>set (string_items vs). js_trim s \<noteq> []"
    using vs by (auto simp: set_string_items list_all_iff)
  ultimately show "\<exists>ss. v = jstrings ss \<and> ss \<noteq> [] \<and> (\<forall>s\<in>set ss. js_trim s \<noteq> [])"
    using v ne by (intro exI [of _ "string_items vs"]) (auto simp: jstrings_def)
qed (auto simp: nonblank_strings_def jstrings_def list_all_iff)

text \<open>What the schema accepts, answer by answer.\<close>

definition answer_schema :: "ballot_answer \<Rightarrow> bool" where
  "answer_schema answer = (js_trim (qa_questionId answer) \<noteq> [] \<and>
     ((qa_type answer = ''yes_no'' \<and> qa_answer answer \<in> {JStr ''yes'', JStr ''no''})
      \<or> (qa_type answer = ''multiple_choice'' \<and> nonblank_strings (qa_answer answer))
      \<or> (qa_type answer = ''rank'' \<and> nonblank_strings (qa_answer answer)
          \<and> distinct (array_or_empty (qa_answer answer)))
      \<or> (qa_type answer = ''text'' \<and> is_JStr (qa_answer answer))))"

lemma responses_schema_iff:
  "responses_schema seen as \<longleftrightarrow>
     list_all answer_schema as \<and> distinct (map qa_questionId as) \<and> set (map qa_questionId as) \<inter> set seen = {}"
proof (induction seen as rule: responses_schema.induct)
  case (2 seen a as)
  have step: "responses_schema seen (a # as) \<longleftrightarrow>
      answer_schema a \<and> qa_questionId a \<notin> set seen \<and> responses_schema (qa_questionId a # seen) as"
    by (simp add: answer_schema_def)
  show ?case
  proof (cases "answer_schema a \<and> qa_questionId a \<notin> set seen")
    case True
    then have "responses_schema (qa_questionId a # seen) as \<longleftrightarrow> list_all answer_schema as
        \<and> distinct (map qa_questionId as) \<and> set (map qa_questionId as) \<inter> set (qa_questionId a # seen) = {}"
      by (intro "2.IH") (auto simp: answer_schema_def)
    with True show ?thesis unfolding step by auto
  next
    case False
    then show ?thesis unfolding step by auto
  qed
qed simp

lemma validateResponsesSchema_iff:
  "validateResponsesSchema as \<longleftrightarrow> list_all answer_schema as \<and> distinct (map qa_questionId as)"
  by (simp add: validateResponsesSchema_def responses_schema_iff)

end
