(* ===== verification/Reducer.thy ===== *)
theory Reducer
  imports OptionA_Types
begin

text \<open>
  The contract that both reducers keep (\<open>reduceVoterEvent\<close> and \<open>reduceCoordinatorEvent\<close> of
  \<open>web/src/questionnaireOptionA.ts\<close>): a refused event leaves the state as it was and names an
  error, an accepted one keeps the invariant.  What follows for a whole history of events is proved
  once, in the locale.
\<close>

fun run_events :: "('ev \<Rightarrow> 's \<Rightarrow> ('s, 'e) reducer_result) \<Rightarrow> 'ev list \<Rightarrow> 's \<Rightarrow> 's" where
  "run_events reduce [] s = s"
| "run_events reduce (e # es) s = run_events reduce es (rr_state (reduce e s))"

fun accepted_events :: "('ev \<Rightarrow> 's \<Rightarrow> ('s, 'e) reducer_result) \<Rightarrow> 'ev list \<Rightarrow> 's \<Rightarrow> 'ev list" where
  "accepted_events reduce [] s = []"
| "accepted_events reduce (e # es) s =
     (if rr_ok (reduce e s) then e # accepted_events reduce es (rr_state (reduce e s))
      else accepted_events reduce es s)"

lemma run_events_append: "run_events reduce (es @ fs) s = run_events reduce fs (run_events reduce es s)"
  by (induction es arbitrary: s) auto

locale event_reducer =
  fixes reduce :: "'ev \<Rightarrow> 's \<Rightarrow> ('s, 'e) reducer_result"
    and inv :: "'s \<Rightarrow> bool"
  assumes refused_keeps: "\<not> rr_ok (reduce e s) \<Longrightarrow> rr_state (reduce e s) = s"
    and error_iff_refused: "rr_error (reduce e s) = None \<longleftrightarrow> rr_ok (reduce e s)"
    and accepted_keeps_inv: "inv s \<Longrightarrow> rr_ok (reduce e s) \<Longrightarrow> inv (rr_state (reduce e s))"
begin

lemma inv_step: "inv s \<Longrightarrow> inv (rr_state (reduce e s))"
  using accepted_keeps_inv refused_keeps by (cases "rr_ok (reduce e s)") auto

lemma run_inv: "inv s \<Longrightarrow> inv (run_events reduce es s)"
  by (induction es arbitrary: s) (auto intro: inv_step)

lemma run_accepted_events: "run_events reduce (accepted_events reduce es s) s = run_events reduce es s"
  by (induction es arbitrary: s) (simp_all add: refused_keeps)

lemma error_keeps_state: "rr_error (reduce e s) = Some err \<Longrightarrow> rr_state (reduce e s) = s"
  using error_iff_refused [of e s] refused_keeps [of e s] by auto

end

text \<open>A reducer whose states only ever advance in a preorder.\<close>

locale progressing_reducer = event_reducer reduce inv
  for reduce :: "'ev \<Rightarrow> 's \<Rightarrow> ('s, 'e) reducer_result" and inv :: "'s \<Rightarrow> bool" +
  fixes advances :: "'s \<Rightarrow> 's \<Rightarrow> bool"
  assumes advances_refl: "advances s s"
    and advances_trans: "advances s t \<Longrightarrow> advances t u \<Longrightarrow> advances s u"
    and accepted_advances: "inv s \<Longrightarrow> rr_ok (reduce e s) \<Longrightarrow> advances s (rr_state (reduce e s))"
begin

lemma step_advances: "inv s \<Longrightarrow> advances s (rr_state (reduce e s))"
  using accepted_advances refused_keeps advances_refl by (cases "rr_ok (reduce e s)") auto

lemma run_advances: "inv s \<Longrightarrow> advances s (run_events reduce es s)"
proof (induction es arbitrary: s)
  case (Cons e es)
  then show ?case
    using advances_trans [OF step_advances [OF Cons.prems] Cons.IH [OF inv_step [OF Cons.prems]]] by simp
qed (simp add: advances_refl)

end

end
