(* ===== verification/Coordinator.thy ===== *)
theory Coordinator
  imports OptionA_Messages Reducer
begin

text \<open>
  The coordinator's state machine (\<open>reduceCoordinatorEvent\<close>, \<open>restoreCoordinatorElectionState\<close>,
  \<open>deriveCoordinatorUiFlags\<close> and \<open>countAcceptedUniqueVoters\<close> of
  \<open>web/src/questionnaireOptionA.ts\<close>).  Every branch is a definition over the state as it was and
  its sanitised clone.  The source writes whitelist entries and bearer invites in place, so that
  the state passed in shares the change; the model returns the new state only.
\<close>

section \<open>The clone\<close>

definition cloneCoordinatorState :: "host \<Rightarrow> coordinator_state \<Rightarrow> coordinator_state" where
  "cloneCoordinatorState h state = state\<lparr>
     co_paperBallotAdmissions := sanitisePaperBallotAdmissions h (Some (co_paperBallotAdmissions state)),
     co_pendingBlindRequests := sanitiseBlindBallotRequestRecord (co_pendingBlindRequests state),
     co_issuedBlindResponses := sanitiseBlindBallotIssuanceRecord (co_issuedBlindResponses state)\<rparr>"

type_synonym coordinator_result = "(coordinator_state, coordinator_error) reducer_result"

definition election_id :: "coordinator_state \<Rightarrow> string" where
  "election_id s = es_electionId (co_election s)"

definition put_entry :: "string \<Rightarrow> whitelist_entry \<Rightarrow> coordinator_state \<Rightarrow> coordinator_state" where
  "put_entry npub entry s = s\<lparr>co_whitelist := obj_set npub entry (co_whitelist s)\<rparr>"

definition raise_claim :: "claim_state \<Rightarrow> whitelist_entry \<Rightarrow> whitelist_entry" where
  "raise_claim c entry = entry\<lparr>we_claimState := maxClaimState (we_claimState entry) c\<rparr>"

section \<open>The branches of the reducer\<close>

definition coordinator_whitelist_added ::
  "coordinator_state \<Rightarrow> coordinator_state \<Rightarrow> whitelist_entry \<Rightarrow> string \<Rightarrow> coordinator_result" where
  [step_defs]: "coordinator_whitelist_added state next entry now =
     (if we_electionId entry \<noteq> election_id next then refuse state CE_election_id_mismatch
      else case obj_get (co_whitelist next) (we_invitedNpub entry) of
        Some _ \<Rightarrow> accept state
      | None \<Rightarrow> accept ((put_entry (we_invitedNpub entry) (entry\<lparr>we_claimState := Whitelisted\<rparr>) next)
                 \<lparr>co_lastUpdatedAt := now\<rparr>))"

definition coordinator_invite_sent ::
  "coordinator_state \<Rightarrow> coordinator_state \<Rightarrow> string \<Rightarrow> string \<Rightarrow> string \<Rightarrow> string \<Rightarrow> coordinator_result" where
  [step_defs]: "coordinator_invite_sent state next electionId invitedNpub inviteEventId sentAt =
     (if electionId \<noteq> election_id next then refuse state CE_election_id_mismatch
      else case obj_get (co_whitelist next) invitedNpub of
        None \<Rightarrow> refuse state CE_whitelist_missing
      | Some entry \<Rightarrow> accept ((put_entry invitedNpub (raise_claim Invited
            (entry\<lparr>we_inviteEventId := Some inviteEventId, we_inviteSentAt := Some sentAt\<rparr>)) next)
          \<lparr>co_lastUpdatedAt := sentAt\<rparr>))"

definition coordinator_login_verified ::
  "coordinator_state \<Rightarrow> coordinator_state \<Rightarrow> string \<Rightarrow> string \<Rightarrow> string \<Rightarrow> coordinator_result" where
  [step_defs]: "coordinator_login_verified state next electionId invitedNpub now =
     (if electionId \<noteq> election_id next then refuse state CE_election_id_mismatch
      else case obj_get (co_whitelist next) invitedNpub of
        None \<Rightarrow> refuse state CE_not_whitelisted
      | Some entry \<Rightarrow>
          if we_claimState entry = Whitelisted \<or> we_claimState entry = Invited
          then accept ((put_entry invitedNpub (entry\<lparr>we_claimState := Claimed\<rparr>) next)\<lparr>co_lastUpdatedAt := now\<rparr>)
          else accept next)"

definition coordinator_request_received ::
  "coordinator_state \<Rightarrow> coordinator_state \<Rightarrow> blind_request \<Rightarrow> coordinator_result" where
  [step_defs]: "coordinator_request_received state next raw =
     (let request = sanitiseBlindBallotRequest raw
      in if rq_electionId request \<noteq> election_id next then refuse state CE_election_id_mismatch
      else if es_state (co_election next) = Closed \<or> es_state (co_election next) = Counted
        then refuse state CE_election_not_open
      else case obj_get (co_whitelist next) (rq_invitedNpub request) of
        None \<Rightarrow> refuse state CE_not_whitelisted
      | Some entry \<Rightarrow>
          if CLAIM_STATE_ORDER (we_claimState entry) < CLAIM_STATE_ORDER Claimed
          then refuse state CE_state_transition_rejected
          else case obj_get (co_pendingBlindRequests next) (rq_requestId request) of
            Some existing \<Rightarrow>
              (if \<not> sameBlindBallotRequest existing request then refuse state CE_issuance_conflict
               else accept (next\<lparr>
                 co_pendingBlindRequests := obj_set (rq_requestId request)
                   (existing\<lparr>rq_lastSentAt := (case nullish (rq_lastSentAt request) of
                        Some t \<Rightarrow> Present t | None \<Rightarrow> null_if_nullish (rq_lastSentAt existing))\<rparr>)
                   (co_pendingBlindRequests next),
                 co_lastUpdatedAt := (case nullish (rq_lastSentAt request) of
                        Some t \<Rightarrow> t | None \<Rightarrow> rq_createdAt request)\<rparr>))
          | None \<Rightarrow>
              (case findPendingBlindRequestByNpubAndScope (co_pendingBlindRequests next)
                      (rq_invitedNpub request) (request_scope request) of
                Some existingScoped \<Rightarrow>
                  (if sameBlindBallotRequest existingScoped request then accept next
                   else refuse state CE_already_issued)
              | None \<Rightarrow>
                  (if findIssuanceByNpubAndScope (co_issuedBlindResponses next)
                        (rq_invitedNpub request) (request_scope request) \<noteq> None
                   then refuse state CE_already_issued
                   else accept ((put_entry (rq_invitedNpub request) (raise_claim BlindRequestReceived entry) next)\<lparr>
                     co_pendingBlindRequests := obj_set (rq_requestId request) request
                       (co_pendingBlindRequests next),
                     co_lastUpdatedAt := rq_createdAt request\<rparr>))))"

definition coordinator_signature_issued ::
  "coordinator_state \<Rightarrow> coordinator_state \<Rightarrow> blind_issuance \<Rightarrow> coordinator_result" where
  [step_defs]: "coordinator_signature_issued state next raw =
     (let issuance = sanitiseBlindBallotIssuance raw
      in if is_electionId issuance \<noteq> election_id next then refuse state CE_election_id_mismatch
      else case obj_get (co_whitelist next) (is_invitedNpub issuance) of
        None \<Rightarrow> refuse state CE_not_whitelisted
      | Some entry \<Rightarrow>
         (case obj_get (co_pendingBlindRequests next) (is_requestId issuance) of
            None \<Rightarrow> refuse state CE_request_missing
          | Some request \<Rightarrow>
              if rq_blindSigningKeyId request \<noteq> is_blindSigningKeyId issuance
              then refuse state CE_issuance_conflict
              else case obj_get (co_issuedBlindResponses next) (is_requestId issuance) of
                Some existing \<Rightarrow>
                  (if is_issuanceId existing = is_issuanceId issuance
                      \<and> is_blindSignature existing = is_blindSignature issuance
                   then accept next else refuse state CE_issuance_conflict)
              | None \<Rightarrow>
                  if findIssuanceByNpubAndScope (co_issuedBlindResponses next)
                       (is_invitedNpub issuance) (issuance_scope issuance) \<noteq> None
                  then refuse state CE_already_issued
                  else accept ((put_entry (is_invitedNpub issuance)
                      ((raise_claim BlindSignatureIssued entry)\<lparr>we_issuanceId := Some (is_issuanceId issuance)\<rparr>)
                      next)\<lparr>
                    co_issuedBlindResponses := obj_set (is_requestId issuance) issuance
                      (co_issuedBlindResponses next),
                    co_lastUpdatedAt := is_issuedAt issuance\<rparr>)))"

definition expected_key_id :: "coordinator_state \<Rightarrow> string" where
  "expected_key_id s = (case es_blindSigningPublicKey (co_election s) of
     Some key \<Rightarrow> js_trim (bk_keyId key) | None \<Rightarrow> [])"

definition coordinator_submission_received ::
  "coordinator_state \<Rightarrow> coordinator_state \<Rightarrow> ballot_submission \<Rightarrow> coordinator_result" where
  [step_defs]: "coordinator_submission_received state next submission =
     (let expectedKeyId = expected_key_id next
      in if su_electionId submission \<noteq> election_id next then refuse state CE_election_id_mismatch
      else if es_state (co_election next) \<noteq> Open then refuse state CE_election_not_open
      else if expectedKeyId \<noteq> [] \<and> su_blindSigningKeyId submission \<noteq> expectedKeyId
        then refuse state CE_invalid_credential
      else if \<not> validateResponsesSchema (bl_responses (su_payload submission))
        then refuse state CE_schema_invalid
      else if list_ex (\<lambda>proof. expectedKeyId \<noteq> [] \<and> cp_blindSigningKeyId proof \<noteq> expectedKeyId)
                (submissionCredentialBundle submission)
        then refuse state CE_invalid_credential
      else accept (next\<lparr>
        co_receivedSubmissions := obj_set (su_submissionId submission) submission (co_receivedSubmissions next),
        co_lastUpdatedAt := su_submittedAt submission\<rparr>))"

text \<open>A nullifier is taken when another submission, with an identifier that is not empty, holds it.\<close>

definition nullifier_taken :: "coordinator_state \<Rightarrow> string \<Rightarrow> string \<Rightarrow> bool" where
  "nullifier_taken s submissionId nullifier = (case obj_get (co_acceptedNullifiers s) nullifier of
     None \<Rightarrow> False | Some holder \<Rightarrow> holder \<noteq> [] \<and> holder \<noteq> submissionId)"

definition shares_token :: "ballot_submission \<Rightarrow> ballot_submission \<Rightarrow> bool" where
  "shares_token a b = list_ex (\<lambda>proof. list_ex (\<lambda>existingProof.
       cp_tokenCommitment existingProof = cp_tokenCommitment proof
       \<and> sameBallotScope (cp_ballotScope existingProof) (cp_ballotScope proof))
     (submissionCredentialBundle b)) (submissionCredentialBundle a)"

definition accepted_for_token :: "coordinator_state \<Rightarrow> ballot_submission \<Rightarrow> bool" where
  "accepted_for_token s submission = list_ex (\<lambda>(submissionId, acceptedResult).
     ac_accepted acceptedResult \<and> submissionId \<noteq> su_submissionId submission
     \<and> (case obj_get (co_receivedSubmissions s) submissionId of
          None \<Rightarrow> False | Some existing \<Rightarrow> shares_token submission existing))
     (js_entries (co_acceptanceResults s))"

definition record_nullifiers :: "ballot_submission \<Rightarrow> string \<Rightarrow> string obj \<Rightarrow> string obj" where
  "record_nullifiers submission submissionId nullifiers =
     obj_set_all (map (\<lambda>proof. (cp_nullifier proof, submissionId)) (submissionCredentialBundle submission))
       nullifiers"

definition coordinator_ballot_accepted ::
  "coordinator_state \<Rightarrow> coordinator_state \<Rightarrow> acceptance_result \<Rightarrow> coordinator_result" where
  [step_defs]: "coordinator_ballot_accepted state next result =
     (if ac_electionId result \<noteq> election_id next then refuse state CE_election_id_mismatch
      else case obj_get (co_receivedSubmissions next) (ac_submissionId result) of
        None \<Rightarrow> refuse state CE_submission_missing
      | Some submission \<Rightarrow>
          if (case obj_get (co_acceptanceResults next) (su_submissionId submission) of
                None \<Rightarrow> False | Some existing \<Rightarrow> ac_accepted existing)
          then accept state
          else if list_ex (\<lambda>proof. nullifier_taken next (su_submissionId submission) (cp_nullifier proof))
                    (submissionCredentialBundle submission)
          then refuse state CE_duplicate_nullifier
          else if accepted_for_token next submission then refuse state CE_already_voted
          else accept (next\<lparr>
            co_acceptedNullifiers := record_nullifiers submission (su_submissionId submission)
              (co_acceptedNullifiers next),
            co_acceptanceResults := obj_set (su_submissionId submission) result (co_acceptanceResults next),
            co_lastUpdatedAt := ac_decidedAt result\<rparr>))"

definition coordinator_ballot_rejected ::
  "coordinator_state \<Rightarrow> coordinator_state \<Rightarrow> acceptance_result \<Rightarrow> coordinator_result" where
  [step_defs]: "coordinator_ballot_rejected state next result =
     (if ac_electionId result \<noteq> election_id next then refuse state CE_election_id_mismatch
      else case obj_get (co_receivedSubmissions next) (ac_submissionId result) of
        None \<Rightarrow> refuse state CE_submission_missing
      | Some submission \<Rightarrow> accept (next\<lparr>
            co_acceptanceResults := obj_set (su_submissionId submission) result (co_acceptanceResults next),
            co_lastUpdatedAt := ac_decidedAt result\<rparr>))"

fun reduceCoordinatorEvent :: "host \<Rightarrow> coordinator_state \<Rightarrow> coordinator_event \<Rightarrow> string \<Rightarrow> coordinator_result" where
  "reduceCoordinatorEvent h s (WHITELIST_ADDED entry) now =
     coordinator_whitelist_added s (cloneCoordinatorState h s) entry now"
| "reduceCoordinatorEvent h s (INVITE_SENT electionId npub eventId sentAt) now =
     coordinator_invite_sent s (cloneCoordinatorState h s) electionId npub eventId sentAt"
| "reduceCoordinatorEvent h s (COORDINATOR_LOGIN_VERIFIED electionId npub) now =
     coordinator_login_verified s (cloneCoordinatorState h s) electionId npub now"
| "reduceCoordinatorEvent h s (BLIND_REQUEST_RECEIVED request) now =
     coordinator_request_received s (cloneCoordinatorState h s) request"
| "reduceCoordinatorEvent h s (BLIND_SIGNATURE_ISSUED issuance) now =
     coordinator_signature_issued s (cloneCoordinatorState h s) issuance"
| "reduceCoordinatorEvent h s (BALLOT_SUBMISSION_RECEIVED submission) now =
     coordinator_submission_received s (cloneCoordinatorState h s) submission"
| "reduceCoordinatorEvent h s (BALLOT_ACCEPTED result) now =
     coordinator_ballot_accepted s (cloneCoordinatorState h s) result"
| "reduceCoordinatorEvent h s (BALLOT_REJECTED result) now =
     coordinator_ballot_rejected s (cloneCoordinatorState h s) result"

section \<open>Restoring a persisted state\<close>

definition restored_nullifiers :: "coordinator_state \<Rightarrow> string obj" where
  "restored_nullifiers s = fold (\<lambda>(submissionId, result) nullifiers.
       if \<not> ac_accepted result then nullifiers
       else case obj_get (co_receivedSubmissions s) submissionId of
         None \<Rightarrow> nullifiers
       | Some submission \<Rightarrow> record_nullifiers submission submissionId nullifiers)
     (js_entries (co_acceptanceResults s)) (co_acceptedNullifiers s)"

definition restored_request_claims :: "coordinator_state \<Rightarrow> whitelist_entry obj" where
  "restored_request_claims s = fold (\<lambda>request whitelist.
       case obj_get whitelist (rq_invitedNpub request) of
         None \<Rightarrow> whitelist
       | Some entry \<Rightarrow> obj_set (rq_invitedNpub request) (raise_claim BlindRequestReceived entry) whitelist)
     (js_values (co_pendingBlindRequests s)) (co_whitelist s)"

text \<open>\<open>Math.max(1, Math.floor(n))\<close>, also for a count that is not finite.\<close>

fun max_one_floor :: "jsnum \<Rightarrow> jsnum" where
  "max_one_floor (Fin r) = num_int (max 1 \<lfloor>r\<rfloor>)"
| "max_one_floor PosInf = PosInf"
| "max_one_floor NegInf = num_int 1"
| "max_one_floor NaN = NaN"

definition redeem_bearer_invite :: "whitelist_entry \<Rightarrow> bearer_invite \<Rightarrow> bearer_invite" where
  "redeem_bearer_invite entry invite =
     (let redeemedNpubs = js_set ((case bi_redeemedNpubs invite of Some ns \<Rightarrow> ns | None \<Rightarrow> [])
            @ (case bi_redeemedNpub invite of Some n \<Rightarrow> if n \<noteq> [] then [n] else [] | None \<Rightarrow> [])
            @ [we_invitedNpub entry]);
          maxRedemptions = max_one_floor (case bi_maxRedemptions invite of Some n \<Rightarrow> n | None \<Rightarrow> num_int 1)
      in invite\<lparr>
           bi_redeemedNpubs := Some redeemedNpubs,
           bi_maxRedemptions := Some maxRedemptions,
           bi_state := (if num_le maxRedemptions (num_int (int (length redeemedNpubs)))
                        then BearerRedeemed else BearerAvailable),
           bi_redeemedNpub := (if maxRedemptions = num_int 1 then Some (we_invitedNpub entry) else None),
           bi_redeemedAt := Some (case we_inviteCodeRedeemedAt entry of Some t \<Rightarrow> t
             | None \<Rightarrow> (case bi_redeemedAt invite of Some t \<Rightarrow> t | None \<Rightarrow> we_addedAt entry))\<rparr>)"

definition redeem_for_entry :: "whitelist_entry \<Rightarrow> bearer_invite obj \<Rightarrow> bearer_invite obj" where
  "redeem_for_entry entry invites =
     (let inviteCodeHash = (case we_inviteCodeHash entry of Some c \<Rightarrow> js_lower (js_trim c) | None \<Rightarrow> [])
      in if inviteCodeHash = [] then invites
         else case List.find (\<lambda>(k, candidate). js_lower (js_trim (bi_codeHash candidate)) = inviteCodeHash)
                     (js_entries invites) of
           None \<Rightarrow> invites
         | Some (k, invite) \<Rightarrow> obj_set k (redeem_bearer_invite entry invite) invites)"

definition restore_entry :: "blind_issuance obj \<Rightarrow> whitelist_entry \<Rightarrow> whitelist_entry" where
  "restore_entry issued entry = (case findIssuanceByNpub issued (we_invitedNpub entry) of
     None \<Rightarrow> entry
   | Some issuance \<Rightarrow>
       (raise_claim BlindSignatureIssued entry)\<lparr>we_issuanceId := Some (is_issuanceId issuance)\<rparr>)"

text \<open>The records of the persisted state, overlaid with the canonical ones.\<close>

definition merged_records ::
  "host \<Rightarrow> coordinator_state \<Rightarrow> blind_request obj option \<Rightarrow> blind_issuance obj option
     \<Rightarrow> ballot_submission obj option \<Rightarrow> acceptance_result obj option \<Rightarrow> coordinator_state" where
  "merged_records h persisted canonicalRequests canonicalIssuances canonicalSubmissions canonicalAcceptance =
     (let cloned = cloneCoordinatorState h persisted
      in cloned\<lparr>
            co_pendingBlindRequests := obj_spread (co_pendingBlindRequests cloned)
              (sanitiseBlindBallotRequestRecord (case canonicalRequests of Some x \<Rightarrow> x | None \<Rightarrow> [])),
            co_issuedBlindResponses := obj_spread (co_issuedBlindResponses cloned)
              (sanitiseBlindBallotIssuanceRecord (case canonicalIssuances of Some x \<Rightarrow> x | None \<Rightarrow> [])),
            co_receivedSubmissions := obj_spread (co_receivedSubmissions cloned)
              (case canonicalSubmissions of Some x \<Rightarrow> x | None \<Rightarrow> []),
            co_acceptanceResults := obj_spread (co_acceptanceResults cloned)
              (case canonicalAcceptance of Some x \<Rightarrow> x | None \<Rightarrow> [])\<rparr>)"

definition restoreCoordinatorElectionState ::
  "host \<Rightarrow> coordinator_state \<Rightarrow> blind_request obj option \<Rightarrow> blind_issuance obj option
     \<Rightarrow> ballot_submission obj option \<Rightarrow> acceptance_result obj option \<Rightarrow> coordinator_state" where
  "restoreCoordinatorElectionState h persisted canonicalRequests canonicalIssuances
       canonicalSubmissions canonicalAcceptance =
     (let merged = merged_records h persisted canonicalRequests canonicalIssuances
            canonicalSubmissions canonicalAcceptance;
          claimed = merged\<lparr>co_acceptedNullifiers := restored_nullifiers merged,
                           co_whitelist := restored_request_claims merged\<rparr>
      in claimed\<lparr>
           co_bearerInviteCodes := fold redeem_for_entry (js_values (co_whitelist claimed))
             (co_bearerInviteCodes claimed),
           co_whitelist := map (\<lambda>(npub, entry). (npub, restore_entry (co_issuedBlindResponses claimed) entry))
             (co_whitelist claimed)\<rparr>)"

section \<open>Derived values\<close>

record coordinator_ui_flags =
  cf_canSendInvites :: bool
  cf_canIssueBlindResponses :: bool
  cf_canAcceptVotes :: bool
  cf_canPublishResults :: bool

definition deriveCoordinatorUiFlags :: "coordinator_state \<Rightarrow> coordinator_ui_flags" where
  "deriveCoordinatorUiFlags s =
     (let phase = es_state (co_election s)
      in \<lparr>cf_canSendInvites = (phase \<in> {Draft, Published, Open}),
          cf_canIssueBlindResponses = (phase \<in> {Draft, Published, Open}),
          cf_canAcceptVotes = (phase = Open),
          cf_canPublishResults = (phase \<in> {Closed, Counted})\<rparr>)"

definition buildCoordinatorStorageKeys :: "string \<Rightarrow> string \<Rightarrow> string list" where
  "buildCoordinatorStorageKeys npub electionId =
     (let prefix = ''app:auditable-voting:coordinator:'' @ npub @ '':'' @ electionId
      in map (\<lambda>part. prefix @ '':'' @ part)
        [''election'', ''whitelist'', ''bearerInviteCodes'', ''requests'', ''issuances'', ''submissions'',
         ''acceptance''])"

definition countAcceptedUniqueVoters :: "coordinator_state \<Rightarrow> nat" where
  "countAcceptedUniqueVoters s = length (filter ac_accepted (js_values (co_acceptanceResults s)))"

end
