(* ===== verification/Coordinator_Safety.thy ===== *)
theory Coordinator_Safety
  imports Coordinator
begin

text \<open>
  What every history of coordinator events keeps: requests and issuances stand under their request
  ids, one per voter and scope; every issuance answers a pending request signed with the same key,
  for a whitelisted voter; submissions have passed the schema.  Claim states only rise, and what
  was issued is never replaced.  \<open>reduceCoordinatorEvent\<close> is an instance of
  \<open>progressing_reducer\<close>.
\<close>

definition whitelisted :: "coordinator_state \<Rightarrow> string \<Rightarrow> bool" where
  "whitelisted s npub \<longleftrightarrow> obj_get (co_whitelist s) npub \<noteq> None"

definition pending_inv :: "coordinator_state \<Rightarrow> bool" where
  "pending_inv s \<longleftrightarrow>
     well_keyed sanitiseBlindBallotRequest rq_requestId (co_pendingBlindRequests s)
     \<and> requests.one_per_scope (co_pendingBlindRequests s)
     \<and> (\<forall>k r. obj_get (co_pendingBlindRequests s) k = Some r \<longrightarrow>
          rq_electionId r = election_id s \<and> whitelisted s (rq_invitedNpub r))"

definition issued_inv :: "coordinator_state \<Rightarrow> bool" where
  "issued_inv s \<longleftrightarrow>
     well_keyed sanitiseBlindBallotIssuance is_requestId (co_issuedBlindResponses s)
     \<and> issuances.one_per_scope (co_issuedBlindResponses s)
     \<and> (\<forall>k i. obj_get (co_issuedBlindResponses s) k = Some i \<longrightarrow>
          is_electionId i = election_id s \<and> whitelisted s (is_invitedNpub i)
          \<and> (\<exists>r. obj_get (co_pendingBlindRequests s) (is_requestId i) = Some r
                \<and> rq_blindSigningKeyId r = is_blindSigningKeyId i))"

definition received_inv :: "coordinator_state \<Rightarrow> bool" where
  "received_inv s \<longleftrightarrow>
     (\<forall>k su. obj_get (co_receivedSubmissions s) k = Some su \<longrightarrow>
        su_submissionId su = k \<and> su_electionId su = election_id s
        \<and> validateResponsesSchema (bl_responses (su_payload su)))
     \<and> distinct (map fst (co_acceptanceResults s))
     \<and> (\<forall>k res. obj_get (co_acceptanceResults s) k = Some res \<longrightarrow>
          obj_get (co_receivedSubmissions s) k \<noteq> None \<and> ac_electionId res = election_id s)"

definition coordinator_inv :: "coordinator_state \<Rightarrow> bool" where
  "coordinator_inv s \<longleftrightarrow> pending_inv s \<and> issued_inv s \<and> received_inv s"

definition claims_rise :: "whitelist_entry obj \<Rightarrow> whitelist_entry obj \<Rightarrow> bool" where
  "claims_rise w v \<longleftrightarrow> (\<forall>npub e. obj_get w npub = Some e \<longrightarrow>
     (case obj_get v npub of None \<Rightarrow> False | Some e' \<Rightarrow> we_claimState e \<le> we_claimState e'))"

definition coordinator_advances :: "coordinator_state \<Rightarrow> coordinator_state \<Rightarrow> bool" where
  "coordinator_advances s t \<longleftrightarrow>
     co_election t = co_election s
     \<and> claims_rise (co_whitelist s) (co_whitelist t)
     \<and> dom (obj_get (co_pendingBlindRequests s)) \<subseteq> dom (obj_get (co_pendingBlindRequests t))
     \<and> obj_get (co_issuedBlindResponses s) \<subseteq>\<^sub>m obj_get (co_issuedBlindResponses t)
     \<and> dom (obj_get (co_receivedSubmissions s)) \<subseteq> dom (obj_get (co_receivedSubmissions t))
     \<and> dom (obj_get (co_acceptedNullifiers s)) \<subseteq> dom (obj_get (co_acceptedNullifiers t))
     \<and> dom (obj_get (co_acceptanceResults s)) \<subseteq> dom (obj_get (co_acceptanceResults t))"

lemma claims_rise_refl [simp]: "claims_rise w w"
  by (simp add: claims_rise_def)

lemma claims_rise_trans:
  assumes "claims_rise w v" "claims_rise v u"
  shows "claims_rise w u"
  unfolding claims_rise_def
proof (intro allI impI)
  fix npub e
  assume "obj_get w npub = Some e"
  then obtain e' where e': "obj_get v npub = Some e'" "we_claimState e \<le> we_claimState e'"
    using assms(1) by (auto simp: claims_rise_def split: option.splits)
  then obtain e'' where "obj_get u npub = Some e''" "we_claimState e' \<le> we_claimState e''"
    using assms(2) by (auto simp: claims_rise_def split: option.splits)
  with e'(2) show "case obj_get u npub of None \<Rightarrow> False | Some e'' \<Rightarrow> we_claimState e \<le> we_claimState e''"
    by (auto intro: order_trans)
qed

lemma claims_rise_set:
  "obj_get w npub = None \<Longrightarrow> claims_rise w (obj_set npub e w)"
  "obj_get w npub = Some e0 \<Longrightarrow> we_claimState e0 \<le> we_claimState e \<Longrightarrow> claims_rise w (obj_set npub e w)"
  by (auto simp: claims_rise_def split: option.splits)

lemma raise_claim_le [simp]: "we_claimState e \<le> we_claimState (raise_claim c e)"
  by (simp add: raise_claim_def)

lemma coordinator_advances_refl [simp]: "coordinator_advances s s"
  by (simp add: coordinator_advances_def)

lemma coordinator_advances_trans:
  "coordinator_advances s t \<Longrightarrow> coordinator_advances t u \<Longrightarrow> coordinator_advances s u"
  unfolding coordinator_advances_def
  by (elim conjE, intro conjI;
      (erule (1) claims_rise_trans | erule (1) map_le_trans | erule (1) subset_trans | simp))

section \<open>The clone\<close>

lemma coordinator_clone_fields [simp]:
  "co_election (cloneCoordinatorState h s) = co_election s"
  "co_whitelist (cloneCoordinatorState h s) = co_whitelist s"
  "co_receivedSubmissions (cloneCoordinatorState h s) = co_receivedSubmissions s"
  "co_acceptedNullifiers (cloneCoordinatorState h s) = co_acceptedNullifiers s"
  "co_acceptanceResults (cloneCoordinatorState h s) = co_acceptanceResults s"
  by (simp_all add: cloneCoordinatorState_def)

lemma clone_gets:
  assumes "coordinator_inv s"
  shows "obj_get (co_pendingBlindRequests (cloneCoordinatorState h s)) = obj_get (co_pendingBlindRequests s)"
    and "obj_get (co_issuedBlindResponses (cloneCoordinatorState h s)) = obj_get (co_issuedBlindResponses s)"
  using assms
  by (auto simp: cloneCoordinatorState_def coordinator_inv_def pending_inv_def issued_inv_def fun_eq_iff
      sanitiseBlindBallotRequestRecord_def sanitiseBlindBallotIssuanceRecord_def
      requests.rekeyed_get issuances.rekeyed_get)

lemma coordinator_clone_inv: "coordinator_inv s \<Longrightarrow> coordinator_inv (cloneCoordinatorState h s)"
proof -
  assume inv: "coordinator_inv s"
  have wk: "well_keyed sanitiseBlindBallotRequest rq_requestId (co_pendingBlindRequests (cloneCoordinatorState h s))"
    "well_keyed sanitiseBlindBallotIssuance is_requestId (co_issuedBlindResponses (cloneCoordinatorState h s))"
    by (simp_all add: cloneCoordinatorState_def sanitiseBlindBallotRequestRecord_def
        sanitiseBlindBallotIssuanceRecord_def requests.rekeyed_well_keyed issuances.rekeyed_well_keyed)
  have els: "election_id (cloneCoordinatorState h s) = election_id s"
    "\<And>x. whitelisted (cloneCoordinatorState h s) x = whitelisted s x"
    by (simp_all add: election_id_def whitelisted_def)
  show ?thesis
    using inv wk requests.one_per_scope_get [OF clone_gets(1) [OF inv, of h]]
      issuances.one_per_scope_get [OF clone_gets(2) [OF inv, of h]]
    unfolding coordinator_inv_def pending_inv_def issued_inv_def received_inv_def
      clone_gets [OF inv] coordinator_clone_fields els by blast
qed

lemma coordinator_clone_advances: "coordinator_inv s \<Longrightarrow> coordinator_advances s (cloneCoordinatorState h s)"
  unfolding coordinator_advances_def by (simp add: clone_gets)

section \<open>Single changes of the state\<close>

lemma stamp [simp]:
  "coordinator_inv (s\<lparr>co_lastUpdatedAt := now\<rparr>) = coordinator_inv s"
  "coordinator_advances t (s\<lparr>co_lastUpdatedAt := now\<rparr>) = coordinator_advances t s"
  by (simp_all add: coordinator_inv_def pending_inv_def issued_inv_def received_inv_def election_id_def
      whitelisted_def coordinator_advances_def)

lemma put_entry_keeps:
  assumes "coordinator_inv s" "claims_rise (co_whitelist s) (obj_set npub e (co_whitelist s))"
  shows "coordinator_inv (put_entry npub e s) \<and> coordinator_advances s (put_entry npub e s)"
proof -
  have "whitelisted s x \<Longrightarrow> whitelisted (put_entry npub e s) x" for x
    by (simp add: whitelisted_def put_entry_def)
  moreover have "election_id (put_entry npub e s) = election_id s"
    by (simp add: election_id_def put_entry_def)
  moreover have "coordinator_advances s (put_entry npub e s)"
    using assms(2) by (simp add: coordinator_advances_def put_entry_def)
  ultimately show ?thesis
    using assms(1) unfolding coordinator_inv_def pending_inv_def issued_inv_def received_inv_def
    by (simp add: put_entry_def)
qed

lemma store_pending:
  assumes inv: "coordinator_inv s"
    and r: "sanitiseBlindBallotRequest r = r" "rq_electionId r = election_id s" "whitelisted s (rq_invitedNpub r)"
    and scope: "requests.one_per_scope (obj_set (rq_requestId r) r (co_pendingBlindRequests s))"
    and key: "\<And>r0. obj_get (co_pendingBlindRequests s) (rq_requestId r) = Some r0 \<Longrightarrow>
      rq_blindSigningKeyId r0 = rq_blindSigningKeyId r"
  defines "t \<equiv> s\<lparr>co_pendingBlindRequests := obj_set (rq_requestId r) r (co_pendingBlindRequests s)\<rparr>"
  shows "coordinator_inv t \<and> coordinator_advances s t"
proof -
  have same: "election_id t = election_id s" "\<And>x. whitelisted t x = whitelisted s x"
    by (simp_all add: t_def election_id_def whitelisted_def)
  have "well_keyed sanitiseBlindBallotRequest rq_requestId (co_pendingBlindRequests t)"
    using inv r(1) by (simp add: t_def coordinator_inv_def pending_inv_def well_keyed_set)
  then have "pending_inv t"
    using inv r scope unfolding coordinator_inv_def pending_inv_def same by (simp add: t_def)
  moreover have "issued_inv t"
    unfolding issued_inv_def same
  proof (intro conjI allI impI)
    fix k i assume "obj_get (co_issuedBlindResponses t) k = Some i"
    then have "obj_get (co_issuedBlindResponses s) k = Some i" by (simp add: t_def)
    with inv obtain r0 where r0: "obj_get (co_pendingBlindRequests s) (is_requestId i) = Some r0"
      "rq_blindSigningKeyId r0 = is_blindSigningKeyId i" "is_electionId i = election_id s"
      "whitelisted s (is_invitedNpub i)"
      unfolding coordinator_inv_def issued_inv_def by blast
    then show "is_electionId i = election_id s" "whitelisted s (is_invitedNpub i)" by simp_all
    show "\<exists>r. obj_get (co_pendingBlindRequests t) (is_requestId i) = Some r
        \<and> rq_blindSigningKeyId r = is_blindSigningKeyId i"
    proof (cases "is_requestId i = rq_requestId r")
      case True
      with r0 key [of r0] show ?thesis by (intro exI [of _ r]) (simp add: t_def)
    next
      case False
      with r0 show ?thesis by (intro exI [of _ r0]) (simp add: t_def)
    qed
  qed (use inv in \<open>simp_all add: t_def coordinator_inv_def issued_inv_def\<close>)
  moreover have "received_inv t"
    using inv unfolding coordinator_inv_def received_inv_def same by (simp add: t_def)
  moreover have "coordinator_advances s t"
    by (auto simp: coordinator_advances_def t_def)
  ultimately show ?thesis by (simp add: coordinator_inv_def)
qed

lemma store_issued:
  assumes inv: "coordinator_inv s"
    and i: "sanitiseBlindBallotIssuance i = i" "is_electionId i = election_id s" "whitelisted s (is_invitedNpub i)"
    and req: "obj_get (co_pendingBlindRequests s) (is_requestId i) = Some r"
      "rq_blindSigningKeyId r = is_blindSigningKeyId i"
    and new: "obj_get (co_issuedBlindResponses s) (is_requestId i) = None"
      "issuances.find_scope (co_issuedBlindResponses s) (is_invitedNpub i) (issuance_scope i) = None"
  defines "t \<equiv> s\<lparr>co_issuedBlindResponses := obj_set (is_requestId i) i (co_issuedBlindResponses s)\<rparr>"
  shows "coordinator_inv t \<and> coordinator_advances s t"
proof -
  have same: "election_id t = election_id s" "\<And>x. whitelisted t x = whitelisted s x"
    "co_pendingBlindRequests t = co_pendingBlindRequests s"
    by (simp_all add: t_def election_id_def whitelisted_def)
  have old: "well_keyed sanitiseBlindBallotIssuance is_requestId (co_issuedBlindResponses s)"
    "issuances.one_per_scope (co_issuedBlindResponses s)"
    "\<forall>k i. obj_get (co_issuedBlindResponses s) k = Some i \<longrightarrow>
          is_electionId i = election_id s \<and> whitelisted s (is_invitedNpub i)
          \<and> (\<exists>r. obj_get (co_pendingBlindRequests s) (is_requestId i) = Some r
                \<and> rq_blindSigningKeyId r = is_blindSigningKeyId i)"
    using inv unfolding coordinator_inv_def issued_inv_def by blast+
  have "well_keyed sanitiseBlindBallotIssuance is_requestId (co_issuedBlindResponses t)"
    using old(1) i(1) by (simp add: t_def well_keyed_set)
  moreover have "issuances.one_per_scope (co_issuedBlindResponses t)"
    using issuances.one_per_scope_insert [OF old(2) new(2)] by (simp add: t_def)
  ultimately have "issued_inv t"
    using old(3) i(2,3) req unfolding issued_inv_def same by (simp add: t_def)
  moreover have "pending_inv t" "received_inv t"
    using inv unfolding coordinator_inv_def pending_inv_def received_inv_def same by (simp_all add: t_def)
  moreover have "coordinator_advances s t"
    using new(1) by (auto simp: coordinator_advances_def t_def map_le_def)
  ultimately show ?thesis by (simp add: coordinator_inv_def)
qed

lemma whitelisted_put_entry [simp]:
  "whitelisted (put_entry npub e s) x \<longleftrightarrow> x = npub \<or> whitelisted s x"
  by (simp add: whitelisted_def put_entry_def)

lemma put_entry_simps [simp]:
  "election_id (put_entry npub e s) = election_id s"
  "co_pendingBlindRequests (put_entry npub e s) = co_pendingBlindRequests s"
  "co_issuedBlindResponses (put_entry npub e s) = co_issuedBlindResponses s"
  by (simp_all add: put_entry_def election_id_def)

section \<open>The branches keep the invariant and advance\<close>

definition coordinator_branch_ok :: "coordinator_state \<Rightarrow> coordinator_result \<Rightarrow> bool" where
  "coordinator_branch_ok s res \<longleftrightarrow>
     (if rr_ok res then rr_error res = None \<and> coordinator_inv (rr_state res) \<and> coordinator_advances s (rr_state res)
      else rr_error res \<noteq> None)"

lemma coordinator_branch_ok_simps [simp]:
  "coordinator_branch_ok s (refuse t e)"
  "coordinator_branch_ok s (accept t) \<longleftrightarrow> coordinator_inv t \<and> coordinator_advances s t"
  by (simp_all add: coordinator_branch_ok_def)

lemma then_advances:
  "coordinator_advances s n \<Longrightarrow> coordinator_inv t \<and> coordinator_advances n t \<Longrightarrow>
     coordinator_inv t \<and> coordinator_advances s t"
  by (blast intro: coordinator_advances_trans)

lemma branch_whitelist:
  assumes "coordinator_inv s" "coordinator_inv n" "coordinator_advances s n"
  shows "coordinator_branch_ok s (coordinator_whitelist_added s n entry now)"
    and "coordinator_branch_ok s (coordinator_invite_sent s n el npub eid sentAt)"
    and "coordinator_branch_ok s (coordinator_login_verified s n el npub now)"
proof -
  have put: "coordinator_inv (put_entry x e n) \<and> coordinator_advances s (put_entry x e n)"
    if "claims_rise (co_whitelist n) (obj_set x e (co_whitelist n))" for x e
    using put_entry_keeps [OF assms(2) that] assms(3) by (rule then_advances [rotated])
  have raise: "claims_rise (co_whitelist n) (obj_set x e (co_whitelist n))"
    if "obj_get (co_whitelist n) x = Some e0" "we_claimState e0 \<le> we_claimState e" for x e e0
    using that by (rule claims_rise_set(2))
  show "coordinator_branch_ok s (coordinator_whitelist_added s n entry now)"
    using assms put claims_rise_set(1)
    by (auto simp: coordinator_whitelist_added_def split: option.splits)
  show "coordinator_branch_ok s (coordinator_invite_sent s n el npub eid sentAt)"
    using assms put raise
    by (fastforce simp: coordinator_invite_sent_def raise_claim_def split: option.splits)
  show "coordinator_branch_ok s (coordinator_login_verified s n el npub now)"
    using assms put raise
    by (fastforce simp: coordinator_login_verified_def less_eq_claim_state_def split: option.splits)
qed

lemma branch_request_received:
  assumes "coordinator_inv s" "coordinator_inv n" "coordinator_advances s n"
  shows "coordinator_branch_ok s (coordinator_request_received s n raw)"
proof -
  define request where "request = sanitiseBlindBallotRequest raw"
  let ?rid = "rq_requestId request" and ?npub = "rq_invitedNpub request"
  let ?res = "coordinator_request_received s n raw"
  have san: "sanitiseBlindBallotRequest request = request"
    by (simp add: request_def requests.sanitise_idem)
  have wk: "well_keyed sanitiseBlindBallotRequest rq_requestId (co_pendingBlindRequests n)"
    and one: "requests.one_per_scope (co_pendingBlindRequests n)"
    and facts: "\<And>k r. obj_get (co_pendingBlindRequests n) k = Some r \<Longrightarrow>
          rq_electionId r = election_id n \<and> whitelisted n (rq_invitedNpub r)"
    using assms(2) unfolding coordinator_inv_def pending_inv_def by blast+
  have resend: "coordinator_inv t \<and> coordinator_advances s t"
    if ex: "obj_get (co_pendingBlindRequests n) ?rid = Some existing"
      and t: "t = n\<lparr>co_pendingBlindRequests :=
        obj_set ?rid (existing\<lparr>rq_lastSentAt := at'\<rparr>) (co_pendingBlindRequests n)\<rparr>" for existing at' t
  proof -
    let ?r = "existing\<lparr>rq_lastSentAt := at'\<rparr>"
    have e: "rq_requestId existing = ?rid" "sanitiseBlindBallotRequest existing = existing"
      using well_keyed_get [OF wk ex] by simp_all
    have "sanitiseBlindBallotRequest ?r = ?r"
      using e(2) by (simp add: sanitiseBlindBallotRequest_def)
        (metis blind_request.ext_inject blind_request.surjective blind_request.update_convs(12))
    moreover have "requests.one_per_scope (obj_set (rq_requestId ?r) ?r (co_pendingBlindRequests n))"
      using e ex by (intro requests.one_per_scope_replace [OF one, of _ existing]) (simp_all add: request_scope_def)
    ultimately have "coordinator_inv t \<and> coordinator_advances n t"
      using store_pending [OF assms(2), of ?r] facts [OF ex] e ex t by simp
    with assms(3) show ?thesis by (rule then_advances)
  qed
  have fresh: "coordinator_inv t \<and> coordinator_advances s t"
    if "rq_electionId request = election_id n" "obj_get (co_whitelist n) ?npub = Some entry"
      and "obj_get (co_pendingBlindRequests n) ?rid = None"
      and "requests.find_scope (co_pendingBlindRequests n) ?npub (request_scope request) = None"
      and t: "t = (put_entry ?npub (raise_claim BlindRequestReceived entry) n)\<lparr>
        co_pendingBlindRequests := obj_set ?rid request (co_pendingBlindRequests n)\<rparr>" for entry t
  proof -
    let ?m = "put_entry ?npub (raise_claim BlindRequestReceived entry) n"
    have m: "coordinator_inv ?m \<and> coordinator_advances n ?m"
      by (intro put_entry_keeps [OF assms(2)] claims_rise_set(2) [OF that(2)]) simp
    have "coordinator_inv t \<and> coordinator_advances ?m t"
      using store_pending [of ?m request] m san that requests.one_per_scope_insert [OF one that(4)] by simp
    with m have "coordinator_inv t \<and> coordinator_advances n t" by (blast intro: coordinator_advances_trans)
    with assms(3) show ?thesis by (rule then_advances)
  qed
  show ?thesis
  proof (cases "rr_ok ?res")
    case False
    then show ?thesis
      by (auto simp: coordinator_branch_ok_def coordinator_request_received_def Let_def split: option.splits if_splits)
  next
    case True
    then have el: "rq_electionId request = election_id n"
      by (auto simp: coordinator_request_received_def Let_def request_def [symmetric] split: if_splits)
    from True obtain entry where wl: "obj_get (co_whitelist n) ?npub = Some entry"
      by (auto simp: coordinator_request_received_def Let_def request_def [symmetric]
          split: if_splits option.splits)
    show ?thesis
    proof (cases "obj_get (co_pendingBlindRequests n) ?rid")
      case None
      with True el wl assms fresh [OF el wl None] show ?thesis
        by (auto simp: coordinator_request_received_def Let_def request_def [symmetric]
            findPendingBlindRequestByNpubAndScope_find_scope split: if_splits option.splits)
    next
      case (Some existing)
      with True el wl resend [OF Some refl] show ?thesis
        by (auto simp: coordinator_request_received_def Let_def request_def [symmetric] split: if_splits)
    qed
  qed
qed

lemma branch_signature_issued:
  assumes "coordinator_inv s" "coordinator_inv n" "coordinator_advances s n"
  shows "coordinator_branch_ok s (coordinator_signature_issued s n raw)"
proof -
  define i where "i = sanitiseBlindBallotIssuance raw"
  let ?res = "coordinator_signature_issued s n raw"
  have san: "sanitiseBlindBallotIssuance i = i" by (simp add: i_def issuances.sanitise_idem)
  have fresh: "coordinator_inv t \<and> coordinator_advances s t"
    if "is_electionId i = election_id n" "obj_get (co_whitelist n) (is_invitedNpub i) = Some entry"
      and "obj_get (co_pendingBlindRequests n) (is_requestId i) = Some r"
      and "rq_blindSigningKeyId r = is_blindSigningKeyId i"
      and "obj_get (co_issuedBlindResponses n) (is_requestId i) = None"
      and "issuances.find_scope (co_issuedBlindResponses n) (is_invitedNpub i) (issuance_scope i) = None"
      and "t = (put_entry (is_invitedNpub i) ((raise_claim BlindSignatureIssued entry)
          \<lparr>we_issuanceId := Some (is_issuanceId i)\<rparr>) n)\<lparr>
        co_issuedBlindResponses := obj_set (is_requestId i) i (co_issuedBlindResponses n)\<rparr>" for entry r t
  proof -
    let ?e = "(raise_claim BlindSignatureIssued entry)\<lparr>we_issuanceId := Some (is_issuanceId i)\<rparr>"
    let ?m = "put_entry (is_invitedNpub i) ?e n"
    have m: "coordinator_inv ?m \<and> coordinator_advances n ?m"
      by (intro put_entry_keeps [OF assms(2)] claims_rise_set(2) [OF that(2)]) simp
    have "coordinator_inv t \<and> coordinator_advances ?m t"
      using store_issued [of ?m i r] m san that by simp
    with m have "coordinator_inv t \<and> coordinator_advances n t" by (blast intro: coordinator_advances_trans)
    with assms(3) show ?thesis by (rule then_advances)
  qed
  show ?thesis
    using assms fresh
    by (auto simp: coordinator_signature_issued_def Let_def i_def [symmetric]
        findIssuanceByNpubAndScope_find_scope split: option.splits)
qed

lemma dom_record_nullifiers:
  "dom (obj_get ns) \<subseteq> dom (obj_get (record_nullifiers su sid ns))"
  by (auto simp: record_nullifiers_def dom_obj_set_all simp del: dom_eq_empty_conv)

lemma received_change:
  assumes "coordinator_inv n" "received_inv t"
    and "co_election t = co_election n" "co_whitelist t = co_whitelist n"
    and "co_pendingBlindRequests t = co_pendingBlindRequests n"
    and "co_issuedBlindResponses t = co_issuedBlindResponses n"
    and "dom (obj_get (co_receivedSubmissions n)) \<subseteq> dom (obj_get (co_receivedSubmissions t))"
    and "dom (obj_get (co_acceptedNullifiers n)) \<subseteq> dom (obj_get (co_acceptedNullifiers t))"
    and "dom (obj_get (co_acceptanceResults n)) \<subseteq> dom (obj_get (co_acceptanceResults t))"
  shows "coordinator_inv t \<and> coordinator_advances n t"
proof -
  have "election_id t = election_id n" "\<And>x. whitelisted t x = whitelisted n x"
    using assms by (simp_all add: election_id_def whitelisted_def)
  with assms show ?thesis
    unfolding coordinator_inv_def pending_inv_def issued_inv_def coordinator_advances_def by simp
qed

lemma branch_submission_received:
  assumes "coordinator_inv s" "coordinator_inv n" "coordinator_advances s n"
  shows "coordinator_branch_ok s (coordinator_submission_received s n su)"
proof -
  let ?t = "n\<lparr>co_receivedSubmissions := obj_set (su_submissionId su) su (co_receivedSubmissions n)\<rparr>"
  have "coordinator_inv ?t \<and> coordinator_advances n ?t"
    if "su_electionId su = election_id n" "validateResponsesSchema (bl_responses (su_payload su))"
  proof (rule received_change [OF assms(2)])
    show "received_inv ?t"
      using assms(2) that unfolding coordinator_inv_def received_inv_def by (auto simp: election_id_def)
  qed auto
  with assms(3) show ?thesis
    by (auto simp: coordinator_submission_received_def Let_def intro: coordinator_advances_trans)
qed

lemma received_inv_result:
  assumes "received_inv n" "obj_get (co_receivedSubmissions n) sid = Some su" "ac_electionId result = election_id n"
  shows "received_inv (n\<lparr>co_acceptedNullifiers := ns,
     co_acceptanceResults := obj_set sid result (co_acceptanceResults n)\<rparr>)"
  using assms unfolding received_inv_def by (auto simp: election_id_def distinct_update)

lemma coordinator_branch_decided:
  assumes "coordinator_inv s" "coordinator_inv n" "coordinator_advances s n"
  shows "coordinator_branch_ok s (coordinator_ballot_accepted s n result)"
    and "coordinator_branch_ok s (coordinator_ballot_rejected s n result)"
proof -
  have decide: "coordinator_inv t \<and> coordinator_advances s t"
    if "obj_get (co_receivedSubmissions n) (ac_submissionId result) = Some su"
      and "ac_electionId result = election_id n"
      and t: "t = n\<lparr>co_acceptedNullifiers := ns,
        co_acceptanceResults := obj_set (su_submissionId su) result (co_acceptanceResults n)\<rparr>"
      and ns: "dom (obj_get (co_acceptedNullifiers n)) \<subseteq> dom (obj_get ns)" for su t ns
  proof -
    have "su_submissionId su = ac_submissionId result"
      using assms(2) that(1) unfolding coordinator_inv_def received_inv_def by blast
    then have "coordinator_inv t \<and> coordinator_advances n t"
      using assms(2) that received_inv_result [of n "su_submissionId su" su result ns]
      by (intro received_change) (auto simp: coordinator_inv_def)
    with assms(3) show ?thesis by (rule then_advances)
  qed
  show "coordinator_branch_ok s (coordinator_ballot_accepted s n result)"
    using assms decide [OF _ _ refl dom_record_nullifiers]
    by (auto simp: coordinator_ballot_accepted_def split: option.splits)
  have keep: "n\<lparr>co_acceptanceResults := rs\<rparr>
     = n\<lparr>co_acceptedNullifiers := co_acceptedNullifiers n, co_acceptanceResults := rs\<rparr>" for rs
    by simp
  show "coordinator_branch_ok s (coordinator_ballot_rejected s n result)"
    using assms decide [OF _ _ keep subset_refl]
    by (auto simp: coordinator_ballot_rejected_def split: option.splits)
qed

section \<open>The coordinator's reducer as an instance of the contract\<close>

definition coordinator_step ::
  "host \<Rightarrow> string \<times> coordinator_event \<Rightarrow> coordinator_state \<Rightarrow> coordinator_result" where
  "coordinator_step h e s = reduceCoordinatorEvent h s (snd e) (fst e)"

lemmas coordinator_branches = branch_whitelist branch_request_received branch_signature_issued
  branch_submission_received coordinator_branch_decided

lemma coordinator_step_branch: "coordinator_inv s \<Longrightarrow> coordinator_branch_ok s (coordinator_step h e s)"
  by (cases e; cases "snd e")
     (simp_all add: coordinator_step_def coordinator_branches coordinator_clone_inv coordinator_clone_advances)

lemma coordinator_refused:
  "\<not> rr_ok (reduceCoordinatorEvent h s e now) \<Longrightarrow> rr_state (reduceCoordinatorEvent h s e now) = s"
  by (cases e) (auto simp: step_defs Let_def split: if_splits option.splits)

lemma coordinator_error_iff:
  "rr_error (reduceCoordinatorEvent h s e now) = None \<longleftrightarrow> rr_ok (reduceCoordinatorEvent h s e now)"
  by (cases e) (auto simp: step_defs Let_def split: if_splits option.splits)

interpretation coordinator: progressing_reducer "coordinator_step h" coordinator_inv coordinator_advances
proof
  fix e s t u
  show "\<not> rr_ok (coordinator_step h e s) \<Longrightarrow> rr_state (coordinator_step h e s) = s"
    by (simp add: coordinator_step_def coordinator_refused)
  show "rr_error (coordinator_step h e s) = None \<longleftrightarrow> rr_ok (coordinator_step h e s)"
    by (simp add: coordinator_step_def coordinator_error_iff)
  show "coordinator_inv s \<Longrightarrow> rr_ok (coordinator_step h e s) \<Longrightarrow> coordinator_inv (rr_state (coordinator_step h e s))"
    using coordinator_step_branch [of s h e] by (simp add: coordinator_branch_ok_def)
  show "coordinator_advances s s" by simp
  show "coordinator_advances s t \<Longrightarrow> coordinator_advances t u \<Longrightarrow> coordinator_advances s u"
    by (rule coordinator_advances_trans)
  show "coordinator_inv s \<Longrightarrow> rr_ok (coordinator_step h e s) \<Longrightarrow>
      coordinator_advances s (rr_state (coordinator_step h e s))"
    using coordinator_step_branch [of s h e] by (simp add: coordinator_branch_ok_def)
qed

end
