(* ===== verification/Acceptance.thy ===== *)
theory Acceptance
  imports Coordinator_Safety
begin

text \<open>
  Why no ballot counts twice.  \<open>acceptance_inv\<close> says that every accepted submission holds all of
  its nullifiers and shares no token with another accepted one.  The reducer keeps it under the two
  conditions that its caller provides: a submission is not received again under an identifier that
  has already been accepted, and a rejection does not carry the flag of an acceptance.
\<close>

definition accepted_submission :: "coordinator_state \<Rightarrow> string \<Rightarrow> bool" where
  "accepted_submission s sid \<longleftrightarrow>
     (case obj_get (co_acceptanceResults s) sid of None \<Rightarrow> False | Some res \<Rightarrow> ac_accepted res)"

definition holds_nullifiers :: "coordinator_state \<Rightarrow> string \<Rightarrow> ballot_submission \<Rightarrow> bool" where
  "holds_nullifiers s sid su \<longleftrightarrow> (\<forall>p\<in>set (submissionCredentialBundle su).
     obj_get (co_acceptedNullifiers s) (cp_nullifier p) = Some sid)"

definition acceptance_inv :: "coordinator_state \<Rightarrow> bool" where
  "acceptance_inv s \<longleftrightarrow>
     obj_get (co_receivedSubmissions s) [] = None
     \<and> (\<forall>sid su. accepted_submission s sid \<and> obj_get (co_receivedSubmissions s) sid = Some su \<longrightarrow>
          holds_nullifiers s sid su)
     \<and> (\<forall>sid tid su tu. accepted_submission s sid \<and> accepted_submission s tid \<and> sid \<noteq> tid
          \<and> obj_get (co_receivedSubmissions s) sid = Some su
          \<and> obj_get (co_receivedSubmissions s) tid = Some tu \<longrightarrow> \<not> shares_token su tu)"

text \<open>The conditions on an event that the caller of the reducer provides.\<close>

fun admissible_event :: "coordinator_state \<Rightarrow> coordinator_event \<Rightarrow> bool" where
  "admissible_event s (BALLOT_SUBMISSION_RECEIVED su) =
     (su_submissionId su \<noteq> [] \<and> \<not> accepted_submission s (su_submissionId su))"
| "admissible_event s (BALLOT_REJECTED result) = (\<not> ac_accepted result)"
| "admissible_event s _ = True"

inductive coordinator_history :: "host \<Rightarrow> coordinator_state \<Rightarrow> coordinator_state \<Rightarrow> bool" for h s0 where
  start: "coordinator_history h s0 s0"
| step: "coordinator_history h s0 s \<Longrightarrow> admissible_event s e \<Longrightarrow>
    coordinator_history h s0 (rr_state (reduceCoordinatorEvent h s e now))"

inductive_cases coordinator_historyE: "coordinator_history h s0 s"

lemma shares_token_iff:
  "shares_token a b \<longleftrightarrow> (\<exists>p\<in>set (submissionCredentialBundle a). \<exists>q\<in>set (submissionCredentialBundle b).
     cp_tokenCommitment q = cp_tokenCommitment p \<and> sameBallotScope (cp_ballotScope q) (cp_ballotScope p))"
  by (auto simp: shares_token_def list_ex_iff)

lemma shares_token_sym: "shares_token a b \<longleftrightarrow> shares_token b a"
  unfolding shares_token_iff sameBallotScope_def by metis

lemma record_nullifiers_get:
  "obj_get (record_nullifiers su sid ns) n =
     (if n \<in> cp_nullifier ` set (submissionCredentialBundle su) then Some sid else obj_get ns n)"
proof -
  have "obj_get (obj_set_all (map (\<lambda>p. (cp_nullifier p, sid)) ps) ns) n =
     (if n \<in> cp_nullifier ` set ps then Some sid else obj_get ns n)" for ps :: "credential_proof list"
    by (induction ps arbitrary: ns) auto
  then show ?thesis by (simp add: record_nullifiers_def)
qed

lemma acceptance_inv_cong:
  assumes "co_receivedSubmissions t = co_receivedSubmissions s"
    and "co_acceptedNullifiers t = co_acceptedNullifiers s"
    and "co_acceptanceResults t = co_acceptanceResults s"
  shows "acceptance_inv t = acceptance_inv s"
  using assms by (simp add: acceptance_inv_def accepted_submission_def holds_nullifiers_def)

lemma accept_keeps:
  assumes inv: "acceptance_inv s" and wf: "received_inv s"
    and su: "obj_get (co_receivedSubmissions s) sid = Some su" and res: "ac_accepted result"
    and free: "\<forall>p\<in>set (submissionCredentialBundle su). \<not> nullifier_taken s sid (cp_nullifier p)"
    and tokens: "\<not> accepted_for_token s su"
    and t: "co_receivedSubmissions t = co_receivedSubmissions s"
      "co_acceptedNullifiers t = record_nullifiers su sid (co_acceptedNullifiers s)"
      "co_acceptanceResults t = obj_set sid result (co_acceptanceResults s)"
  shows "acceptance_inv t"
proof -
  have sid: "su_submissionId su = sid" and dist: "distinct (map fst (co_acceptanceResults s))"
    using wf su unfolding received_inv_def by blast+
  have acc: "accepted_submission t x \<longleftrightarrow> x = sid \<or> accepted_submission s x" for x
    using res by (simp add: accepted_submission_def t(3))
  have nonempty: "x \<noteq> []" if "obj_get (co_receivedSubmissions s) x = Some xu" for x xu
    using inv that by (auto simp: acceptance_inv_def)
  have other: "\<not> shares_token su xu"
    if x: "accepted_submission s x" "x \<noteq> sid" "obj_get (co_receivedSubmissions s) x = Some xu" for x xu
  proof -
    obtain r where "obj_get (co_acceptanceResults s) x = Some r" "ac_accepted r"
      using x(1) by (auto simp: accepted_submission_def split: option.splits)
    with dist have "(x, r) \<in> set (js_entries (co_acceptanceResults s))" "ac_accepted r" by simp_all
    with tokens x sid show ?thesis by (force simp: accepted_for_token_def list_ex_iff)
  qed
  have "holds_nullifiers t x xu"
    if x: "accepted_submission t x" "obj_get (co_receivedSubmissions s) x = Some xu" for x xu
  proof (cases "x = sid")
    case True
    with x su show ?thesis by (simp add: holds_nullifiers_def t(2) record_nullifiers_get)
  next
    case False
    with x acc have old: "holds_nullifiers s x xu" using inv unfolding acceptance_inv_def by blast
    have "cp_nullifier p \<notin> cp_nullifier ` set (submissionCredentialBundle su)"
      if p: "p \<in> set (submissionCredentialBundle xu)" for p
    proof
      assume "cp_nullifier p \<in> cp_nullifier ` set (submissionCredentialBundle su)"
      then obtain q where q: "q \<in> set (submissionCredentialBundle su)" "cp_nullifier q = cp_nullifier p" by force
      have "obj_get (co_acceptedNullifiers s) (cp_nullifier q) = Some x"
        using old p q(2) by (simp add: holds_nullifiers_def)
      with q(1) free False nonempty [OF x(2)] show False by (auto simp: nullifier_taken_def)
    qed
    with old show ?thesis by (simp add: holds_nullifiers_def t(2) record_nullifiers_get)
  qed
  moreover have "\<not> shares_token xu yu"
    if "accepted_submission t x" "accepted_submission t y" "x \<noteq> y"
      "obj_get (co_receivedSubmissions s) x = Some xu" "obj_get (co_receivedSubmissions s) y = Some yu" for x y xu yu
  proof -
    consider "x = sid" | "y = sid" | "x \<noteq> sid" "y \<noteq> sid" by blast
    then show ?thesis
    proof cases
      case 1
      with that acc su other [of y yu] show ?thesis by auto
    next
      case 2
      with that acc su other [of x xu] show ?thesis by (auto simp: shares_token_sym [of xu])
    next
      case 3
      with that acc inv show ?thesis unfolding acceptance_inv_def by blast
    qed
  qed
  ultimately show ?thesis
    using inv unfolding acceptance_inv_def t(1) by blast
qed

lemma clone_acceptance [simp]: "acceptance_inv (cloneCoordinatorState h s) = acceptance_inv s"
  by (rule acceptance_inv_cong) simp_all

lemma receive_keeps:
  assumes "acceptance_inv s" "su_submissionId su \<noteq> []" "\<not> accepted_submission s (su_submissionId su)"
    and t: "co_receivedSubmissions t = obj_set (su_submissionId su) su (co_receivedSubmissions s)"
      "co_acceptedNullifiers t = co_acceptedNullifiers s" "co_acceptanceResults t = co_acceptanceResults s"
  shows "acceptance_inv t"
proof -
  have acc: "accepted_submission t x = accepted_submission s x" for x
    by (simp add: accepted_submission_def t)
  have get: "obj_get (co_receivedSubmissions t) x = obj_get (co_receivedSubmissions s) x"
    if "accepted_submission s x \<or> x = []" for x
    using that assms(2,3) by (auto simp: t)
  show ?thesis
    using assms(1) unfolding acceptance_inv_def acc holds_nullifiers_def t(2)
    by (simp add: get cong: conj_cong)
qed

lemma reject_keeps:
  assumes "acceptance_inv s" "\<not> ac_accepted result"
    and t: "co_receivedSubmissions t = co_receivedSubmissions s"
      "co_acceptedNullifiers t = co_acceptedNullifiers s"
      "co_acceptanceResults t = obj_set sid result (co_acceptanceResults s)"
  shows "acceptance_inv t"
proof -
  have acc: "accepted_submission t x \<Longrightarrow> accepted_submission s x" for x
    using assms(2) by (auto simp: accepted_submission_def t split: if_splits)
  show ?thesis
    using assms(1) acc unfolding acceptance_inv_def holds_nullifiers_def t(1,2) by blast
qed

text \<open>An acceptance whose result is not flagged as one records the nullifiers all the same.\<close>

lemma unflagged_keeps:
  assumes "acceptance_inv s" "received_inv s" "\<not> ac_accepted result"
    and su: "obj_get (co_receivedSubmissions s) sid = Some su"
    and free: "\<forall>p\<in>set (submissionCredentialBundle su). \<not> nullifier_taken s sid (cp_nullifier p)"
    and t: "co_receivedSubmissions t = co_receivedSubmissions s"
      "co_acceptedNullifiers t = record_nullifiers su sid (co_acceptedNullifiers s)"
      "co_acceptanceResults t = obj_set sid result (co_acceptanceResults s)"
  shows "acceptance_inv t"
proof -
  have acc: "accepted_submission t x \<longleftrightarrow> x \<noteq> sid \<and> accepted_submission s x" for x
    using assms(3) by (simp add: accepted_submission_def t(3))
  have "holds_nullifiers t x xu"
    if x: "accepted_submission t x" "obj_get (co_receivedSubmissions s) x = Some xu" for x xu
  proof -
    have old: "holds_nullifiers s x xu" and ne: "x \<noteq> []"
      using x acc assms(1) unfolding acceptance_inv_def by (blast, auto)
    have "cp_nullifier p \<notin> cp_nullifier ` set (submissionCredentialBundle su)"
      if p: "p \<in> set (submissionCredentialBundle xu)" for p
    proof
      assume "cp_nullifier p \<in> cp_nullifier ` set (submissionCredentialBundle su)"
      then obtain q where q: "q \<in> set (submissionCredentialBundle su)" "cp_nullifier q = cp_nullifier p" by force
      have "obj_get (co_acceptedNullifiers s) (cp_nullifier q) = Some x"
        using old p q(2) by (simp add: holds_nullifiers_def)
      with q(1) free x(1) acc ne show False by (auto simp: nullifier_taken_def)
    qed
    with old show ?thesis by (simp add: holds_nullifiers_def t(2) record_nullifiers_get)
  qed
  with acc assms(1) show ?thesis unfolding acceptance_inv_def t(1) by blast
qed

text \<open>Events that touch neither submissions nor results.\<close>

lemma other_events_keep:
  assumes "acceptance_inv s"
  shows "acceptance_inv (rr_state (reduceCoordinatorEvent h s (WHITELIST_ADDED entry) now))"
    and "acceptance_inv (rr_state (reduceCoordinatorEvent h s (INVITE_SENT el npub eid tm) now))"
    and "acceptance_inv (rr_state (reduceCoordinatorEvent h s (COORDINATOR_LOGIN_VERIFIED el npub) now))"
    and "acceptance_inv (rr_state (reduceCoordinatorEvent h s (BLIND_REQUEST_RECEIVED request) now))"
    and "acceptance_inv (rr_state (reduceCoordinatorEvent h s (BLIND_SIGNATURE_ISSUED issuance) now))"
proof -
  have keep: "acceptance_inv t" if "co_receivedSubmissions t = co_receivedSubmissions s"
    "co_acceptedNullifiers t = co_acceptedNullifiers s" "co_acceptanceResults t = co_acceptanceResults s" for t
    using assms acceptance_inv_cong [OF that] by simp
  show "acceptance_inv (rr_state (reduceCoordinatorEvent h s (WHITELIST_ADDED entry) now))"
    and "acceptance_inv (rr_state (reduceCoordinatorEvent h s (INVITE_SENT el npub eid tm) now))"
    and "acceptance_inv (rr_state (reduceCoordinatorEvent h s (COORDINATOR_LOGIN_VERIFIED el npub) now))"
    and "acceptance_inv (rr_state (reduceCoordinatorEvent h s (BLIND_REQUEST_RECEIVED request) now))"
    and "acceptance_inv (rr_state (reduceCoordinatorEvent h s (BLIND_SIGNATURE_ISSUED issuance) now))"
    by (rule keep; auto simp: step_defs Let_def put_entry_def split: option.splits)+
qed

lemma admissible_event_keeps:
  assumes inv: "coordinator_inv s" and acc: "acceptance_inv s" and ok: "admissible_event s e"
  shows "acceptance_inv (rr_state (reduceCoordinatorEvent h s e now))"
proof (cases "rr_ok (reduceCoordinatorEvent h s e now)")
  case False
  with acc show ?thesis by (simp add: coordinator_refused)
next
  case True
  let ?n = "cloneCoordinatorState h s"
  have n: "acceptance_inv ?n" "received_inv ?n"
    using acc coordinator_clone_inv [OF inv, of h] by (simp_all add: coordinator_inv_def)
  show ?thesis
  proof (cases e)
    case (BALLOT_SUBMISSION_RECEIVED su)
    with True ok have "rr_state (reduceCoordinatorEvent h s e now) = ?n\<lparr>
        co_receivedSubmissions := obj_set (su_submissionId su) su (co_receivedSubmissions ?n),
        co_lastUpdatedAt := su_submittedAt su\<rparr>"
      by (auto simp: coordinator_submission_received_def Let_def split: if_splits)
    with ok BALLOT_SUBMISSION_RECEIVED show ?thesis
      by (intro receive_keeps [OF n(1), of su]) (auto simp: accepted_submission_def)
  next
    case (BALLOT_ACCEPTED result)
    show ?thesis
    proof (cases "rr_state (reduceCoordinatorEvent h s e now) = s")
      case False
      with True BALLOT_ACCEPTED obtain su where su: "obj_get (co_receivedSubmissions ?n) (ac_submissionId result) = Some su"
        and free: "\<not> list_ex (\<lambda>p. nullifier_taken ?n (su_submissionId su) (cp_nullifier p)) (submissionCredentialBundle su)"
        and tok: "\<not> accepted_for_token ?n su"
        and t: "rr_state (reduceCoordinatorEvent h s e now) = ?n\<lparr>
            co_acceptedNullifiers := record_nullifiers su (su_submissionId su) (co_acceptedNullifiers ?n),
            co_acceptanceResults := obj_set (su_submissionId su) result (co_acceptanceResults ?n),
            co_lastUpdatedAt := ac_decidedAt result\<rparr>"
        by (auto simp: coordinator_ballot_accepted_def split: if_splits option.splits)
      have sid: "su_submissionId su = ac_submissionId result"
        using n(2) su unfolding received_inv_def by blast
      show ?thesis
      proof (cases "ac_accepted result")
        case True
        show ?thesis unfolding t sid
          by (rule accept_keeps [OF n su True _ tok])
             (use free in \<open>simp_all only: sid list_ex_iff, simp_all\<close>)
      next
        case False
        show ?thesis unfolding t sid
          by (rule unflagged_keeps [OF n False su])
             (use free in \<open>simp_all only: sid list_ex_iff, simp_all\<close>)
      qed
    qed (use acc in simp)
  next
    case (BALLOT_REJECTED result)
    with True obtain su where "obj_get (co_receivedSubmissions s) (ac_submissionId result) = Some su"
      by (auto simp: coordinator_ballot_rejected_def split: if_splits option.splits)
    with True BALLOT_REJECTED have "rr_state (reduceCoordinatorEvent h s e now) = ?n\<lparr>
        co_acceptanceResults := obj_set (su_submissionId su) result (co_acceptanceResults ?n),
        co_lastUpdatedAt := ac_decidedAt result\<rparr>"
      by (auto simp: coordinator_ballot_rejected_def split: if_splits)
    with ok BALLOT_REJECTED show ?thesis
      by (intro reject_keeps [OF n(1), of result]) auto
  qed (use other_events_keep [OF acc] in simp_all)
qed

lemma coordinator_history_inv:
  "coordinator_history h s0 s \<Longrightarrow> coordinator_inv s0 \<Longrightarrow> acceptance_inv s0 \<Longrightarrow>
     coordinator_inv s \<and> acceptance_inv s"
proof (induction rule: coordinator_history.induct)
  case (step s e now)
  then show ?case
    using coordinator.inv_step [of s h "(now, e)"] admissible_event_keeps [of s e h now]
    by (simp add: coordinator_step_def)
qed simp

lemma acceptance_inv_disjoint:
  assumes "acceptance_inv s" "accepted_submission s sid" "accepted_submission s tid" "sid \<noteq> tid"
    and "obj_get (co_receivedSubmissions s) sid = Some su" "obj_get (co_receivedSubmissions s) tid = Some tu"
  shows "cp_nullifier ` set (submissionCredentialBundle su) \<inter> cp_nullifier ` set (submissionCredentialBundle tu) = {}"
    and "\<not> shares_token su tu"
proof -
  have "holds_nullifiers s sid su" "holds_nullifiers s tid tu"
    using assms unfolding acceptance_inv_def by blast+
  then have holders: "\<And>n. n \<in> cp_nullifier ` set (submissionCredentialBundle su) \<Longrightarrow>
      obj_get (co_acceptedNullifiers s) n = Some sid"
    "\<And>n. n \<in> cp_nullifier ` set (submissionCredentialBundle tu) \<Longrightarrow>
      obj_get (co_acceptedNullifiers s) n = Some tid"
    unfolding holds_nullifiers_def by blast+
  show "cp_nullifier ` set (submissionCredentialBundle su)
      \<inter> cp_nullifier ` set (submissionCredentialBundle tu) = {}"
  proof (rule ccontr)
    assume "\<not> ?thesis"
    then obtain n where n: "n \<in> cp_nullifier ` set (submissionCredentialBundle su)"
      "n \<in> cp_nullifier ` set (submissionCredentialBundle tu)" by blast
    from holders(1) [OF n(1)] holders(2) [OF n(2)] assms(4) show False by simp
  qed
  show "\<not> shares_token su tu" using assms unfolding acceptance_inv_def by blast
qed

end
