(* ===== verification/Response_Check.thy ===== *)
theory Response_Check
  imports Definition_Check
begin

text \<open>
  \<open>validateQuestionnaireResponsePayload\<close> (\<open>web/src/questionnaireProtocol.ts\<close>, lines 825 to 955):
  the loop over the answers, the loop over the required questions, and their equivalence with a
  declarative description of an acceptable payload.  The function throws what
  \<open>shouldShowQuestion\<close> throws, so its result is a sum.
\<close>

section \<open>The validator\<close>

fun rank_answer_errors :: "host \<Rightarrow> string \<Rightarrow> string list \<Rightarrow> string list \<Rightarrow> jsval list \<Rightarrow> string list" where
  "rank_answer_errors h qid valid seen [] = []"
| "rank_answer_errors h qid valid seen (v # vs) = (case v of
     JStr optionId \<Rightarrow>
       (if optionId \<notin> set valid
        then (''invalid_option_id:'' @ qid @ '':'' @ optionId) # rank_answer_errors h qid valid seen vs
        else flag (optionId \<in> set seen) (''duplicate_ranked_option:'' @ qid @ '':'' @ optionId)
           @ rank_answer_errors h qid valid (optionId # seen) vs)
   | _ \<Rightarrow> (''invalid_option_id:'' @ qid @ '':'' @ js_String h v) # rank_answer_errors h qid valid seen vs)"

definition answer_kind_errors :: "host \<Rightarrow> string \<Rightarrow> question_kind \<Rightarrow> answer_body \<Rightarrow> string list" where
  "answer_kind_errors h qid kind a = (case kind of
     YesNo \<Rightarrow> flag (ab_answerType a \<noteq> ''yes_no'' \<or> \<not> is_JBool (ab_value a)) (''invalid_answer_type:'' @ qid)
   | MultipleChoice multiSelect options \<Rightarrow>
       (if ab_answerType a \<noteq> ''multiple_choice'' then [''invalid_answer_type:'' @ qid]
        else (let selected = array_or_empty (ab_selectedOptionIds a)
          in flag (\<not> is_JArr (ab_selectedOptionIds a) \<or> \<not> list_all is_JStr selected) (''invalid_selection:'' @ qid)
           @ flag (\<not> multiSelect \<and> length selected \<noteq> 1) (''invalid_selection_count:'' @ qid)
           @ concat (map (\<lambda>v. flag (v \<notin> JStr ` set (map co_optionId options))
                 (''invalid_option_id:'' @ qid @ '':'' @ js_String h v)) selected)))
   | Rank options minimumRanked \<Rightarrow>
       (if ab_answerType a \<noteq> ''rank'' then [''invalid_answer_type:'' @ qid]
        else (let ranked = array_or_empty (ab_rankedOptionIds a)
          in flag (\<not> is_JArr (ab_rankedOptionIds a)) (''invalid_selection:'' @ qid)
           @ flag (int (length ranked) < clampRankMinimum options minimumRanked) (''rank_selection_count:'' @ qid)
           @ flag (length ranked > length options) (''rank_selection_count:'' @ qid)
           @ rank_answer_errors h qid (map co_optionId options) [] ranked))
   | FreeText maxLength _ \<Rightarrow>
       (if ab_answerType a \<noteq> ''free_text'' then [''invalid_answer_type:'' @ qid]
        else (case ab_text a of
            JStr t \<Rightarrow> flag (num_lt maxLength (num_int (int (length t)))) (''free_text_too_long:'' @ qid)
          | _ \<Rightarrow> [''invalid_answer_type:'' @ qid])))"

text \<open>The first loop; it yields the errors and the set \<open>seenAnswers\<close>.\<close>

fun check_answers ::
  "host \<Rightarrow> question_map \<Rightarrow> answer_body obj \<Rightarrow> response_answer list \<Rightarrow> string list
    \<Rightarrow> circular_dependency + (string list \<times> string list)" where
  "check_answers h questionMap answeredMap [] seen = Inr ([], seen)"
| "check_answers h questionMap answeredMap (a # as) seen =
     (let qid = ra_questionId a; skip_with = (\<lambda>e. case check_answers h questionMap answeredMap as seen of
            Inl x \<Rightarrow> Inl x | Inr (errs, seen') \<Rightarrow> Inr (e # errs, seen'))
      in case obj_get questionMap qid of
        None \<Rightarrow> skip_with (''unknown_question_id:'' @ qid)
      | Some q \<Rightarrow>
          if qid \<in> set seen then skip_with (''duplicate_answer:'' @ qid)
          else (case shouldShowQuestion q answeredMap (Some questionMap) of
              Inl x \<Rightarrow> Inl x
            | Inr shown \<Rightarrow>
                (case check_answers h questionMap answeredMap as (qid # seen) of
                   Inl x \<Rightarrow> Inl x
                 | Inr (errs, seen') \<Rightarrow>
                     Inr (flag (\<not> shown) (''answer_for_hidden_question:'' @ qid)
                          @ answer_kind_errors h qid (q_kind q) (ra_body a) @ errs, seen'))))"

definition rank_minimum_missing :: "string list \<Rightarrow> question \<Rightarrow> bool" where
  "rank_minimum_missing seen q = (case q_kind q of
     Rank options minimumRanked \<Rightarrow> clampRankMinimum options minimumRanked > 0 \<and> q_questionId q \<notin> set seen
   | _ \<Rightarrow> False)"

fun check_required ::
  "question_map \<Rightarrow> answer_body obj \<Rightarrow> string list \<Rightarrow> question list \<Rightarrow> circular_dependency + string list" where
  "check_required questionMap answeredMap seen [] = Inr []"
| "check_required questionMap answeredMap seen (q # qs) =
     (case shouldShowQuestion q answeredMap (Some questionMap) of
        Inl x \<Rightarrow> Inl x
      | Inr shown \<Rightarrow>
          (case check_required questionMap answeredMap seen qs of
             Inl x \<Rightarrow> Inl x
           | Inr errs \<Rightarrow>
               Inr (flag (shown \<and> ((q_required q \<and> q_questionId q \<notin> set seen) \<or> rank_minimum_missing seen q))
                     (''missing_required_answer:'' @ q_questionId q) @ errs)))"

definition validateQuestionnaireResponsePayload ::
  "host \<Rightarrow> questionnaire_definition \<Rightarrow> response_payload \<Rightarrow> circular_dependency + validation_result" where
  "validateQuestionnaireResponsePayload h d payload =
     (let conditionErrors = filter (\<lambda>e. js_starts_with e ''show_if_'') (vr_errors (validateQuestionnaireDefinition h d))
      in if conditionErrors \<noteq> [] then Inr \<lparr>vr_valid = False, vr_errors = conditionErrors\<rparr>
         else (let questionMap = question_map_of (d_questions d);
                   answeredMap = answer_map_of (rp_answers payload);
                   idErrors = flag (rp_questionnaireId payload \<noteq> d_questionnaireId d) ''questionnaire_id_mismatch''
               in case check_answers h questionMap answeredMap (rp_answers payload) [] of
                    Inl x \<Rightarrow> Inl x
                  | Inr (answerErrors, seen) \<Rightarrow>
                      (case check_required questionMap answeredMap seen (d_questions d) of
                         Inl x \<Rightarrow> Inl x
                       | Inr requiredErrors \<Rightarrow> Inr (validation_of (idErrors @ answerErrors @ requiredErrors)))))"

section \<open>What an acceptable answer is\<close>

definition rank_answer_ok :: "choice_option list \<Rightarrow> jsnum \<Rightarrow> jsval \<Rightarrow> bool" where
  "rank_answer_ok options minimumRanked v = (\<exists>ids. v = jstrings ids \<and> distinct ids
     \<and> set ids \<subseteq> co_optionId ` set options \<and> clampRankMinimum options minimumRanked \<le> int (length ids)
     \<and> length ids \<le> length options)"

definition answer_ok :: "question_kind \<Rightarrow> answer_body \<Rightarrow> bool" where
  "answer_ok kind a = (case kind of
     YesNo \<Rightarrow> ab_answerType a = ''yes_no'' \<and> (\<exists>b. ab_value a = JBool b)
   | MultipleChoice multiSelect options \<Rightarrow> ab_answerType a = ''multiple_choice''
       \<and> (\<exists>ids. ab_selectedOptionIds a = jstrings ids \<and> set ids \<subseteq> co_optionId ` set options
            \<and> (multiSelect \<or> length ids = 1))
   | Rank options minimumRanked \<Rightarrow> ab_answerType a = ''rank''
       \<and> rank_answer_ok options minimumRanked (ab_rankedOptionIds a)
   | FreeText maxLength _ \<Rightarrow> ab_answerType a = ''free_text''
       \<and> (\<exists>t. ab_text a = JStr t \<and> \<not> num_lt maxLength (num_int (int (length t)))))"

text \<open>
  An acceptable payload: the right questionnaire, at most one answer per question, only known and
  visible questions answered, each with a well-formed value, and no visible question missing that
  is required or has a positive rank minimum.
\<close>

definition must_answer :: "question \<Rightarrow> bool" where
  "must_answer q = (q_required q \<or> (case q_kind q of
     Rank options minimumRanked \<Rightarrow> clampRankMinimum options minimumRanked > 0 | _ \<Rightarrow> False))"

definition acceptable_payload :: "questionnaire_definition \<Rightarrow> response_payload \<Rightarrow> bool" where
  "acceptable_payload d payload =
     (let qm = question_map_of (d_questions d); am = answer_map_of (rp_answers payload);
          answered = map ra_questionId (rp_answers payload)
      in rp_questionnaireId payload = d_questionnaireId d
       \<and> distinct answered
       \<and> (\<forall>a\<in>set (rp_answers payload). \<exists>q\<in>set (d_questions d). q_questionId q = ra_questionId a
            \<and> visible qm am q \<and> answer_ok (q_kind q) (ra_body a))
       \<and> (\<forall>q\<in>set (d_questions d). visible qm am q \<and> must_answer q \<longrightarrow> q_questionId q \<in> set answered))"

section \<open>The validator decides acceptability\<close>

lemma list_all_is_JStr: "list_all is_JStr vs \<longleftrightarrow> (\<exists>ids. vs = map JStr ids)"
proof
  assume "list_all is_JStr vs"
  then show "\<exists>ids. vs = map JStr ids"
  proof (induction vs)
    case (Cons v vs)
    then obtain s ids where "v = JStr s" "vs = map JStr ids" by (auto simp: is_JStr_iff)
    then have "v # vs = map JStr (s # ids)" by simp
    then show ?case by (rule exI)
  qed simp
qed (auto simp: list_all_iff)

lemma array_of_strings:
  "is_JArr v \<and> list_all is_JStr (array_or_empty v) \<longleftrightarrow> (\<exists>ids. v = jstrings ids)"
  by (cases v) (auto simp: array_or_empty_def is_JArr_def jstrings_def list_all_is_JStr)

lemma Cons_JStr_ex:
  "(\<exists>ids. JStr s # vs = map JStr ids \<and> P ids) \<longleftrightarrow> (\<exists>ids. vs = map JStr ids \<and> P (s # ids))"
proof
  assume "\<exists>ids. JStr s # vs = map JStr ids \<and> P ids"
  then obtain ids where "JStr s # vs = map JStr ids" "P ids" by (elim exE conjE)
  then show "\<exists>ids. vs = map JStr ids \<and> P (s # ids)" by (cases ids) auto
next
  assume "\<exists>ids. vs = map JStr ids \<and> P (s # ids)"
  then obtain ids where "JStr s # vs = map JStr (s # ids)" "P (s # ids)" by auto
  then show "\<exists>ids. JStr s # vs = map JStr ids \<and> P ids" by (intro exI [of _ "s # ids"] conjI)
qed

lemma rank_answer_errors_Nil:
  "rank_answer_errors h qid valid seen vs = [] \<longleftrightarrow>
     (\<exists>ids. vs = map JStr ids \<and> distinct ids \<and> set ids \<subseteq> set valid \<and> set ids \<inter> set seen = {})"
proof (induction h qid valid seen vs rule: rank_answer_errors.induct)
  case (1 h qid valid seen)
  show ?case by simp
next
  case (2 h qid valid seen v vs)
  show ?case
  proof (cases v)
    case (JStr s)
    show ?thesis
    proof (cases "s \<in> set valid \<and> s \<notin> set seen")
      case True
      have IH: "rank_answer_errors h qid valid (s # seen) vs = [] \<longleftrightarrow>
          (\<exists>ids. vs = map JStr ids \<and> distinct ids \<and> set ids \<subseteq> set valid \<and> set ids \<inter> set (s # seen) = {})"
        using "2.IH" JStr True by simp
      with JStr True have
        "rank_answer_errors h qid valid seen (v # vs) = [] \<longleftrightarrow>
          (\<exists>ids. vs = map JStr ids \<and> distinct ids \<and> set ids \<subseteq> set valid \<and> set ids \<inter> set (s # seen) = {})"
        by simp
      also have "\<dots> \<longleftrightarrow> (\<exists>ids. v # vs = map JStr ids \<and> distinct ids \<and> set ids \<subseteq> set valid \<and> set ids \<inter> set seen = {})"
        using True by (simp add: JStr Cons_JStr_ex) blast
      finally show ?thesis .
    next
      case False
      then show ?thesis using JStr by (auto simp: Cons_JStr_ex)
    qed
  qed (auto simp: Cons_eq_map_conv)
qed

lemma answer_kind_errors_Nil: "answer_kind_errors h qid kind a = [] \<longleftrightarrow> answer_ok kind a"
proof (cases kind)
  case YesNo
  then show ?thesis
    by (cases "ab_value a") (auto simp: answer_kind_errors_def answer_ok_def is_JBool_def)
next
  case (MultipleChoice multi options)
  show ?thesis
  proof (cases "\<exists>ids. ab_selectedOptionIds a = jstrings ids")
    case True
    then obtain ids where "ab_selectedOptionIds a = jstrings ids" by blast
    with MultipleChoice show ?thesis
      by (auto simp: answer_kind_errors_def answer_ok_def)
  next
    case False
    with MultipleChoice array_of_strings [of "ab_selectedOptionIds a"] show ?thesis
      by (auto simp: answer_kind_errors_def answer_ok_def Let_def)
  qed
next
  case (Rank options minimum)
  then show ?thesis
    by (cases "ab_rankedOptionIds a")
       (auto simp: answer_kind_errors_def answer_ok_def rank_answer_ok_def Let_def rank_answer_errors_Nil
         array_or_empty_def is_JArr_def jstrings_def not_less)
next
  case (FreeText maxLength enc)
  then show ?thesis
    by (cases "ab_text a") (auto simp: answer_kind_errors_def answer_ok_def)
qed

lemma check_answers_result:
  assumes sh: "\<And>q. q \<in> set qs \<Longrightarrow> shouldShowQuestion q am (Some (question_map_of qs)) = Inr (vis q)"
  shows "\<exists>errs seen'. check_answers h (question_map_of qs) am as seen = Inr (errs, seen')
    \<and> (errs = [] \<longleftrightarrow> distinct (map ra_questionId as) \<and> set (map ra_questionId as) \<inter> set seen = {}
        \<and> (\<forall>a\<in>set as. \<exists>q. obj_get (question_map_of qs) (ra_questionId a) = Some q \<and> vis q
             \<and> answer_ok (q_kind q) (ra_body a)))
    \<and> (errs = [] \<longrightarrow> set seen' = set seen \<union> set (map ra_questionId as))"
    (is "\<exists>errs seen'. _ = Inr (errs, seen') \<and> (errs = [] \<longleftrightarrow> ?ok as seen) \<and> _ errs seen'")
proof (induction as arbitrary: seen)
  case Nil
  show ?case by simp
next
  case (Cons a as)
  show ?case
  proof (cases "obj_get (question_map_of qs) (ra_questionId a)")
    case None
    with Cons.IH [of seen] show ?thesis by (auto simp: Let_def)
  next
    case (Some q)
    then have "shouldShowQuestion q am (Some (question_map_of qs)) = Inr (vis q)"
      using question_map_of_Some sh by blast
    note shown = Some this
    show ?thesis
    proof (cases "ra_questionId a \<in> set seen")
      case True
      with shown Cons.IH [of seen] show ?thesis by (auto simp: Let_def)
    next
      case False
      from Cons.IH [of "ra_questionId a # seen"] obtain errs seen' where
        rest: "check_answers h (question_map_of qs) am as (ra_questionId a # seen) = Inr (errs, seen')"
        and iff: "errs = [] \<longleftrightarrow> ?ok as (ra_questionId a # seen)"
        and seen': "errs = [] \<Longrightarrow> set seen' = set (ra_questionId a # seen) \<union> set (map ra_questionId as)"
        by blast
      let ?errs = "flag (\<not> vis q) (''answer_for_hidden_question:'' @ ra_questionId a)
        @ answer_kind_errors h (ra_questionId a) (q_kind q) (ra_body a) @ errs"
      have "check_answers h (question_map_of qs) am (a # as) seen = Inr (?errs, seen')"
        using shown False rest by (simp add: Let_def)
      moreover have "?errs = [] \<longleftrightarrow> ?ok (a # as) seen"
        using shown(1) False by (simp add: answer_kind_errors_Nil iff) blast
      moreover have "?errs = [] \<longrightarrow> set seen' = set seen \<union> set (map ra_questionId (a # as))"
        using seen' by auto
      ultimately show ?thesis by blast
    qed
  qed
qed

lemma rank_minimum_missing_iff:
  "(q_required q \<and> q_questionId q \<notin> set seen) \<or> rank_minimum_missing seen q
     \<longleftrightarrow> must_answer q \<and> q_questionId q \<notin> set seen"
  by (auto simp: rank_minimum_missing_def must_answer_def split: question_kind.splits)

lemma check_required_result:
  assumes sh: "\<And>q. q \<in> set qs \<Longrightarrow> shouldShowQuestion q am (Some qm) = Inr (vis q)"
    and "set qs' \<subseteq> set qs"
  shows "\<exists>errs. check_required qm am seen qs' = Inr errs
    \<and> (errs = [] \<longleftrightarrow> (\<forall>q\<in>set qs'. vis q \<and> must_answer q \<longrightarrow> q_questionId q \<in> set seen))"
  using assms(2)
proof (induction qs')
  case (Cons q qs')
  then have "shouldShowQuestion q am (Some qm) = Inr (vis q)" by (simp add: sh)
  with Cons show ?case by (auto simp: rank_minimum_missing_iff)
qed simp

lemma question_map_of_member:
  assumes "distinct (map q_questionId qs)"
  shows "obj_get (question_map_of qs) k = Some q \<longleftrightarrow> q \<in> set qs \<and> q_questionId q = k"
  using assms question_map_of_Some question_map_of_nth
  by (metis in_set_conv_nth)

lemma no_condition_errors:
  "vr_valid (validateQuestionnaireDefinition h d) \<Longrightarrow> vr_errors (validateQuestionnaireDefinition h d) = []"
  by (simp add: validateQuestionnaireDefinition_def validation_of_def)

lemma validate_payload_result:
  assumes valid: "vr_valid (validateQuestionnaireDefinition h d)"
  shows "\<exists>r. validateQuestionnaireResponsePayload h d payload = Inr r
           \<and> (vr_valid r \<longleftrightarrow> acceptable_payload d payload)"
proof -
  let ?qs = "d_questions d" and ?am = "answer_map_of (rp_answers payload)"
  let ?vis = "visible (question_map_of ?qs) ?am"
  have wo: "well_ordered ?qs" using valid by (rule valid_definition_well_ordered)
  then have dist: "distinct (map q_questionId ?qs)" by (simp add: well_ordered_def)
  have sh: "shouldShowQuestion q ?am (Some (question_map_of ?qs)) = Inr (?vis q)" if "q \<in> set ?qs" for q
    using wo that by (rule well_ordered_shows)
  obtain errs seen where a: "check_answers h (question_map_of ?qs) ?am (rp_answers payload) [] = Inr (errs, seen)"
    and a_iff: "errs = [] \<longleftrightarrow> distinct (map ra_questionId (rp_answers payload))
        \<and> (\<forall>a\<in>set (rp_answers payload). \<exists>q. obj_get (question_map_of ?qs) (ra_questionId a) = Some q
             \<and> ?vis q \<and> answer_ok (q_kind q) (ra_body a))"
    and a_seen: "errs = [] \<Longrightarrow> set seen = set (map ra_questionId (rp_answers payload))"
    using check_answers_result [where vis = ?vis and qs = ?qs and am = ?am and seen = "[]" and h = h
        and as = "rp_answers payload", OF sh] by auto
  obtain errs' where r: "check_required (question_map_of ?qs) ?am seen ?qs = Inr errs'"
    and r_iff: "errs' = [] \<longleftrightarrow> (\<forall>q\<in>set ?qs. ?vis q \<and> must_answer q \<longrightarrow> q_questionId q \<in> set seen)"
    using check_required_result [where vis = ?vis and qs = ?qs and qs' = ?qs and am = ?am and seen = seen, OF sh]
    by auto
  let ?result = "validation_of (flag (rp_questionnaireId payload \<noteq> d_questionnaireId d)
     ''questionnaire_id_mismatch'' @ errs @ errs')"
  have "validateQuestionnaireResponsePayload h d payload = Inr ?result"
    using a r by (simp add: validateQuestionnaireResponsePayload_def Let_def no_condition_errors [OF valid])
  moreover have "vr_valid ?result \<longleftrightarrow> acceptable_payload d payload"
    using a_iff a_seen r_iff
    by (auto simp: validation_of_def acceptable_payload_def Let_def question_map_of_member [OF dist])
  ultimately show ?thesis by blast
qed

end
