(* ===== verification/Ballot_Validation.thy ===== *)
theory Ballot_Validation
  imports OptionA_Messages Response_Check
begin

text \<open>
  The checks of a login proof, a ballot request and a submitted ballot
  (\<open>validateLoginProof\<close>, \<open>validateBlindBallotRequest\<close> and \<open>validateBallotSubmission\<close> of
  \<open>web/src/questionnaireOptionA.ts\<close>, lines 1588 to 1733).  The verifier of signatures is an
  argument.  A check that meets a cyclic condition throws, which is \<open>Inl\<close>.
\<close>

section \<open>Login proofs and requests\<close>

definition parseIso :: "host \<Rightarrow> string \<Rightarrow> jsnum" where
  "parseIso h value = (if num_isFinite (host_dateParse h value) then host_dateParse h value else NaN)"

definition json_object_of_strings :: "(string \<times> string) list \<Rightarrow> string" where
  "json_object_of_strings es =
     ''{'' @ js_join '','' (map (\<lambda>(k, v). json_string k @ '':'' @ v) es) @ ''}''"

text \<open>\<open>JSON.stringify(proof.challenge)\<close>, for a challenge built in the order of its declaration.\<close>

definition challenge_json :: "login_challenge \<Rightarrow> string" where
  "challenge_json c = json_object_of_strings
     [(''type'', json_string ''login_challenge''), (''schemaVersion'', ''1''),
      (''domain'', json_string (lc_domain c)), (''electionId'', json_string (lc_electionId c)),
      (''npub'', json_string (lc_npub c)), (''nonce'', json_string (lc_nonce c)),
      (''issuedAt'', json_string (lc_issuedAt c)), (''expiresAt'', json_string (lc_expiresAt c))]"

definition validateLoginProof ::
  "host \<Rightarrow> (string \<Rightarrow> string \<Rightarrow> string \<Rightarrow> bool) \<Rightarrow> login_proof \<Rightarrow> string \<Rightarrow> string \<Rightarrow> bool \<Rightarrow> string \<Rightarrow> bool" where
  "validateLoginProof h verifySignature proof expectedDomain expectedElectionId nonceAlreadyUsed nowIso =
     (let c = lp_challenge proof
      in if lc_domain c \<noteq> expectedDomain then False
         else if lp_electionId proof \<noteq> expectedElectionId \<or> lc_electionId c \<noteq> expectedElectionId then False
         else if lp_npub proof \<noteq> lc_npub c then False
         else if num_le (parseIso h (lc_expiresAt c)) (parseIso h nowIso) then False
         else if nonceAlreadyUsed then False
         else verifySignature (challenge_json c) (lp_signature proof) (lp_npub proof))"

definition pow_request_of :: "blind_request \<Rightarrow> pow_request" where
  "pow_request_of r = \<lparr>pw_electionId = rq_electionId r, pw_requestId = rq_requestId r,
     pw_invitedNpub = rq_invitedNpub r, pw_blindSigningKeyId = rq_blindSigningKeyId r,
     pw_blindedMessage = rq_blindedMessage r, pw_clientNonce = rq_clientNonce r\<rparr>"

definition validateBlindBallotRequest ::
  "host \<Rightarrow> blind_request \<Rightarrow> election_phase \<Rightarrow> bool \<Rightarrow> bool \<Rightarrow> bool \<Rightarrow> bool
     \<Rightarrow> questionnaire_definition option \<Rightarrow> bool" where
  "validateBlindBallotRequest h request electionState isWhitelisted hasRedeemedPaperAdmission
       loginVerified requestSeen definition =
     (let paperAdmissionKey = (case nullish (rq_paperBallotAdmissionKey request) of
            Some k \<Rightarrow> js_lower (js_trim k) | None \<Rightarrow> []);
          difficulty = (case Option.bind definition d_generalInvitePowDifficulty of
            Some n \<Rightarrow> n | None \<Rightarrow> num_int 0)
      in if electionState \<noteq> Open then False
         else if (\<not> isWhitelisted \<and> \<not> hasRedeemedPaperAdmission) \<or> \<not> loginVerified then False
         else if \<not> requestSeen \<and> js_trim (rq_blindedMessage request) = [] then False
         else if paperAdmissionKey \<noteq> [] \<and> \<not> is_hex64 paperAdmissionKey then False
         else if \<not> truthy (nullish (rq_inviteCodeHash request)) \<and> num_lt (num_int 0) difficulty
                 \<and> \<not> verifyGeneralInvitePow h (pow_request_of request) difficulty
                       (nullish (rq_generalInvitePow request))
           then False
         else True)"

section \<open>Submitted ballots\<close>

text \<open>\<open>Array.prototype.some\<close> with a callback that may throw.\<close>

fun some_of :: "('a \<Rightarrow> 'e + bool) \<Rightarrow> 'a list \<Rightarrow> 'e + bool" where
  "some_of f [] = Inr False"
| "some_of f (x # xs) = (case f x of Inl e \<Rightarrow> Inl e | Inr b \<Rightarrow> if b then Inr True else some_of f xs)"

definition ballot_responses :: "ballot_submission \<Rightarrow> response_answer list" where
  "ballot_responses submission =
     map snd (from_entries (map (\<lambda>a. (ra_questionId a, a))
       (List.map_filter optionAAnswerToResponse (bl_responses (su_payload submission)))))"

definition visible_id ::
  "questionnaire_definition option \<Rightarrow> ballot_submission \<Rightarrow> string \<Rightarrow> circular_dependency + bool" where
  "visible_id definition submission questionId =
     (let questionMap = question_map_of (case definition of Some d \<Rightarrow> d_questions d | None \<Rightarrow> [])
      in case obj_get questionMap questionId of
           None \<Rightarrow> Inr True
         | Some q \<Rightarrow> shouldShowQuestion q (answer_map_of (ballot_responses submission)) (Some questionMap))"

text \<open>An answer to a question the definition lacks, or hides.\<close>

definition stray_answer ::
  "questionnaire_definition \<Rightarrow> ballot_submission \<Rightarrow> string \<Rightarrow> circular_dependency + bool" where
  "stray_answer d submission questionId =
     (if obj_get (question_map_of (d_questions d)) questionId = None then Inr True
      else case visible_id (Some d) submission questionId of Inl e \<Rightarrow> Inl e | Inr v \<Rightarrow> Inr (\<not> v))"

text \<open>The payload as the questionnaire's own validator sees it.\<close>

definition validation_payload :: "ballot_submission \<Rightarrow> string \<Rightarrow> response_payload" where
  "validation_payload submission electionId = \<lparr>rp_questionnaireId = electionId,
     rp_responseId = ''validation'', rp_submittedAt = num_int 0, rp_answers = ballot_responses submission\<rparr>"

definition refused_by_definition ::
  "host \<Rightarrow> questionnaire_definition \<Rightarrow> ballot_submission \<Rightarrow> string \<Rightarrow> circular_dependency + bool" where
  "refused_by_definition h d submission electionId =
     (case validateQuestionnaireResponsePayload h d (validation_payload submission electionId) of
        Inl e \<Rightarrow> Inl e
      | Inr result \<Rightarrow>
          Inr (list_ex (\<lambda>e. \<not> js_starts_with e ''missing_required_answer:'') (vr_errors result)))"

definition answered_ids :: "ballot_submission \<Rightarrow> string list" where
  "answered_ids submission = map qa_questionId (bl_responses (su_payload submission))"

text \<open>Whether the credentials of the submission cover a question, and the conditional questions left out.\<close>

definition credentials_cover :: "questionnaire_definition \<Rightarrow> ballot_submission \<Rightarrow> string \<Rightarrow> bool" where
  "credentials_cover d submission questionId = answeredQuestionsMatchCredentialScopes (Some d)
     (submission\<lparr>su_payload := (su_payload submission)\<lparr>bl_responses :=
        [\<lparr>qa_questionId = questionId, qa_type = ''yes_no'', qa_answer = JStr ''yes'',
          qa_encryptForCoordinator = None\<rparr>]\<rparr>\<rparr>)"

definition uncovered_conditional ::
  "questionnaire_definition \<Rightarrow> ballot_submission \<Rightarrow> question \<Rightarrow> circular_dependency + bool" where
  "uncovered_conditional d submission q =
     (if q_showIf q = None \<or> \<not> q_required q then Inr False
      else case visible_id (Some d) submission (q_questionId q) of
        Inl e \<Rightarrow> Inl e
      | Inr v \<Rightarrow>
          if \<not> v \<or> q_questionId q \<in> set (answered_ids submission) then Inr False
          else Inr (credentials_cover d submission (q_questionId q)))"

definition missing_required ::
  "questionnaire_definition option \<Rightarrow> ballot_submission \<Rightarrow> string \<Rightarrow> circular_dependency + bool" where
  "missing_required definition submission questionId =
     (case visible_id definition submission questionId of
        Inl e \<Rightarrow> Inl e
      | Inr v \<Rightarrow> Inr (v \<and> questionId \<notin> set (answered_ids submission)))"

fun bundle_ok :: "string list \<Rightarrow> credential_proof list \<Rightarrow> bool" where
  "bundle_ok seenNullifiers [] = True"
| "bundle_ok seenNullifiers (proof # proofs) =
     (if js_trim (cp_tokenCommitment proof) = [] \<or> js_trim (cp_blindSigningKeyId proof) = []
         \<or> js_trim (cp_credential proof) = [] \<or> js_trim (cp_nullifier proof) = []
         \<or> cp_nullifier proof \<in> set seenNullifiers
      then False else bundle_ok (cp_nullifier proof # seenNullifiers) proofs)"

definition bundle_check :: "questionnaire_definition option \<Rightarrow> ballot_submission \<Rightarrow> bool" where
  "bundle_check definition submission = (case su_credentialBundle submission of
     Some (proof # proofs) \<Rightarrow> bundle_ok [] (proof # proofs)
       \<and> answeredQuestionsMatchCredentialScopes definition submission
   | _ \<Rightarrow> True)"

text \<open>The checks that do not look at the definition.\<close>

definition ballot_envelope_ok :: "ballot_submission \<Rightarrow> string \<Rightarrow> election_phase \<Rightarrow> bool" where
  "ballot_envelope_ok submission electionId electionState =
     (su_electionId submission = electionId
      \<and> bl_electionId (su_payload submission) = electionId
      \<and> electionState = Open
      \<and> js_trim (su_credential submission) \<noteq> [] \<and> js_trim (su_nullifier submission) \<noteq> []
      \<and> js_trim (su_tokenCommitment submission) \<noteq> [] \<and> js_trim (su_blindSigningKeyId submission) \<noteq> []
      \<and> validateResponsesSchema (bl_responses (su_payload submission)))"

text \<open>Stop with \<open>False\<close> when a check refuses, pass an exception on, go on otherwise.\<close>

definition unless :: "'e + bool \<Rightarrow> 'e + bool \<Rightarrow> 'e + bool" where
  "unless refused rest = (case refused of Inl e \<Rightarrow> Inl e | Inr b \<Rightarrow> if b then Inr False else rest)"

definition validateBallotSubmission ::
  "host \<Rightarrow> ballot_submission \<Rightarrow> string \<Rightarrow> election_phase \<Rightarrow> string list \<Rightarrow> questionnaire_definition option
     \<Rightarrow> circular_dependency + bool" where
  "validateBallotSubmission h submission electionId electionState requiredQuestionIds definition =
     (if \<not> ballot_envelope_ok submission electionId electionState then Inr False
      else
        let after_definition =
              unless (some_of (missing_required definition submission) requiredQuestionIds)
                (Inr (bundle_check definition submission))
        in case definition of
             None \<Rightarrow> after_definition
           | Some d \<Rightarrow>
               if list_ex (\<lambda>e. js_starts_with e ''show_if_'') (vr_errors (validateQuestionnaireDefinition h d))
               then Inr False
               else unless (some_of (stray_answer d submission) (js_set (answered_ids submission)))
                 (unless (refused_by_definition h d submission electionId)
                   (unless (some_of (uncovered_conditional d submission) (d_questions d))
                     after_definition)))"

section \<open>What the validator accepts\<close>

lemma some_of_total:
  assumes "\<And>x. x \<in> set xs \<Longrightarrow> f x = Inr (P x)"
  shows "some_of f xs = Inr (\<exists>x\<in>set xs. P x)"
  using assms by (induction xs) auto

lemma unless_Inr [simp]: "unless (Inr b) rest = (if b then Inr False else rest)"
  by (simp add: unless_def)

lemma obj_set_all_new:
  "distinct (map fst es) \<Longrightarrow> fst ` set es \<inter> fst ` set ob = {} \<Longrightarrow> obj_set_all es ob = ob @ es"
proof (induction es ob rule: obj_set_all.induct)
  case (2 k v es ob)
  have "k \<notin> fst ` set ob \<Longrightarrow> AList.update k v ob = ob @ [(k, v)]"
    by (induction ob) auto
  with 2 show ?case by auto
qed simp

lemma from_entries_distinct: "distinct (map fst es) \<Longrightarrow> from_entries es = es"
  by (simp add: from_entries_def obj_set_all_new)

text \<open>Under the schema every answer becomes a response, under its own question.\<close>

lemma answer_schema_response:
  "answer_schema a \<Longrightarrow> \<exists>body. optionAAnswerToResponse a = Some \<lparr>ra_questionId = qa_questionId a, ra_body = body\<rparr>"
  by (auto simp: answer_schema_def optionAAnswerToResponse_def Let_def)

lemma schema_responses:
  assumes "validateResponsesSchema rs"
  shows "map ra_questionId (List.map_filter optionAAnswerToResponse rs) = map qa_questionId rs"
proof -
  have "list_all answer_schema rs" using assms by (simp add: validateResponsesSchema_iff)
  then show ?thesis
  proof (induction rs)
    case (Cons a rs)
    then obtain body where "optionAAnswerToResponse a = Some \<lparr>ra_questionId = qa_questionId a, ra_body = body\<rparr>"
      using answer_schema_response [of a] by auto
    with Cons show ?case by (simp add: map_filter_simps)
  qed (simp add: map_filter_simps)
qed

lemma ballot_responses_schema:
  assumes "validateResponsesSchema (bl_responses (su_payload su))"
  shows "ballot_responses su = List.map_filter optionAAnswerToResponse (bl_responses (su_payload su))"
    and "map ra_questionId (ballot_responses su) = answered_ids su" and "distinct (answered_ids su)"
proof -
  let ?rs = "List.map_filter optionAAnswerToResponse (bl_responses (su_payload su))"
  have ids: "map ra_questionId ?rs = answered_ids su"
    unfolding answered_ids_def by (rule schema_responses [OF assms])
  show dist: "distinct (answered_ids su)"
    using assms by (simp add: answered_ids_def validateResponsesSchema_iff)
  have "distinct (map fst (map (\<lambda>a. (ra_questionId a, a)) ?rs))"
    using dist by (simp add: comp_def ids)
  then show resp: "ballot_responses su = ?rs"
    unfolding ballot_responses_def by (simp add: from_entries_distinct comp_def)
  show "map ra_questionId (ballot_responses su) = answered_ids su"
    unfolding resp by (rule ids)
qed

definition missing_error :: "string \<Rightarrow> bool" where
  "missing_error e = js_starts_with e ''missing_required_answer:''"

lemma rank_errors_not_missing: "e \<in> set (rank_answer_errors h qid valid seen vs) \<Longrightarrow> \<not> missing_error e"
  by (induction h qid valid seen vs rule: rank_answer_errors.induct)
     (auto simp: missing_error_def split: jsval.splits if_splits)

lemma kind_errors_not_missing: "e \<in> set (answer_kind_errors h qid kind a) \<Longrightarrow> \<not> missing_error e"
  by (auto simp: answer_kind_errors_def Let_def missing_error_def
      dest: rank_errors_not_missing [unfolded missing_error_def]
      split: question_kind.splits if_splits jsval.splits)

lemma check_answers_not_missing:
  "check_answers h qm am as seen = Inr (errs, seen') \<Longrightarrow> e \<in> set errs \<Longrightarrow> \<not> missing_error e"
proof (induction as arbitrary: seen errs)
  case (Cons a as)
  show ?case
  proof (cases "obj_get qm (ra_questionId a)")
    case None
    with Cons.prems Cons.IH show ?thesis
      by (auto simp: Let_def missing_error_def split: sum.splits prod.splits)
  next
    case (Some q)
    show ?thesis
    proof (cases "ra_questionId a \<in> set seen")
      case True
      with Some Cons.prems Cons.IH show ?thesis
        by (auto simp: Let_def missing_error_def split: sum.splits prod.splits)
    next
      case False
      with Some Cons.prems obtain shown errs' where
        rest: "check_answers h qm am as (ra_questionId a # seen) = Inr (errs', seen')"
        and errs: "errs = flag (\<not> shown) (''answer_for_hidden_question:'' @ ra_questionId a)
          @ answer_kind_errors h (ra_questionId a) (q_kind q) (ra_body a) @ errs'"
        by (auto simp: Let_def split: sum.splits prod.splits)
      have "\<not> missing_error (''answer_for_hidden_question:'' @ ra_questionId a)"
        by (simp add: missing_error_def)
      with Cons.prems(2) Cons.IH [OF rest] kind_errors_not_missing show ?thesis
        unfolding errs by auto
    qed
  qed
qed simp

lemma check_required_missing:
  "check_required qm am seen qs = Inr errs \<Longrightarrow> e \<in> set errs \<Longrightarrow> missing_error e"
  by (induction qm am seen qs arbitrary: errs rule: check_required.induct)
     (auto simp: missing_error_def split: sum.splits)

text \<open>
  A ballot that the validator accepts, declaratively: the envelope, the questionnaire, every answer
  to a visible question and well formed, no visible required question left out that the credentials
  cover, and the credential bundle.
\<close>

definition acceptable_ballot ::
  "questionnaire_definition \<Rightarrow> ballot_submission \<Rightarrow> string \<Rightarrow> election_phase \<Rightarrow> string list \<Rightarrow> bool" where
  "acceptable_ballot d submission electionId electionState requiredQuestionIds \<longleftrightarrow>
     (let vis = visible (question_map_of (d_questions d)) (answer_map_of (ballot_responses submission))
      in ballot_envelope_ok submission electionId electionState
       \<and> electionId = d_questionnaireId d
       \<and> (\<forall>a\<in>set (ballot_responses submission). \<exists>q\<in>set (d_questions d).
            q_questionId q = ra_questionId a \<and> vis q \<and> answer_ok (q_kind q) (ra_body a))
       \<and> (\<forall>q\<in>set (d_questions d). q_showIf q \<noteq> None \<and> q_required q \<and> vis q
            \<and> q_questionId q \<notin> set (answered_ids submission) \<longrightarrow> \<not> credentials_cover d submission (q_questionId q))
       \<and> (\<forall>qid\<in>set requiredQuestionIds. (\<forall>q\<in>set (d_questions d). q_questionId q = qid \<longrightarrow> vis q)
            \<longrightarrow> qid \<in> set (answered_ids submission))
       \<and> bundle_check (Some d) submission)"

lemma bundle_ok_iff:
  "bundle_ok seen ps \<longleftrightarrow> distinct (map cp_nullifier ps) \<and> set (map cp_nullifier ps) \<inter> set seen = {}
     \<and> (\<forall>p\<in>set ps. js_trim (cp_tokenCommitment p) \<noteq> [] \<and> js_trim (cp_blindSigningKeyId p) \<noteq> []
          \<and> js_trim (cp_credential p) \<noteq> [] \<and> js_trim (cp_nullifier p) \<noteq> [])"
  by (induction seen ps rule: bundle_ok.induct) auto

lemma refused_by_definition_result:
  assumes valid: "vr_valid (validateQuestionnaireDefinition h d)"
    and schema: "validateResponsesSchema (bl_responses (su_payload su))"
  shows "\<exists>b. refused_by_definition h d su el = Inr b \<and>
     (\<not> b \<longleftrightarrow> el = d_questionnaireId d \<and> (\<forall>a\<in>set (ballot_responses su). \<exists>q\<in>set (d_questions d).
        q_questionId q = ra_questionId a
        \<and> visible (question_map_of (d_questions d)) (answer_map_of (ballot_responses su)) q
        \<and> answer_ok (q_kind q) (ra_body a)))"
proof -
  let ?qs = "d_questions d" and ?am = "answer_map_of (ballot_responses su)"
  let ?vis = "visible (question_map_of ?qs) ?am"
  have wo: "well_ordered ?qs" using valid by (rule valid_definition_well_ordered)
  then have dist: "distinct (map q_questionId ?qs)" by (simp add: well_ordered_def)
  have sh: "shouldShowQuestion q ?am (Some (question_map_of ?qs)) = Inr (?vis q)" if "q \<in> set ?qs" for q
    using wo that by (rule well_ordered_shows)
  obtain errs seen where c: "check_answers h (question_map_of ?qs) ?am (ballot_responses su) [] = Inr (errs, seen)"
    and c_iff: "errs = [] \<longleftrightarrow> distinct (map ra_questionId (ballot_responses su))
        \<and> (\<forall>a\<in>set (ballot_responses su). \<exists>q. obj_get (question_map_of ?qs) (ra_questionId a) = Some q
             \<and> ?vis q \<and> answer_ok (q_kind q) (ra_body a))"
    using check_answers_result [where vis = ?vis and qs = ?qs and am = ?am and seen = "[]" and h = h
        and as = "ballot_responses su", OF sh] by auto
  obtain errs' where r: "check_required (question_map_of ?qs) ?am seen ?qs = Inr errs'"
    using check_required_result [where vis = ?vis and qs = ?qs and qs' = ?qs and am = ?am and seen = seen, OF sh]
    by auto
  let ?errors = "flag (el \<noteq> d_questionnaireId d) ''questionnaire_id_mismatch'' @ errs @ errs'"
  have "refused_by_definition h d su el = Inr (list_ex (\<lambda>e. \<not> missing_error e) ?errors)"
    using c r by (simp add: refused_by_definition_def validateQuestionnaireResponsePayload_def Let_def
        no_condition_errors [OF valid] validation_payload_def validation_of_def missing_error_def)
  moreover have "\<not> list_ex (\<lambda>e. \<not> missing_error e) ?errors \<longleftrightarrow> el = d_questionnaireId d \<and> errs = []"
  proof -
    have "\<not> missing_error ''questionnaire_id_mismatch''" by code_simp
    moreover have "list_ex (\<lambda>e. \<not> missing_error e) errs \<longleftrightarrow> errs \<noteq> []"
      using check_answers_not_missing [OF c] by (cases errs) (auto simp: list_ex_iff)
    moreover have "\<not> list_ex (\<lambda>e. \<not> missing_error e) errs'"
      using check_required_missing [OF r] by (auto simp: list_ex_iff)
    ultimately show ?thesis by (auto simp: flag_def)
  qed
  moreover have "distinct (map ra_questionId (ballot_responses su))"
    using ballot_responses_schema [OF schema] by simp
  ultimately show ?thesis
    using c_iff
    by (intro exI [of _ "list_ex (\<lambda>e. \<not> missing_error e) ?errors"] conjI)
       (auto simp: question_map_of_member [OF dist])
qed

lemma validate_ballot_result:
  assumes valid: "vr_valid (validateQuestionnaireDefinition h d)"
  shows "validateBallotSubmission h su el phase req (Some d) = Inr (acceptable_ballot d su el phase req)"
proof (cases "ballot_envelope_ok su el phase")
  case False
  then show ?thesis by (simp add: validateBallotSubmission_def acceptable_ballot_def Let_def)
next
  case True
  let ?qs = "d_questions d" and ?am = "answer_map_of (ballot_responses su)"
  let ?vis = "visible (question_map_of ?qs) ?am"
  have schema: "validateResponsesSchema (bl_responses (su_payload su))"
    using True by (simp add: ballot_envelope_ok_def)
  have wo: "well_ordered ?qs" using valid by (rule valid_definition_well_ordered)
  then have dist: "distinct (map q_questionId ?qs)" by (simp add: well_ordered_def)
  note member = question_map_of_member [OF dist]
  define shown where "shown x \<longleftrightarrow> (\<forall>q\<in>set ?qs. q_questionId q = x \<longrightarrow> ?vis q)" for x
  have vis_id: "visible_id (Some d) su x = Inr (shown x)" for x
  proof (cases "obj_get (question_map_of ?qs) x")
    case None
    have "q_questionId q \<noteq> x" if "q \<in> set ?qs" for q
      using None that member [of x q] by auto
    with None show ?thesis by (auto simp: visible_id_def Let_def shown_def)
  next
    case (Some q)
    then have q: "q \<in> set ?qs" "q_questionId q = x" by (simp_all add: member)
    have "p = q" if "p \<in> set ?qs" "q_questionId p = x" for p
    proof -
      have "obj_get (question_map_of ?qs) x = Some p" using that by (simp add: member)
      with Some show ?thesis by simp
    qed
    then have "shown x = ?vis q" unfolding shown_def using q by blast
    with Some well_ordered_shows [OF wo q(1)] show ?thesis by (simp add: visible_id_def Let_def)
  qed
  have no_show_if: "\<not> list_ex (\<lambda>e. js_starts_with e ''show_if_'') (vr_errors (validateQuestionnaireDefinition h d))"
    by (simp add: no_condition_errors [OF valid])
  define stray where "stray x \<longleftrightarrow> obj_get (question_map_of ?qs) x = None \<or> \<not> shown x" for x
  have stray: "some_of (stray_answer d su) (js_set (answered_ids su)) = Inr (\<exists>x\<in>set (answered_ids su). stray x)"
    by (subst some_of_total [where P = stray]) (auto simp: stray_answer_def vis_id stray_def)
  obtain b where ref: "refused_by_definition h d su el = Inr b" and b: "\<not> b \<longleftrightarrow> el = d_questionnaireId d
      \<and> (\<forall>a\<in>set (ballot_responses su). \<exists>q\<in>set ?qs. q_questionId q = ra_questionId a \<and> ?vis q
        \<and> answer_ok (q_kind q) (ra_body a))"
    using refused_by_definition_result [OF valid schema, of el] by (elim exE conjE)
  have "\<not> stray x" if "\<not> b" "x \<in> set (answered_ids su)" for x
  proof -
    have "x \<in> set (map ra_questionId (ballot_responses su))"
      using that(2) ballot_responses_schema(2) [OF schema] by simp
    with that(1) b obtain q where q: "q \<in> set ?qs" "q_questionId q = x" "?vis q" by auto
    then have get: "obj_get (question_map_of ?qs) x = Some q" by (simp add: member)
    moreover have "shown x" unfolding shown_def
    proof (intro ballI impI)
      fix p assume "p \<in> set ?qs" "q_questionId p = x"
      then have "obj_get (question_map_of ?qs) x = Some p" by (simp add: member)
      with get q(3) show "?vis p" by simp
    qed
    ultimately show ?thesis by (simp add: stray_def)
  qed
  then have no_stray: "\<not> b \<Longrightarrow> \<not> (\<exists>x\<in>set (answered_ids su). stray x)" by blast
  have shown_q: "shown (q_questionId q) \<longleftrightarrow> ?vis q" if "q \<in> set ?qs" for q
    using well_ordered_shows [OF wo that, of ?am] vis_id [of "q_questionId q"] member [of "q_questionId q" q] that
    by (simp add: visible_id_def Let_def)
  have cond: "some_of (uncovered_conditional d su) ?qs = Inr (\<exists>q\<in>set ?qs. q_showIf q \<noteq> None \<and> q_required q
      \<and> ?vis q \<and> q_questionId q \<notin> set (answered_ids su) \<and> credentials_cover d su (q_questionId q))"
    by (rule some_of_total) (auto simp: uncovered_conditional_def vis_id shown_q)
  have req: "some_of (missing_required (Some d) su) req
      = Inr (\<exists>x\<in>set req. shown x \<and> x \<notin> set (answered_ids su))"
    by (rule some_of_total) (simp add: missing_required_def vis_id)
  show ?thesis
    using True no_show_if no_stray b
    by (auto simp: validateBallotSubmission_def acceptable_ballot_def Let_def stray ref cond req shown_def)
qed

end
