(* ===== verification/Blind_Token.thy ===== *)
theory Blind_Token
  imports OptionA_Scope
begin

text \<open>
  The texts a blind token signs and hashes (\<open>web/src/questionnaireBlindToken.ts\<close>): the normalised
  scope, the signed message, the message hash, the nullifier and the hash of a result summary.
  \<open>None\<close> is the exception of \<open>canonicalJsonStringify\<close>.  The message hash parses the message it
  has just printed; the model takes the printed value itself.
\<close>

definition QUESTIONNAIRE_BLIND_TOKEN_MESSAGE_DOMAIN :: string where
  "QUESTIONNAIRE_BLIND_TOKEN_MESSAGE_DOMAIN = ''auditable-voting/questionnaire-blind-token/v1''"

definition QUESTIONNAIRE_NULLIFIER_DOMAIN :: string where
  "QUESTIONNAIRE_NULLIFIER_DOMAIN = ''auditable-voting/questionnaire-nullifier/v1''"

definition QUESTIONNAIRE_RESULT_HASH_DOMAIN :: string where
  "QUESTIONNAIRE_RESULT_HASH_DOMAIN = ''auditable-voting/questionnaire-result-hash/v1''"

section \<open>The normalised scope\<close>

definition entry_if :: "bool \<Rightarrow> string \<Rightarrow> jsval \<Rightarrow> (string \<times> jsval) list" where
  "entry_if b key v = (if b then [(key, v)] else [])"

definition normaliseBlindTokenScope :: "ballot_scope option \<Rightarrow> jsval option" where
  "normaliseBlindTokenScope input = (case input of None \<Rightarrow> None | Some scope \<Rightarrow>
     (let questionId = trimmed_or_empty (sc_questionId scope);
          slotId = trimmed_or_empty (sc_slotId scope);
          slotIndex = index_or 0 (sc_slotIndex scope);
          version = index_or 0 (sc_version scope);
          credentialIndex = index_or 0 (sc_credentialIndex scope);
          ballotGroup = normaliseQuestionnaireBallotGroup (nullish (sc_ballotGroup scope));
          allowedScopes = normaliseQuestionnaireAllowedScopes (nullish (sc_allowedScopes scope)) ballotGroup;
          includeAllowedScopes = (nullish (sc_allowedScopes scope) \<noteq> None \<or> ballotGroup \<noteq> None)
      in if questionId = [] \<and> slotId = [] \<and> slotIndex = 0 \<and> version = 0 \<and> credentialIndex \<le> 1
            \<and> \<not> includeAllowedScopes then None
         else Some (JObj
           (entry_if (questionId \<noteq> []) ''question_id'' (JStr questionId)
            @ entry_if (slotId \<noteq> []) ''slot_id'' (JStr slotId)
            @ entry_if (slotIndex \<noteq> 0) ''slot_index'' (JNum (num_int slotIndex))
            @ entry_if (version \<noteq> 0) ''version'' (JNum (num_int version))
            @ entry_if (credentialIndex > 1) ''credential_index'' (JNum (num_int credentialIndex))
            @ entry_if includeAllowedScopes ''allowed_scopes'' (jstrings allowedScopes)))))"

definition scope_entry :: "ballot_scope option \<Rightarrow> (string \<times> jsval) list" where
  "scope_entry scope = (case normaliseBlindTokenScope scope of
     Some v \<Rightarrow> [(''ballot_scope'', v)] | None \<Rightarrow> [])"

section \<open>Message, hash and nullifier\<close>

definition signed_message_value :: "string \<Rightarrow> string \<Rightarrow> ballot_scope option \<Rightarrow> jsval" where
  "signed_message_value questionnaireId tokenSecretCommitment scope = JObj
     ([(''questionnaire_id'', JStr questionnaireId), (''response_mode'', JStr ''blind_token''),
       (''schema_version'', JNum (num_int 1)), (''token_secret_commitment'', JStr tokenSecretCommitment)]
      @ scope_entry scope)"

definition buildQuestionnaireBlindTokenSignedMessage ::
  "host \<Rightarrow> string \<Rightarrow> string \<Rightarrow> ballot_scope option \<Rightarrow> string option" where
  "buildQuestionnaireBlindTokenSignedMessage h questionnaireId tokenSecretCommitment scope =
     canonicalJsonStringify h (signed_message_value questionnaireId tokenSecretCommitment scope)"

definition deriveQuestionnaireBlindTokenMessageHash ::
  "host \<Rightarrow> string \<Rightarrow> string \<Rightarrow> ballot_scope option \<Rightarrow> string option" where
  "deriveQuestionnaireBlindTokenMessageHash h questionnaireId tokenSecretCommitment scope =
     map_option (host_sha256 h) (canonicalJsonStringify h (JObj
       [(''domain'', JStr QUESTIONNAIRE_BLIND_TOKEN_MESSAGE_DOMAIN),
        (''message'', signed_message_value questionnaireId tokenSecretCommitment scope)]))"

definition nullifier_value :: "string \<Rightarrow> string \<Rightarrow> ballot_scope option \<Rightarrow> jsval" where
  "nullifier_value questionnaireId tokenSecret scope = JObj
     ([(''domain'', JStr QUESTIONNAIRE_NULLIFIER_DOMAIN), (''questionnaire_id'', JStr questionnaireId),
       (''token_secret'', JStr tokenSecret)] @ scope_entry scope)"

definition deriveQuestionnaireTokenNullifier ::
  "host \<Rightarrow> string \<Rightarrow> string \<Rightarrow> ballot_scope option \<Rightarrow> string option" where
  "deriveQuestionnaireTokenNullifier h questionnaireId tokenSecret scope =
     map_option (host_sha256 h) (canonicalJsonStringify h (nullifier_value questionnaireId tokenSecret scope))"

section \<open>The hash of a result\<close>

definition nat_value :: "nat \<Rightarrow> jsval" where
  "nat_value n = JNum (num_int (int n))"

definition sorted_entries :: "host \<Rightarrow> 'v obj \<Rightarrow> 'v obj" where
  "sorted_entries h ob = from_entries
     (js_sort (\<lambda>l r. host_localeCompare h (fst l) (fst r)) (js_entries ob))"

definition sorted_by_number :: "'v obj \<Rightarrow> 'v obj" where
  "sorted_by_number ob = from_entries
     (js_sort (\<lambda>l r. int (nat_of_digits (fst l)) - int (nat_of_digits (fst r))) (js_entries ob))"

fun summary_id :: "question_summary \<Rightarrow> string" where
  "summary_id (YesNoSummary questionId _ _) = questionId"
| "summary_id (MultipleChoiceSummary questionId _) = questionId"
| "summary_id (RankSummary questionId _ _ _ _) = questionId"
| "summary_id (FreeTextSummary questionId _) = questionId"

fun sorted_summary :: "host \<Rightarrow> question_summary \<Rightarrow> question_summary" where
  "sorted_summary h (MultipleChoiceSummary questionId counts) =
     MultipleChoiceSummary questionId (sorted_entries h counts)"
| "sorted_summary h (RankSummary questionId scores rankCounts responses blanks) =
     RankSummary questionId (sorted_entries h scores)
       (from_entries (map (\<lambda>(optionId, counts). (optionId, sorted_by_number counts))
         (js_sort (\<lambda>l r. host_localeCompare h (fst l) (fst r)) (js_entries rankCounts))))
       responses blanks"
| "sorted_summary h summary = summary"

definition sortQuestionSummariesCanonical :: "host \<Rightarrow> question_summary list \<Rightarrow> question_summary list" where
  "sortQuestionSummariesCanonical h summaries = map (sorted_summary h)
     (js_sort (\<lambda>l r. host_localeCompare h (summary_id l) (summary_id r)) summaries)"

definition counts_value :: "('v \<Rightarrow> jsval) \<Rightarrow> 'v obj \<Rightarrow> jsval" where
  "counts_value f counts = JObj (map (\<lambda>(k, v). (k, f v)) counts)"

fun summary_value :: "question_summary \<Rightarrow> jsval" where
  "summary_value (YesNoSummary questionId yes no) = JObj [(''questionId'', JStr questionId),
     (''answerType'', JStr ''yes_no''), (''yesCount'', nat_value yes), (''noCount'', nat_value no)]"
| "summary_value (MultipleChoiceSummary questionId counts) = JObj [(''questionId'', JStr questionId),
     (''answerType'', JStr ''multiple_choice''), (''optionCounts'', counts_value nat_value counts)]"
| "summary_value (RankSummary questionId scores rankCounts responses blanks) = JObj
     [(''questionId'', JStr questionId), (''answerType'', JStr ''rank''),
      (''optionScores'', counts_value (\<lambda>i. JNum (num_int i)) scores),
      (''rankCounts'', counts_value (counts_value nat_value) rankCounts),
      (''responseCount'', nat_value responses), (''blankResponseCount'', nat_value blanks)]"
| "summary_value (FreeTextSummary questionId count) = JObj [(''questionId'', JStr questionId),
     (''answerType'', JStr ''free_text''), (''freeTextCount'', nat_value count)]"

definition deriveQuestionnaireResultHash ::
  "host \<Rightarrow> string \<Rightarrow> nat \<Rightarrow> nat \<Rightarrow> nat \<Rightarrow> question_summary list \<Rightarrow> string option" where
  "deriveQuestionnaireResultHash h questionnaireId accepted rejected nullifiers summaries =
     map_option (host_sha256 h) (canonicalJsonStringify h (JObj
       [(''domain'', JStr QUESTIONNAIRE_RESULT_HASH_DOMAIN), (''questionnaire_id'', JStr questionnaireId),
        (''accepted_response_count'', nat_value accepted), (''rejected_response_count'', nat_value rejected),
        (''accepted_nullifier_count'', nat_value nullifiers),
        (''question_summaries'', JArr (map summary_value (sortQuestionSummariesCanonical h summaries)))]))"

section \<open>Facts\<close>

text \<open>A value without \<open>undefined\<close> and without a number that is not finite has a canonical text.\<close>

fun canonicalisable :: "jsval \<Rightarrow> bool" where
  "canonicalisable JUndefined = False"
| "canonicalisable (JNum n) = num_isFinite n"
| "canonicalisable (JArr vs) = (\<forall>v\<in>set vs. canonicalisable v)"
| "canonicalisable (JObj es) = (\<forall>e\<in>set es. canonicalisable (snd e))"
| "canonicalisable v = True"

lemma those_Some: "(\<And>x. x \<in> set xs \<Longrightarrow> f x \<noteq> None) \<Longrightarrow> those (map f xs) \<noteq> None"
  by (induction xs) (auto split: option.splits)

lemma canonicalisable_text: "canonicalisable v \<Longrightarrow> canonicalJsonStringify h v \<noteq> None"
proof (induction h v rule: canonicalJsonStringify.induct)
  case (6 h vs)
  then have "those (map (canonicalJsonStringify h) vs) \<noteq> None" by (intro those_Some) auto
  then show ?case by simp
next
  case (7 h es)
  have "Option.bind (obj_get (map (\<lambda>e. (fst e, canonicalJsonStringify h (snd e))) es) key) (\<lambda>t. t) \<noteq> None"
    if key: "key \<in> set (sort (map fst es))" for key
  proof -
    from key have "obj_get es key \<noteq> None" by (simp add: map_of_eq_None_iff)
    then obtain v where v: "obj_get es key = Some v" by blast
    then have "(key, v) \<in> set es" by (rule map_of_SomeD)
    with 7 have "canonicalJsonStringify h v \<noteq> None" by force
    with v show ?thesis by (simp add: map_of_map_snd)
  qed
  then have "those (map (\<lambda>key. map_option (\<lambda>v. json_string key @ '':'' @ v)
      (Option.bind (obj_get (map (\<lambda>e. (fst e, canonicalJsonStringify h (snd e))) es) key) (\<lambda>t. t)))
      (sort (map fst es))) \<noteq> None"
    by (intro those_Some) simp
  then show ?case by (simp add: canonicalJsonStringify.simps(7) Let_def)
qed auto

lemma normaliseBlindTokenScope_canonicalisable:
  "normaliseBlindTokenScope s = Some v \<Longrightarrow> canonicalisable v"
  by (auto simp: normaliseBlindTokenScope_def Let_def entry_if_def jstrings_def
      split: option.splits if_splits)

lemma canonicalisable_scope_entry: "e \<in> set (scope_entry s) \<Longrightarrow> canonicalisable (snd e)"
  by (auto simp: scope_entry_def normaliseBlindTokenScope_canonicalisable split: option.splits)

lemma signed_message_exists: "buildQuestionnaireBlindTokenSignedMessage h q c s \<noteq> None"
  unfolding buildQuestionnaireBlindTokenSignedMessage_def
  by (rule canonicalisable_text) (auto simp: signed_message_value_def dest: canonicalisable_scope_entry)

lemma nullifier_exists: "deriveQuestionnaireTokenNullifier h q t s \<noteq> None"
  unfolding deriveQuestionnaireTokenNullifier_def
  using canonicalisable_text [of "nullifier_value q t s" h]
  by (auto simp: nullifier_value_def dest: canonicalisable_scope_entry)

text \<open>Sanitising a scope changes neither the message nor the nullifier.\<close>

lemma index_or_zero_sanitise: "index_or 0 (sanitise_credential_index f) = (if index_or 0 f = 1 then 0 else index_or 0 f)"
proof (cases f)
  case (Present n)
  then show ?thesis using floor_at_least_ge [of 1 n] by (auto simp: index_or_def intro!: antisym)
qed (simp_all add: index_or_def)

lemma normaliseBlindTokenScope_sanitised:
  "normaliseBlindTokenScope (Some (sanitised_scope s)) = normaliseBlindTokenScope (Some s)"
proof -
  have incl: "(nullish (sc_allowedScopes (sanitised_scope s)) \<noteq> None
      \<or> normaliseQuestionnaireBallotGroup (nullish (sc_ballotGroup s)) \<noteq> None)
     = (nullish (sc_allowedScopes s) \<noteq> None \<or> normaliseQuestionnaireBallotGroup (nullish (sc_ballotGroup s)) \<noteq> None)"
    by (auto simp: sanitised_scope_def Let_def)
  have ids: "sc_questionId (sanitised_scope s) = sc_questionId s" "sc_slotId (sanitised_scope s) = sc_slotId s"
    "index_or 0 (sc_slotIndex (sanitised_scope s)) = index_or 0 (sc_slotIndex s)"
    "index_or 0 (sc_version (sanitised_scope s)) = index_or 0 (sc_version s)"
    "index_or 0 (sc_credentialIndex (sanitised_scope s))
       = (if index_or 0 (sc_credentialIndex s) = 1 then 0 else index_or 0 (sc_credentialIndex s))"
    by (simp_all add: sanitised_scope_def Let_def index_or_zero_sanitise)
  show ?thesis
    unfolding normaliseBlindTokenScope_def option.case Let_def sanitised_group sanitised_allowed incl ids
    by (simp add: entry_if_def)
qed

lemma normaliseBlindTokenScope_sanitise [simp]:
  "normaliseBlindTokenScope (sanitiseBallotScope s) = normaliseBlindTokenScope s"
proof (cases s)
  case (Some scope)
  have "normaliseBlindTokenScope (Some empty_scope) = None" by code_simp
  then show ?thesis
    using normaliseBlindTokenScope_sanitised [of scope] Some
    by (cases "sanitised_scope scope = empty_scope")
       (simp_all add: sanitiseBallotScope_Some normaliseBlindTokenScope_def [of None])
qed simp

lemma scope_entry_sanitise [simp]: "scope_entry (sanitiseBallotScope s) = scope_entry s"
  by (simp add: scope_entry_def)

text \<open>The message, written out.\<close>

definition scope_text :: "host \<Rightarrow> ballot_scope option \<Rightarrow> string" where
  "scope_text h s = (case normaliseBlindTokenScope s of None \<Rightarrow> []
     | Some v \<Rightarrow> json_string ''ballot_scope'' @ '':'' @ the (canonicalJsonStringify h v) @ '','')"

lemma message_keys:
  "sort [''questionnaire_id'', ''response_mode'', ''schema_version'', ''token_secret_commitment'']
     = [''questionnaire_id'', ''response_mode'', ''schema_version'', ''token_secret_commitment'']"
  "sort [''questionnaire_id'', ''response_mode'', ''schema_version'', ''token_secret_commitment'', ''ballot_scope'']
     = [''ballot_scope'', ''questionnaire_id'', ''response_mode'', ''schema_version'', ''token_secret_commitment'']"
  by code_simp+

definition message_middle :: string where
  "message_middle = '','' @ json_string ''response_mode'' @ '':'' @ json_string ''blind_token'' @ '',''
     @ json_string ''schema_version'' @ '':1,'' @ json_string ''token_secret_commitment'' @ '':''"

lemma string_of_one: "string_of_num h (num_int 1) = ''1''"
proof -
  have "string_of_nat 1 = ''1''" by code_simp
  then show ?thesis by (simp add: string_of_num_def num_int_def string_of_int_def)
qed

lemma signed_message_text:
  "buildQuestionnaireBlindTokenSignedMessage h q c s = Some (''{'' @ scope_text h s
     @ json_string ''questionnaire_id'' @ '':'' @ json_string q @ message_middle @ json_string c @ ''}'')"
proof (cases "normaliseBlindTokenScope s")
  case None
  show ?thesis
    using None string_of_one
    by (simp add: buildQuestionnaireBlindTokenSignedMessage_def signed_message_value_def scope_entry_def
        scope_text_def canonicalJsonStringify.simps(7) Let_def message_keys message_middle_def del: sort_key_simps)
next
  case (Some v)
  obtain t where "canonicalJsonStringify h v = Some t"
    using canonicalisable_text [OF normaliseBlindTokenScope_canonicalisable [OF Some]] by blast
  then show ?thesis
    using Some string_of_one
    by (simp add: buildQuestionnaireBlindTokenSignedMessage_def signed_message_value_def scope_entry_def
        scope_text_def canonicalJsonStringify.simps(7) Let_def message_keys message_middle_def del: sort_key_simps)
qed

lemma signed_message_inject:
  assumes "buildQuestionnaireBlindTokenSignedMessage h q c s = buildQuestionnaireBlindTokenSignedMessage h q' c' s"
  shows "q = q' \<and> c = c'"
proof -
  from assms have "json_string q @ (message_middle @ json_string c @ ''}'')
      = json_string q' @ (message_middle @ json_string c' @ ''}'')"
    unfolding signed_message_text by simp
  from json_string_decodes [OF this] have "q = q'" and "json_string c @ ''}'' = json_string c' @ ''}''"
    by simp_all
  with json_string_decodes show ?thesis by blast
qed

end
