(* ===== verification/Intake.thy ===== *)
theory Intake
  imports Acceptance Ballot_Validation Blind_Token
begin

text \<open>
  The coordinator's intake of queued ballots
  (\<open>web/src/questionnaireOptionARuntime.ts\<close>: the helpers of lines 843 to 1115 and the loop of
  \<open>processPendingSubmissionsInternal\<close>).  The model takes the queue as it stands when the loop
  starts and yields the new state with the decisions that the loop stores; acknowledgements,
  publications and log entries are left out.  The verification of a blind signature, an RSA
  operation of the browser's cryptography, is an argument.
\<close>

type_synonym blind_verifier = "blind_public_key \<Rightarrow> string \<Rightarrow> string \<Rightarrow> bool"

definition toQuestionnaireBlindPublicKey :: "blind_private_key \<Rightarrow> blind_public_key" where
  "toQuestionnaireBlindPublicKey key = \<lparr>bk_keyId = bpk_keyId key, bk_jwk = bpk_jwk key\<rparr>"

section \<open>Required questions\<close>

definition or_empty :: "string option \<Rightarrow> string option \<Rightarrow> string" where
  "or_empty a b = (if string_or_empty a \<noteq> [] then string_or_empty a else string_or_empty b)"

definition ballotCredentialProofQuestionId :: "credential_proof \<Rightarrow> string" where
  "ballotCredentialProofQuestionId proof = or_empty (map_option js_trim (cp_questionId proof))
     (map_option js_trim (Option.bind (cp_ballotScope proof) (\<lambda>s. nullish (sc_questionId s))))"

definition scopedRequiredQuestionIdsForSubmission :: "ballot_submission \<Rightarrow> string list \<Rightarrow> string list" where
  "scopedRequiredQuestionIdsForSubmission submission requiredQuestionIds =
     (let proofs = (case su_credentialBundle submission of Some ps \<Rightarrow> ps | None \<Rightarrow> []);
          covered = response_ids submission
            @ filter (\<lambda>q. q \<noteq> []) (map ballotCredentialProofQuestionId proofs)
      in if proofs = [] \<or> covered = [] then requiredQuestionIds
         else filter (\<lambda>questionId. questionId \<in> set covered) requiredQuestionIds)"

section \<open>Reasons and answers\<close>

fun inferRejectReason :: "coordinator_error option \<Rightarrow> reject_reason" where
  "inferRejectReason (Some CE_duplicate_nullifier) = DuplicateNullifier"
| "inferRejectReason (Some CE_already_voted) = AlreadyVoted"
| "inferRejectReason (Some CE_issuance_missing) = IssuanceMissing"
| "inferRejectReason (Some CE_election_not_open) = ElectionClosed"
| "inferRejectReason (Some CE_not_whitelisted) = NotWhitelisted"
| "inferRejectReason _ = SchemaInvalid"

datatype decision_reason =
    Daccepted | Dduplicate_nullifier | Dinvalid_token_proof | Dquestionnaire_closed | Dinvalid_payload_shape

definition toSubmissionDecisionReason :: "bool \<Rightarrow> reject_reason option \<Rightarrow> decision_reason" where
  "toSubmissionDecisionReason accepted rejectReason =
     (if accepted then Daccepted
      else if rejectReason = Some DuplicateNullifier \<or> rejectReason = Some AlreadyVoted then Dduplicate_nullifier
      else if rejectReason = Some InvalidCredential \<or> rejectReason = Some IssuanceMissing then Dinvalid_token_proof
      else if rejectReason = Some ElectionClosed then Dquestionnaire_closed
      else Dinvalid_payload_shape)"

fun fromSubmissionDecisionReason :: "decision_reason \<Rightarrow> reject_reason option" where
  "fromSubmissionDecisionReason Daccepted = None"
| "fromSubmissionDecisionReason Dduplicate_nullifier = Some DuplicateNullifier"
| "fromSubmissionDecisionReason Dinvalid_token_proof = Some InvalidCredential"
| "fromSubmissionDecisionReason Dquestionnaire_closed = Some ElectionClosed"
| "fromSubmissionDecisionReason Dinvalid_payload_shape = Some SchemaInvalid"

text \<open>The answers of a public response as ballot answers; a selection is copied.\<close>

definition fromQuestionnaireResponseAnswers :: "response_answer list \<Rightarrow> ballot_answer list" where
  "fromQuestionnaireResponseAnswers answers = map (\<lambda>answer.
     let body = ra_body answer;
         entry = (\<lambda>ty v. \<lparr>qa_questionId = ra_questionId answer, qa_type = ty, qa_answer = v,
                     qa_encryptForCoordinator = None\<rparr>)
     in if ab_answerType body = ''yes_no''
          then entry ''yes_no'' (if ab_value body \<in> {JBool False, JNull, JUndefined, JStr [], JNum (num_int 0), JNum NaN}
                 then JStr ''no'' else JStr ''yes'')
        else if ab_answerType body = ''multiple_choice'' then entry ''multiple_choice'' (ab_selectedOptionIds body)
        else if ab_answerType body = ''rank'' then entry ''rank'' (ab_rankedOptionIds body)
        else entry ''text'' (ab_text body)) answers"

section \<open>Replay after the close\<close>

definition timestampMs :: "host \<Rightarrow> string option \<Rightarrow> jsnum option" where
  "timestampMs h value = (let parsed = host_dateParse h (string_or_empty value)
     in if num_isFinite parsed then Some parsed else None)"

definition canReplaySubmissionAfterClose :: "host \<Rightarrow> ballot_submission \<Rightarrow> election_summary \<Rightarrow> bool" where
  "canReplaySubmissionAfterClose h submission election =
     (if es_state election \<noteq> Closed \<and> es_state election \<noteq> Counted then False
      else case (timestampMs h (Some (su_submittedAt submission)), timestampMs h (es_closedAt election)) of
        (Some submittedAt, Some closedAt) \<Rightarrow> num_le submittedAt closedAt
      | _ \<Rightarrow> False)"

definition electionStateForSubmissionValidation ::
  "host \<Rightarrow> ballot_submission \<Rightarrow> election_summary \<Rightarrow> election_phase" where
  "electionStateForSubmissionValidation h submission election =
     (if es_state election = Open \<or> canReplaySubmissionAfterClose h submission election then Open
      else es_state election)"

text \<open>The state for the reducer, and whether the ballot is replayed after the close.\<close>

definition stateForSubmissionIntake ::
  "host \<Rightarrow> coordinator_state \<Rightarrow> ballot_submission \<Rightarrow> coordinator_state \<times> bool" where
  "stateForSubmissionIntake h state submission =
     (if es_state (co_election state) = Open
         \<or> \<not> canReplaySubmissionAfterClose h submission (co_election state)
      then (state, False)
      else (state\<lparr>co_election := (co_election state)\<lparr>es_state := Open\<rparr>\<rparr>, True))"

section \<open>A coordinator's first state and the published summary\<close>

definition emptyCoordinatorState :: "election_summary \<Rightarrow> string \<Rightarrow> coordinator_state" where
  "emptyCoordinatorState summary now = \<lparr>co_election = summary, co_whitelist = [], co_bearerInviteCodes = [],
     co_paperBallotAdmissions = [], co_pendingBlindRequests = [], co_issuedBlindResponses = [],
     co_receivedSubmissions = [], co_acceptedNullifiers = [], co_acceptanceResults = [],
     co_blindSigningPrivateKey = None, co_lastUpdatedAt = now\<rparr>"

text \<open>A \<open>Partial<ElectionSummary>\<close>, as far as the merge reads it.\<close>

record summary_patch =
  sp_title :: "string option"
  sp_description :: "string option"
  sp_state :: "election_phase option"
  sp_openedAt :: "string option"
  sp_closedAt :: "string option"
  sp_protocolVersion :: "int option"
  sp_flowMode :: "string option"
  sp_responseMode :: "string option"
  sp_blindSigningPublicKey :: "blind_public_key option"
  sp_definitionCreatedAt :: "jsnum option"
  sp_questionnaireRelays :: "string list option"
  sp_issueBlindTokensWorker :: "worker_routing option"

definition merged_phase :: "election_phase \<Rightarrow> election_phase option \<Rightarrow> election_phase" where
  "merged_phase existing summaryState = (case summaryState of
     None \<Rightarrow> existing
   | Some st \<Rightarrow> if existing \<in> {Draft, Published, Open} \<or> st \<in> {Closed, Counted} then st else existing)"

definition mergeElectionSummaryIntoCoordinatorElection ::
  "election_summary \<Rightarrow> summary_patch option \<Rightarrow> election_summary" where
  "mergeElectionSummaryIntoCoordinatorElection existing summary = (case summary of
     None \<Rightarrow> existing
   | Some p \<Rightarrow> existing\<lparr>
       es_title := (case sp_title p of Some t \<Rightarrow> t | None \<Rightarrow> es_title existing),
       es_description := (case sp_description p of Some t \<Rightarrow> t | None \<Rightarrow> es_description existing),
       es_state := merged_phase (es_state existing) (sp_state p),
       es_openedAt := coalesce (sp_openedAt p) (es_openedAt existing),
       es_closedAt := coalesce (sp_closedAt p) (es_closedAt existing),
       es_protocolVersion := coalesce (sp_protocolVersion p) (es_protocolVersion existing),
       es_flowMode := coalesce (sp_flowMode p) (es_flowMode existing),
       es_responseMode := coalesce (sp_responseMode p) (es_responseMode existing),
       es_blindSigningPublicKey := coalesce (sp_blindSigningPublicKey p) (es_blindSigningPublicKey existing),
       es_definitionCreatedAt := coalesce (sp_definitionCreatedAt p) (es_definitionCreatedAt existing),
       es_questionnaireRelays := coalesce (sp_questionnaireRelays p) (es_questionnaireRelays existing),
       es_issueBlindTokensWorker := coalesce (sp_issueBlindTokensWorker p) (es_issueBlindTokensWorker existing)\<rparr>)"

section \<open>One queued ballot\<close>

text \<open>
  \<open>Skipped\<close>: the ballot had a decision and leaves the queue.  \<open>Deferred\<close>: it stays until the
  questionnaire opens.  \<open>Decided\<close>: the stored result.
\<close>

datatype intake_outcome = Skipped | Deferred | Decided acceptance_result

definition decision :: "string \<Rightarrow> ballot_submission \<Rightarrow> reject_reason option \<Rightarrow> string \<Rightarrow> acceptance_result" where
  "decision electionId submission reason now = \<lparr>ac_electionId = electionId,
     ac_submissionId = su_submissionId submission, ac_accepted = (reason = None), ac_reason = reason,
     ac_decidedAt = now\<rparr>"

definition election_public_key :: "coordinator_state \<Rightarrow> blind_public_key option" where
  "election_public_key s = coalesce (es_blindSigningPublicKey (co_election s))
     (map_option toQuestionnaireBlindPublicKey (co_blindSigningPrivateKey s))"

definition credential_valid :: "host \<Rightarrow> blind_verifier \<Rightarrow> string \<Rightarrow> blind_public_key option \<Rightarrow> credential_proof \<Rightarrow> bool" where
  "credential_valid h c electionId publicKey proof = (case publicKey of
     None \<Rightarrow> False
   | Some key \<Rightarrow> cp_blindSigningKeyId proof = bk_keyId key
       \<and> (case buildQuestionnaireBlindTokenSignedMessage h electionId (cp_tokenCommitment proof) (cp_ballotScope proof) of
            None \<Rightarrow> False | Some message \<Rightarrow> c key message (cp_credential proof)))"

definition credentials_valid :: "host \<Rightarrow> blind_verifier \<Rightarrow> string \<Rightarrow> coordinator_state \<Rightarrow> ballot_submission \<Rightarrow> bool" where
  "credentials_valid h c electionId s submission =
     (election_public_key s \<noteq> None
      \<and> list_all (credential_valid h c electionId (election_public_key s)) (submissionCredentialBundle submission))"

definition process_submission ::
  "host \<Rightarrow> blind_verifier \<Rightarrow> string \<Rightarrow> string list \<Rightarrow> questionnaire_definition option \<Rightarrow> string
     \<Rightarrow> coordinator_state \<Rightarrow> ballot_submission \<Rightarrow> circular_dependency + (coordinator_state \<times> intake_outcome)" where
  "process_submission h c electionId requiredQuestionIds cachedDefinition now next submission =
     (if obj_get (co_acceptanceResults next) (su_submissionId submission) \<noteq> None then Inr (next, Skipped)
      else if es_state (co_election next) \<notin> {Open, Closed, Counted} then Inr (next, Deferred)
      else
        let (intakeState, replayingAfterClose) = stateForSubmissionIntake h next submission;
            received = reduceCoordinatorEvent h intakeState (BALLOT_SUBMISSION_RECEIVED submission) now;
            rejected = (\<lambda>reason. Decided (decision electionId submission (Some reason) now))
        in if \<not> rr_ok received then Inr (next, rejected (inferRejectReason (rr_error received)))
           else
             let after = (if replayingAfterClose
                          then (rr_state received)\<lparr>co_election := co_election next\<rparr> else rr_state received)
             in case validateBallotSubmission h submission electionId
                       (electionStateForSubmissionValidation h submission (co_election after))
                       (scopedRequiredQuestionIdsForSubmission submission requiredQuestionIds) cachedDefinition of
                  Inl e \<Rightarrow> Inl e
                | Inr valid \<Rightarrow>
                    if \<not> valid then Inr (after, rejected SchemaInvalid)
                    else if \<not> credentials_valid h c electionId after submission
                    then Inr (after, rejected InvalidCredential)
                    else
                      let accepted = decision electionId submission None now;
                          reducedAccepted = reduceCoordinatorEvent h after (BALLOT_ACCEPTED accepted) now
                      in if rr_ok reducedAccepted then Inr (rr_state reducedAccepted, Decided accepted)
                         else Inr (after, rejected (inferRejectReason (rr_error reducedAccepted))))"

fun process_queue ::
  "host \<Rightarrow> blind_verifier \<Rightarrow> string \<Rightarrow> string list \<Rightarrow> questionnaire_definition option \<Rightarrow> string
     \<Rightarrow> coordinator_state \<Rightarrow> ballot_submission list
     \<Rightarrow> circular_dependency + (coordinator_state \<times> intake_outcome list)" where
  "process_queue h c electionId requiredQuestionIds cachedDefinition now next [] = Inr (next, [])"
| "process_queue h c electionId requiredQuestionIds cachedDefinition now next (submission # queue) =
     (case process_submission h c electionId requiredQuestionIds cachedDefinition now next submission of
        Inl e \<Rightarrow> Inl e
      | Inr (after, outcome) \<Rightarrow>
          (case process_queue h c electionId requiredQuestionIds cachedDefinition now after queue of
             Inl e \<Rightarrow> Inl e
           | Inr (final, outcomes) \<Rightarrow> Inr (final, outcome # outcomes)))"

end
