(* ===== verification/Intake_Safety.thy ===== *)
theory Intake_Safety
  imports Intake
begin

text \<open>
  What the intake loop does, seen from the ledger of counted ballots.  \<open>ledger s\<close> maps the
  identifier of every accepted submission to the ballot; a ballot is \<open>fresh\<close> for a ledger when
  it shares neither an identifier, nor a nullifier, nor a token with a counted one, and it is
  \<open>eligible\<close> when it passes every check that does not look at other ballots.  The loop over the
  queue refines the plain loop that adds each eligible and fresh ballot to the ledger.
\<close>

section \<open>The ledger\<close>

type_synonym ledger = "string \<rightharpoonup> ballot_submission"

definition ledger_of :: "coordinator_state \<Rightarrow> ledger" where
  "ledger_of s sid = (if accepted_submission s sid then obj_get (co_receivedSubmissions s) sid else None)"

definition nullifiers_of :: "ballot_submission \<Rightarrow> string set" where
  "nullifiers_of su = cp_nullifier ` set (submissionCredentialBundle su)"

definition fresh :: "ledger \<Rightarrow> ballot_submission \<Rightarrow> bool" where
  "fresh L su \<longleftrightarrow> su_submissionId su \<notin> dom L
     \<and> (\<forall>tid tu. L tid = Some tu \<longrightarrow> nullifiers_of su \<inter> nullifiers_of tu = {} \<and> \<not> shares_token su tu)"

definition ledger_step :: "(ballot_submission \<Rightarrow> bool) \<Rightarrow> ballot_submission \<Rightarrow> ledger \<Rightarrow> ledger" where
  "ledger_step ok su L = (if ok su \<and> fresh L su then L(su_submissionId su \<mapsto> su) else L)"

text \<open>The checks of one ballot that do not look at the other ballots.\<close>

definition receivable :: "host \<Rightarrow> coordinator_state \<Rightarrow> ballot_submission \<Rightarrow> bool" where
  "receivable h s su \<longleftrightarrow> su_electionId su = election_id s
     \<and> (es_state (co_election s) = Open \<or> canReplaySubmissionAfterClose h su (co_election s))
     \<and> validateResponsesSchema (bl_responses (su_payload su))
     \<and> (expected_key_id s \<noteq> [] \<longrightarrow> su_blindSigningKeyId su = expected_key_id s
          \<and> (\<forall>p\<in>set (submissionCredentialBundle su). cp_blindSigningKeyId p = expected_key_id s))"

definition eligible ::
  "host \<Rightarrow> blind_verifier \<Rightarrow> string \<Rightarrow> string list \<Rightarrow> questionnaire_definition option
     \<Rightarrow> coordinator_state \<Rightarrow> ballot_submission \<Rightarrow> bool" where
  "eligible h c electionId req d s su \<longleftrightarrow> receivable h s su
     \<and> validateBallotSubmission h su electionId
          (electionStateForSubmissionValidation h su (co_election s))
          (scopedRequiredQuestionIdsForSubmission su req) d = Inr True
     \<and> credentials_valid h c electionId s su"

definition ledger_inv :: "coordinator_state \<Rightarrow> bool" where
  "ledger_inv s \<longleftrightarrow> coordinator_inv s \<and> acceptance_inv s
     \<and> (\<forall>n sid. obj_get (co_acceptedNullifiers s) n = Some sid \<longrightarrow>
          (\<exists>su. ledger_of s sid = Some su \<and> n \<in> nullifiers_of su))
     \<and> (\<forall>sid res. obj_get (co_acceptanceResults s) sid = Some res \<longrightarrow> ac_accepted res)"

section \<open>Swapping the phase for a replay\<close>

lemma coordinator_inv_election:
  assumes "es_electionId el = election_id s"
  shows "coordinator_inv (s\<lparr>co_election := el\<rparr>) = coordinator_inv s"
  using assms
  by (simp add: coordinator_inv_def pending_inv_def issued_inv_def received_inv_def whitelisted_def
      election_id_def)

lemma acceptance_inv_election [simp]: "acceptance_inv (s\<lparr>co_election := el\<rparr>) = acceptance_inv s"
  by (rule acceptance_inv_cong) simp_all

lemma ledger_of_election [simp]: "ledger_of (s\<lparr>co_election := el\<rparr>) = ledger_of s"
  by (simp add: ledger_of_def accepted_submission_def fun_eq_iff)

lemma ledger_inv_election:
  "es_electionId el = election_id s \<Longrightarrow> ledger_inv (s\<lparr>co_election := el\<rparr>) = ledger_inv s"
  by (simp add: ledger_inv_def coordinator_inv_election)

lemma ledger_of_cong:
  assumes "co_receivedSubmissions t = co_receivedSubmissions s"
    and "co_acceptanceResults t = co_acceptanceResults s"
  shows "ledger_of t = ledger_of s"
  using assms by (simp add: ledger_of_def accepted_submission_def fun_eq_iff)

lemma eligible_cong:
  "co_election t = co_election s \<Longrightarrow> co_blindSigningPrivateKey t = co_blindSigningPrivateKey s \<Longrightarrow>
     eligible h c electionId req d t su = eligible h c electionId req d s su"
  by (simp add: eligible_def receivable_def credentials_valid_def election_public_key_def
      expected_key_id_def election_id_def)

section \<open>Receiving and accepting\<close>

lemma clone_key [simp]: "co_blindSigningPrivateKey (cloneCoordinatorState h s) = co_blindSigningPrivateKey s"
  by (simp add: cloneCoordinatorState_def)

text \<open>The state after \<open>BALLOT_SUBMISSION_RECEIVED\<close>, the phase put back.\<close>

definition received_state :: "host \<Rightarrow> coordinator_state \<Rightarrow> ballot_submission \<Rightarrow> coordinator_state" where
  "received_state h s su = (cloneCoordinatorState h s)\<lparr>
     co_receivedSubmissions := obj_set (su_submissionId su) su (co_receivedSubmissions s),
     co_lastUpdatedAt := su_submittedAt su\<rparr>"

lemma received_state_fields [simp]:
  "co_election (received_state h s su) = co_election s"
  "co_acceptedNullifiers (received_state h s su) = co_acceptedNullifiers s"
  "co_acceptanceResults (received_state h s su) = co_acceptanceResults s"
  "co_receivedSubmissions (received_state h s su) = obj_set (su_submissionId su) su (co_receivedSubmissions s)"
  "co_blindSigningPrivateKey (received_state h s su) = co_blindSigningPrivateKey s"
  by (simp_all add: received_state_def)

lemma clone_election:
  "cloneCoordinatorState h (s\<lparr>co_election := el\<rparr>) = (cloneCoordinatorState h s)\<lparr>co_election := el\<rparr>"
  by (simp add: cloneCoordinatorState_def)

lemma receive_open:
  assumes "es_state (co_election s) = Open"
  shows "rr_ok (reduceCoordinatorEvent h s (BALLOT_SUBMISSION_RECEIVED su) now) = receivable h s su"
    and "receivable h s su \<Longrightarrow>
      rr_state (reduceCoordinatorEvent h s (BALLOT_SUBMISSION_RECEIVED su) now) = received_state h s su"
  using assms
  by (auto simp: coordinator_submission_received_def Let_def receivable_def received_state_def election_id_def
      expected_key_id_def list_ex_iff refuse_def accept_def canReplaySubmissionAfterClose_def
      split: option.splits)

lemma receive_closed:
  assumes "es_state (co_election s) \<noteq> Open"
  shows "\<not> rr_ok (reduceCoordinatorEvent h s (BALLOT_SUBMISSION_RECEIVED su) now)"
  using assms by (simp add: coordinator_submission_received_def Let_def refuse_def)

definition replayed :: "coordinator_state \<Rightarrow> coordinator_state" where
  "replayed s = s\<lparr>co_election := (co_election s)\<lparr>es_state := Open\<rparr>\<rparr>"

lemma receivable_replayed:
  "canReplaySubmissionAfterClose h su (co_election s) \<Longrightarrow> receivable h (replayed s) su = receivable h s su"
  by (simp add: receivable_def replayed_def election_id_def expected_key_id_def)

text \<open>Receiving the ballot in the state for the intake, and the state that the loop goes on with.\<close>

definition intake_state :: "host \<Rightarrow> coordinator_state \<Rightarrow> ballot_submission \<Rightarrow> coordinator_state" where
  "intake_state h s su = fst (stateForSubmissionIntake h s su)"

definition after_receive ::
  "host \<Rightarrow> coordinator_state \<Rightarrow> ballot_submission \<Rightarrow> coordinator_result \<Rightarrow> coordinator_state" where
  "after_receive h s su received = (if snd (stateForSubmissionIntake h s su)
     then (rr_state received)\<lparr>co_election := co_election s\<rparr> else rr_state received)"

lemma intake_receive:
  fixes now :: string
  defines "received h s su \<equiv>
    reduceCoordinatorEvent h (intake_state h s su) (BALLOT_SUBMISSION_RECEIVED su) now"
  shows "rr_ok (received h s su) = receivable h s su"
    and "receivable h s su \<Longrightarrow> after_receive h s su (received h s su) = received_state h s su"
proof -
  consider (is_open) "es_state (co_election s) = Open"
    | (replay) "es_state (co_election s) \<noteq> Open" "canReplaySubmissionAfterClose h su (co_election s)"
    | (closed) "es_state (co_election s) \<noteq> Open" "\<not> canReplaySubmissionAfterClose h su (co_election s)" by blast
  then have "rr_ok (received h s su) = receivable h s su
      \<and> (receivable h s su \<longrightarrow> after_receive h s su (received h s su) = received_state h s su)"
  proof cases
    case is_open
    then have "intake_state h s su = s" "\<not> snd (stateForSubmissionIntake h s su)"
      by (simp_all add: intake_state_def stateForSubmissionIntake_def)
    with receive_open [OF is_open] show ?thesis
      by (simp add: received_def after_receive_def del: reduceCoordinatorEvent.simps)
  next
    case replay
    then have st: "intake_state h s su = replayed s" "snd (stateForSubmissionIntake h s su)"
      by (simp_all add: intake_state_def stateForSubmissionIntake_def replayed_def)
    have "es_state (co_election (replayed s)) = Open" by (simp add: replayed_def)
    note receive_open [OF this, of h su now]
    moreover have "(received_state h (replayed s) su)\<lparr>co_election := co_election s\<rparr> = received_state h s su"
      by (simp add: received_state_def replayed_def cloneCoordinatorState_def)
    ultimately show ?thesis using st receivable_replayed [OF replay(2)]
      by (simp add: received_def after_receive_def del: reduceCoordinatorEvent.simps)
  next
    case closed
    then have "intake_state h s su = s"
      by (simp add: intake_state_def stateForSubmissionIntake_def)
    moreover from closed have "\<not> receivable h s su" by (simp add: receivable_def)
    ultimately show ?thesis using receive_closed [OF closed(1)]
      by (simp add: received_def del: reduceCoordinatorEvent.simps)
  qed
  then show "rr_ok (received h s su) = receivable h s su"
    and "receivable h s su \<Longrightarrow> after_receive h s su (received h s su) = received_state h s su"
    by blast+
qed

lemma process_submission_unfold:
  "process_submission h c electionId req d now s su =
     (if obj_get (co_acceptanceResults s) (su_submissionId su) \<noteq> None then Inr (s, Skipped)
      else if es_state (co_election s) \<notin> {Open, Closed, Counted} then Inr (s, Deferred)
      else if \<not> receivable h s su
      then Inr (s, Decided (decision electionId su (Some (inferRejectReason (rr_error
             (reduceCoordinatorEvent h (intake_state h s su) (BALLOT_SUBMISSION_RECEIVED su) now)))) now))
      else let after = received_state h s su;
               accepted = decision electionId su None now;
               reduced = reduceCoordinatorEvent h after (BALLOT_ACCEPTED accepted) now
           in case validateBallotSubmission h su electionId
                 (electionStateForSubmissionValidation h su (co_election s))
                 (scopedRequiredQuestionIdsForSubmission su req) d of
             Inl e \<Rightarrow> Inl e
           | Inr valid \<Rightarrow>
               if \<not> valid then Inr (after, Decided (decision electionId su (Some SchemaInvalid) now))
               else if \<not> credentials_valid h c electionId s su
               then Inr (after, Decided (decision electionId su (Some InvalidCredential) now))
               else if rr_ok reduced then Inr (rr_state reduced, Decided accepted)
               else Inr (after, Decided (decision electionId su (Some (inferRejectReason (rr_error reduced))) now)))"
proof -
  have cv: "credentials_valid h c electionId (received_state h s su) su = credentials_valid h c electionId s su"
    by (simp add: credentials_valid_def election_public_key_def)
  obtain st rep where sr: "stateForSubmissionIntake h s su = (st, rep)" by fastforce
  then have st: "intake_state h s su = st" and rep: "snd (stateForSubmissionIntake h s su) = rep"
    by (simp_all add: intake_state_def)
  note ok = intake_receive(1) [of h s su now, unfolded st]
  show ?thesis
  proof (cases "receivable h s su")
    case True
    from intake_receive(2) [OF this, of now] have after:
      "(if rep then (rr_state (reduceCoordinatorEvent h st (BALLOT_SUBMISSION_RECEIVED su) now))\<lparr>co_election := co_election s\<rparr>
        else rr_state (reduceCoordinatorEvent h st (BALLOT_SUBMISSION_RECEIVED su) now)) = received_state h s su"
      by (simp only: after_receive_def st rep)
    show ?thesis
      using True ok
      by (simp only: process_submission_def sr Let_def prod.case after cv received_state_fields simp_thms if_True if_False)
  next
    case False
    with ok show ?thesis
      by (simp add: process_submission_def sr st Let_def del: reduceCoordinatorEvent.simps)
  qed
qed

section \<open>Receiving keeps the ledger\<close>

lemma receive_keeps_coordinator_inv:
  assumes "coordinator_inv s" "receivable h s su"
  shows "coordinator_inv (received_state h s su)"
proof -
  have rep: "coordinator_inv (replayed s)" "es_state (co_election (replayed s)) = Open"
    "receivable h (replayed s) su"
    using assms by (simp_all add: replayed_def coordinator_inv_election election_id_def receivable_def
        expected_key_id_def)
  have "coordinator_inv (rr_state (coordinator_step h ([], BALLOT_SUBMISSION_RECEIVED su) (replayed s)))"
    by (rule coordinator.inv_step) (rule rep(1))
  then have "coordinator_inv (received_state h (replayed s) su)"
    using receive_open(2) [OF rep(2,3), of "[]"] by (simp only: coordinator_step_def fst_conv snd_conv)
  moreover have "received_state h (replayed s) su
      = (received_state h s su)\<lparr>co_election := co_election (replayed s)\<rparr>"
    by (simp add: received_state_def replayed_def cloneCoordinatorState_def)
  ultimately show ?thesis
    by (simp add: coordinator_inv_election replayed_def election_id_def)
qed

lemma receive_keeps_ledger:
  assumes inv: "ledger_inv s" and ok: "receivable h s su" and sid: "su_submissionId su \<noteq> []"
    and new: "obj_get (co_acceptanceResults s) (su_submissionId su) = None"
  shows "ledger_of (received_state h s su) = ledger_of s" and "ledger_inv (received_state h s su)"
proof -
  let ?t = "received_state h s su"
  have un: "\<not> accepted_submission s (su_submissionId su)" using new by (simp add: accepted_submission_def)
  show led: "ledger_of ?t = ledger_of s"
  proof
    fix x
    show "ledger_of ?t x = ledger_of s x"
      using un by (cases "x = su_submissionId su") (simp_all add: ledger_of_def accepted_submission_def)
  qed
  have "coordinator_inv ?t" using inv ok by (simp add: ledger_inv_def receive_keeps_coordinator_inv)
  moreover have "acceptance_inv ?t"
    by (rule receive_keeps [of s su]) (use inv un sid in \<open>simp_all add: ledger_inv_def\<close>)
  ultimately show "ledger_inv ?t" using inv led by (simp add: ledger_inv_def)
qed

section \<open>Accepting\<close>

lemma ledger_holds:
  assumes "ledger_inv s" "ledger_of s tid = Some tu"
  shows "accepted_submission s tid" "obj_get (co_receivedSubmissions s) tid = Some tu" "tid \<noteq> []"
    and "n \<in> nullifiers_of tu \<Longrightarrow> obj_get (co_acceptedNullifiers s) n = Some tid"
proof -
  show acc: "accepted_submission s tid" and get: "obj_get (co_receivedSubmissions s) tid = Some tu"
    using assms(2) by (auto simp: ledger_of_def split: if_splits)
  show "tid \<noteq> []" using get assms(1) by (auto simp: ledger_inv_def acceptance_inv_def)
  have "holds_nullifiers s tid tu" using acc get assms(1) unfolding ledger_inv_def acceptance_inv_def by blast
  then show "n \<in> nullifiers_of tu \<Longrightarrow> obj_get (co_acceptedNullifiers s) n = Some tid"
    by (auto simp: holds_nullifiers_def nullifiers_of_def)
qed

lemma ledger_of_accepted:
  assumes "ledger_inv s" "accepted_submission s tid"
  obtains tu where "ledger_of s tid = Some tu"
proof -
  have "obj_get (co_acceptanceResults s) tid \<noteq> None"
    using assms(2) unfolding accepted_submission_def by (cases "obj_get (co_acceptanceResults s) tid") simp_all
  then have "obj_get (co_receivedSubmissions s) tid \<noteq> None"
    using assms(1) unfolding ledger_inv_def coordinator_inv_def received_inv_def by blast
  with assms(2) that show ?thesis by (auto simp: ledger_of_def)
qed

lemma taken_iff:
  assumes inv: "ledger_inv s" and new: "\<not> accepted_submission s sid"
  shows "nullifier_taken s sid n \<longleftrightarrow> (\<exists>tid tu. ledger_of s tid = Some tu \<and> n \<in> nullifiers_of tu)"
proof
  assume "nullifier_taken s sid n"
  then obtain tid where "obj_get (co_acceptedNullifiers s) n = Some tid"
    by (auto simp: nullifier_taken_def split: option.splits)
  with inv show "\<exists>tid tu. ledger_of s tid = Some tu \<and> n \<in> nullifiers_of tu"
    unfolding ledger_inv_def by blast
next
  assume "\<exists>tid tu. ledger_of s tid = Some tu \<and> n \<in> nullifiers_of tu"
  then obtain tid tu where t: "ledger_of s tid = Some tu" "n \<in> nullifiers_of tu" by blast
  note l = ledger_holds [OF inv t(1)]
  have "tid \<noteq> sid" using l(1) new by blast
  with l(3,4) t(2) show "nullifier_taken s sid n" by (simp add: nullifier_taken_def)
qed

lemma accepted_for_token_iff:
  assumes inv: "ledger_inv s" and new: "\<not> accepted_submission s (su_submissionId su)"
  shows "accepted_for_token s su \<longleftrightarrow> (\<exists>tid tu. ledger_of s tid = Some tu \<and> shares_token su tu)"
proof -
  have dist: "distinct (map fst (co_acceptanceResults s))"
    using inv unfolding ledger_inv_def coordinator_inv_def received_inv_def by blast
  have entry: "(\<exists>r. (tid, r) \<in> set (js_entries (co_acceptanceResults s)) \<and> ac_accepted r)
      \<longleftrightarrow> accepted_submission s tid" for tid
    unfolding accepted_submission_def set_js_entries map_of_eq_Some_iff [OF dist, symmetric]
    by (cases "obj_get (co_acceptanceResults s) tid") (simp_all del: map_of_eq_Some_iff)
  have "accepted_for_token s su \<longleftrightarrow> (\<exists>tid. accepted_submission s tid \<and> tid \<noteq> su_submissionId su
      \<and> (\<exists>tu. obj_get (co_receivedSubmissions s) tid = Some tu \<and> shares_token su tu))"
    unfolding entry [symmetric]
    by (fastforce simp: accepted_for_token_def list_ex_iff split: option.splits)
  also have "\<dots> \<longleftrightarrow> (\<exists>tid tu. ledger_of s tid = Some tu \<and> shares_token su tu)"
    using new by (auto simp: ledger_of_def)
  finally show ?thesis .
qed

lemma fresh_iff:
  assumes inv: "ledger_inv s" and new: "\<not> accepted_submission s (su_submissionId su)"
  shows "fresh (ledger_of s) su \<longleftrightarrow>
     \<not> list_ex (\<lambda>p. nullifier_taken s (su_submissionId su) (cp_nullifier p)) (submissionCredentialBundle su)
     \<and> \<not> accepted_for_token s su"
proof -
  have "su_submissionId su \<notin> dom (ledger_of s)" using new by (simp add: ledger_of_def dom_def)
  moreover have "list_ex (\<lambda>p. nullifier_taken s (su_submissionId su) (cp_nullifier p)) (submissionCredentialBundle su)
      \<longleftrightarrow> (\<exists>n\<in>nullifiers_of su. \<exists>tid tu. ledger_of s tid = Some tu \<and> n \<in> nullifiers_of tu)"
    by (simp add: list_ex_iff taken_iff [OF inv new] nullifiers_of_def)
  ultimately show ?thesis
    unfolding fresh_def accepted_for_token_iff [OF inv new] by blast
qed

lemma clone_ledger: "ledger_inv s \<Longrightarrow> ledger_inv (cloneCoordinatorState h s)"
  "ledger_of (cloneCoordinatorState h s) = ledger_of s"
proof -
  show led: "ledger_of (cloneCoordinatorState h s) = ledger_of s" by (rule ledger_of_cong) simp_all
  show "ledger_inv s \<Longrightarrow> ledger_inv (cloneCoordinatorState h s)"
    unfolding ledger_inv_def led by (simp add: coordinator_clone_inv)
qed

lemma accept_step:
  fixes now :: string and h :: host
  assumes inv: "ledger_inv t"
    and su: "obj_get (co_receivedSubmissions t) (su_submissionId su) = Some su"
    and new: "obj_get (co_acceptanceResults t) (su_submissionId su) = None"
    and result: "ac_electionId result = election_id t" "ac_submissionId result = su_submissionId su" "ac_accepted result"
  defines "r \<equiv> reduceCoordinatorEvent h t (BALLOT_ACCEPTED result) now"
  shows "rr_ok r = fresh (ledger_of t) su"
    and "fresh (ledger_of t) su \<Longrightarrow> ledger_of (rr_state r) = (ledger_of t)(su_submissionId su \<mapsto> su)"
    and "fresh (ledger_of t) su \<Longrightarrow> ledger_inv (rr_state r)"
    and "fresh (ledger_of t) su \<Longrightarrow> co_election (rr_state r) = co_election t
      \<and> co_blindSigningPrivateKey (rr_state r) = co_blindSigningPrivateKey t"
proof -
  let ?n = "cloneCoordinatorState h t" and ?sid = "su_submissionId su"
  have n: "ledger_inv ?n" "\<not> accepted_submission ?n ?sid" "election_id ?n = election_id t"
    using inv new by (simp_all add: clone_ledger accepted_submission_def election_id_def)
  note fresh = fresh_iff [OF n(1,2), unfolded clone_ledger(2)]
  let ?t' = "?n\<lparr>co_acceptedNullifiers := record_nullifiers su ?sid (co_acceptedNullifiers ?n),
      co_acceptanceResults := obj_set ?sid result (co_acceptanceResults ?n),
      co_lastUpdatedAt := ac_decidedAt result\<rparr>"
  have r: "r = (if fresh (ledger_of t) su then accept ?t' else r)" and ok: "rr_ok r = fresh (ledger_of t) su"
    unfolding fresh r_def using result n(3) su new
    by (auto simp: coordinator_ballot_accepted_def refuse_def accept_def)
  show "rr_ok r = fresh (ledger_of t) su" by (rule ok)
  assume fr: "fresh (ledger_of t) su"
  with r have st: "rr_state r = ?t'" by (simp add: accept_def)
  show "co_election (rr_state r) = co_election t
      \<and> co_blindSigningPrivateKey (rr_state r) = co_blindSigningPrivateKey t"
    by (simp add: st)
  show led: "ledger_of (rr_state r) = (ledger_of t)(?sid \<mapsto> su)"
    using su result(3) by (simp add: st ledger_of_def accepted_submission_def fun_eq_iff)
  have "coordinator_inv (rr_state r)"
    using inv coordinator.inv_step [of t h "(now, BALLOT_ACCEPTED result)"]
    by (simp only: ledger_inv_def coordinator_step_def fst_conv snd_conv r_def)
  moreover have "acceptance_inv (rr_state r)"
    using inv admissible_event_keeps [of t "BALLOT_ACCEPTED result" h now]
    by (simp add: ledger_inv_def r_def del: reduceCoordinatorEvent.simps)
  moreover have "\<exists>tu. ledger_of (rr_state r) tid = Some tu \<and> m \<in> nullifiers_of tu"
    if m: "obj_get (co_acceptedNullifiers (rr_state r)) m = Some tid" for m tid
  proof (cases "m \<in> nullifiers_of su")
    case True
    with m have "tid = ?sid" by (simp add: st record_nullifiers_get nullifiers_of_def)
    with True show ?thesis by (simp add: led)
  next
    case False
    with m have "obj_get (co_acceptedNullifiers t) m = Some tid"
      by (simp add: st record_nullifiers_get nullifiers_of_def)
    then obtain tu where tu: "ledger_of t tid = Some tu" "m \<in> nullifiers_of tu"
      using inv unfolding ledger_inv_def by blast
    moreover have "tid \<noteq> ?sid" using tu(1) fr by (auto simp: fresh_def)
    ultimately show ?thesis by (simp add: led)
  qed
  moreover have "ac_accepted res" if "obj_get (co_acceptanceResults (rr_state r)) x = Some res" for x res
  proof (cases "x = ?sid")
    case False
    with that inv show ?thesis unfolding ledger_inv_def by (simp add: st)
  qed (use that result(3) in \<open>simp add: st\<close>)
  ultimately show "ledger_inv (rr_state r)" unfolding ledger_inv_def by blast
qed

section \<open>One ballot refines one step of the ledger\<close>

lemma validated_election: "validateBallotSubmission h su electionId phase req d = Inr True \<Longrightarrow> su_electionId su = electionId"
  by (auto simp: validateBallotSubmission_def Let_def ballot_envelope_ok_def split: if_splits)

fun counted_outcome :: "intake_outcome \<Rightarrow> bool" where
  "counted_outcome (Decided result) = ac_accepted result"
| "counted_outcome _ = False"

lemma process_submission_refines:
  assumes inv: "ledger_inv s" and sid: "su_submissionId su \<noteq> []"
    and run: "process_submission h c electionId req d now s su = Inr (t, outcome)"
  defines "ok \<equiv> eligible h c electionId req d s"
  shows "ledger_inv t" and "ledger_of t = ledger_step ok su (ledger_of s)"
    and "counted_outcome outcome \<longleftrightarrow> ok su \<and> fresh (ledger_of s) su"
    and "co_election t = co_election s" "co_blindSigningPrivateKey t = co_blindSigningPrivateKey s"
proof -
  let ?sid = "su_submissionId su"
  have "ledger_inv t \<and> ledger_of t = ledger_step ok su (ledger_of s)
    \<and> (counted_outcome outcome \<longleftrightarrow> ok su \<and> fresh (ledger_of s) su)
    \<and> co_election t = co_election s \<and> co_blindSigningPrivateKey t = co_blindSigningPrivateKey s"
  proof (cases "obj_get (co_acceptanceResults s) ?sid")
    case (Some res)
    then have "accepted_submission s ?sid"
      using inv by (auto simp: accepted_submission_def ledger_inv_def)
    then have "\<not> fresh (ledger_of s) su"
      using ledger_of_accepted [OF inv] by (metis domI fresh_def)
    with Some inv run show ?thesis
      by (auto simp: process_submission_unfold ledger_step_def)
  next
    case None
    show ?thesis
    proof (cases "receivable h s su")
      case False
      then have "\<not> ok su" by (simp add: ok_def eligible_def)
      with False None inv run show ?thesis
        by (auto simp: process_submission_unfold ledger_step_def decision_def split: if_splits
            simp del: reduceCoordinatorEvent.simps)
    next
      case True
      let ?t = "received_state h s su" and ?acc = "decision electionId su None now"
      let ?r = "reduceCoordinatorEvent h ?t (BALLOT_ACCEPTED ?acc) now"
      note keep = receive_keeps_ledger [OF inv True sid None]
      have phase: "es_state (co_election s) \<in> {Open, Closed, Counted}"
        using True by (auto simp: receivable_def canReplaySubmissionAfterClose_def split: if_splits)
      obtain valid where valid: "validateBallotSubmission h su electionId
          (electionStateForSubmissionValidation h su (co_election s))
          (scopedRequiredQuestionIdsForSubmission su req) d = Inr valid"
        using run None True phase by (auto simp: process_submission_unfold Let_def split: sum.splits)
      show ?thesis
      proof (cases "valid \<and> credentials_valid h c electionId s su")
        case False
        with valid have "\<not> ok su" by (auto simp: ok_def eligible_def)
        with False valid None True phase run keep show ?thesis
          by (auto simp: process_submission_unfold Let_def ledger_step_def decision_def split: if_splits
              simp del: reduceCoordinatorEvent.simps)
      next
        case cred: True
        have ok: "ok su" using True valid cred by (simp add: ok_def eligible_def)
        have el: "electionId = election_id s"
          using validated_election valid cred True by (auto simp: receivable_def)
        have acc: "ac_electionId ?acc = election_id ?t" "ac_submissionId ?acc = ?sid" "ac_accepted ?acc"
          using el by (simp_all add: decision_def election_id_def)
        have su: "obj_get (co_receivedSubmissions ?t) ?sid = Some su"
          and new: "obj_get (co_acceptanceResults ?t) ?sid = None" using None by simp_all
        note step = accept_step [OF keep(2) su new acc, of h now, unfolded keep(1)]
        have res: "(t, outcome) = (if rr_ok ?r then (rr_state ?r, Decided ?acc)
            else (?t, Decided (decision electionId su (Some (inferRejectReason (rr_error ?r))) now)))"
          using run None True phase valid cred
          by (auto simp: process_submission_unfold Let_def split: if_splits simp del: reduceCoordinatorEvent.simps)
        show ?thesis
        proof (cases "fresh (ledger_of s) su")
          case fr: True
          with res step(1) acc(3) have "t = rr_state ?r" "counted_outcome outcome" by simp_all
          with step(2-4) [OF fr] ok fr show ?thesis by (simp add: ledger_step_def)
        next
          case fr: False
          with res step(1) have "t = ?t" "\<not> counted_outcome outcome" by (simp_all add: decision_def)
          with keep fr show ?thesis by (simp add: ledger_step_def)
        qed
      qed
    qed
  qed
  then show "ledger_inv t" and "ledger_of t = ledger_step ok su (ledger_of s)"
    and "counted_outcome outcome \<longleftrightarrow> ok su \<and> fresh (ledger_of s) su"
    and "co_election t = co_election s" "co_blindSigningPrivateKey t = co_blindSigningPrivateKey s"
    by blast+
qed

section \<open>The queue\<close>

lemma process_queue_refines:
  assumes "ledger_inv s" "\<forall>su\<in>set queue. su_submissionId su \<noteq> []"
    and "process_queue h c electionId req d now s queue = Inr (t, outcomes)"
  shows "ledger_inv t \<and> ledger_of t = fold (ledger_step (eligible h c electionId req d s)) queue (ledger_of s)
     \<and> co_election t = co_election s \<and> length outcomes = length queue"
  using assms
proof (induction queue arbitrary: s outcomes)
  case (Cons su queue)
  from Cons.prems(3) obtain u outcome rest where
    run: "process_submission h c electionId req d now s su = Inr (u, outcome)"
    and more: "process_queue h c electionId req d now u queue = Inr (t, rest)" "outcomes = outcome # rest"
    by (auto split: sum.splits)
  have sid: "su_submissionId su \<noteq> []" using Cons.prems(2) by simp
  note step = process_submission_refines [OF Cons.prems(1) sid run]
  have same: "eligible h c electionId req d u = eligible h c electionId req d s"
    using eligible_cong [OF step(4,5)] by blast
  show ?case
    using Cons.IH [OF step(1) _ more(1)] Cons.prems(2) step(2,4) more(2) by (simp add: same)
qed simp

lemma accepted_dom:
  assumes "ledger_inv s"
  shows "dom (ledger_of s) = fst ` set (co_acceptanceResults s)"
proof -
  have "tid \<in> dom (ledger_of s) \<longleftrightarrow> obj_get (co_acceptanceResults s) tid \<noteq> None" for tid
  proof
    assume "tid \<in> dom (ledger_of s)"
    then have "accepted_submission s tid" by (auto simp: ledger_of_def split: if_splits)
    then show "obj_get (co_acceptanceResults s) tid \<noteq> None"
      unfolding accepted_submission_def by (cases "obj_get (co_acceptanceResults s) tid") simp_all
  next
    assume "obj_get (co_acceptanceResults s) tid \<noteq> None"
    then obtain res where res: "obj_get (co_acceptanceResults s) tid = Some res" by blast
    with assms have "accepted_submission s tid" by (auto simp: accepted_submission_def ledger_inv_def)
    with assms show "tid \<in> dom (ledger_of s)" by (rule ledger_of_accepted) blast
  qed
  then show ?thesis by (auto simp: map_of_eq_None_iff)
qed

text \<open>The published count is the size of the ledger.\<close>

lemma count_is_ledger_size:
  assumes inv: "ledger_inv s"
  shows "countAcceptedUniqueVoters s = card (dom (ledger_of s))"
proof -
  let ?rs = "co_acceptanceResults s"
  have dist: "distinct (map fst ?rs)"
    using inv unfolding ledger_inv_def coordinator_inv_def received_inv_def by blast
  have all: "ac_accepted res" if "res \<in> set (js_values ?rs)" for res
  proof -
    from that obtain k where "(k, res) \<in> set ?rs" by auto
    with dist have "obj_get ?rs k = Some res" by simp
    with inv show ?thesis unfolding ledger_inv_def by blast
  qed
  have "countAcceptedUniqueVoters s = length (js_entries ?rs)"
    using all by (simp add: countAcceptedUniqueVoters_def js_values_def filter_True)
  also have "\<dots> = card (fst ` set ?rs)"
    using distinct_card [OF distinct_js_entries [OF dist]] by simp
  finally show ?thesis by (simp add: accepted_dom [OF inv])
qed

lemma process_queue_count:
  assumes "ledger_inv s" "\<forall>su\<in>set queue. su_submissionId su \<noteq> []"
    and "process_queue h c electionId req d now s queue = Inr (t, outcomes)"
  shows "countAcceptedUniqueVoters t = countAcceptedUniqueVoters s + length (filter counted_outcome outcomes)"
  using assms
proof (induction queue arbitrary: s outcomes)
  case (Cons su queue)
  from Cons.prems(3) obtain u outcome rest where
    run: "process_submission h c electionId req d now s su = Inr (u, outcome)"
    and more: "process_queue h c electionId req d now u queue = Inr (t, rest)" "outcomes = outcome # rest"
    by (auto split: sum.splits)
  have sid: "su_submissionId su \<noteq> []" using Cons.prems(2) by simp
  note step = process_submission_refines [OF Cons.prems(1) sid run]
  have fin: "finite (dom (ledger_of s))" by (simp add: accepted_dom [OF Cons.prems(1)])
  have "countAcceptedUniqueVoters u = countAcceptedUniqueVoters s + (if counted_outcome outcome then 1 else 0)"
    using step(2,3) fin
    by (auto simp: count_is_ledger_size [OF step(1)] count_is_ledger_size [OF Cons.prems(1)] ledger_step_def fresh_def)
  with Cons.IH [OF step(1) _ more(1)] Cons.prems(2) more(2) show ?case by simp
qed simp

lemma ledger_inv_empty: "ledger_inv (emptyCoordinatorState summary now)"
  by (simp add: ledger_inv_def coordinator_inv_def acceptance_inv_def pending_inv_def issued_inv_def received_inv_def
      emptyCoordinatorState_def accepted_submission_def well_keyed_def requests.one_per_scope_def
      issuances.one_per_scope_def)

lemma ledger_of_empty: "ledger_of (emptyCoordinatorState summary now) = Map.empty"
  by (simp add: ledger_of_def fun_eq_iff accepted_submission_def emptyCoordinatorState_def)

text \<open>With a valid definition no ballot makes the loop throw.\<close>

lemma process_queue_total:
  assumes "vr_valid (validateQuestionnaireDefinition h d)"
  shows "\<exists>t outcomes. process_queue h c electionId req (Some d) now s queue = Inr (t, outcomes)"
proof (induction queue arbitrary: s)
  case (Cons su queue)
  obtain u outcome where "process_submission h c electionId req (Some d) now s su = Inr (u, outcome)"
    by (cases "process_submission h c electionId req (Some d) now s su")
       (auto simp: process_submission_unfold Let_def validate_ballot_result [OF assms] split: if_splits)
  with Cons.IH [of u] show ?case by (auto split: sum.splits)
qed simp

text \<open>What holds of every ledger that the loop builds from an empty one.\<close>

lemma ledger_step_get:
  "ledger_step ok su L sid = (if ok su \<and> fresh L su \<and> sid = su_submissionId su then Some su else L sid)"
  by (simp add: ledger_step_def)

lemma ledger_fold_sound:
  "fold (ledger_step ok) queue Map.empty sid = Some su \<Longrightarrow> su \<in> set queue \<and> su_submissionId su = sid \<and> ok su"
  by (induction queue arbitrary: sid su rule: rev_induct) (auto simp: ledger_step_get split: if_splits)

lemma ledger_step_disjoint:
  assumes L: "\<And>a b su tu. L a = Some su \<Longrightarrow> L b = Some tu \<Longrightarrow> a \<noteq> b \<Longrightarrow>
      nullifiers_of su \<inter> nullifiers_of tu = {}"
    and ab: "ledger_step ok x L a = Some su" "ledger_step ok x L b = Some tu" "a \<noteq> b"
  shows "nullifiers_of su \<inter> nullifiers_of tu = {}"
proof -
  have add: "nullifiers_of x \<inter> nullifiers_of yu = {}" if "fresh L x" "L y = Some yu" for y yu
    using that unfolding fresh_def by blast
  from ab L [of a su b tu] add [of b tu] add [of a su] show ?thesis
    by (auto simp: ledger_step_get split: if_splits)
qed

lemma ledger_fold_disjoint:
  "fold (ledger_step ok) queue Map.empty a = Some su \<Longrightarrow> fold (ledger_step ok) queue Map.empty b = Some tu \<Longrightarrow>
     a \<noteq> b \<Longrightarrow> nullifiers_of su \<inter> nullifiers_of tu = {}"
proof (induction queue arbitrary: a b su tu rule: rev_induct)
  case (snoc x queue)
  let ?L = "fold (ledger_step ok) queue Map.empty"
  have "ledger_step ok x ?L a = Some su" "ledger_step ok x ?L b = Some tu" using snoc.prems by simp_all
  then show ?case using snoc.prems(3)
    by (rule ledger_step_disjoint [where L = ?L, rotated]) (rule snoc.IH)
qed simp

end
