(* ===== verification/Voter.thy ===== *)
theory Voter
  imports OptionA_Messages Reducer
begin

text \<open>
  The voter's state machine (\<open>createEmptyVoterElectionLocalState\<close>, \<open>reduceVoterEvent\<close>,
  \<open>restoreVoterElectionLocalState\<close> and \<open>deriveVoterUiFlags\<close> of
  \<open>web/src/questionnaireOptionA.ts\<close>).  Every branch of the reducer is a definition over the state
  as it was and its sanitised clone; the clock is the argument \<open>now\<close>.
\<close>

section \<open>The initial state and the clone\<close>

definition createEmptyVoterElectionLocalState :: "string \<Rightarrow> string \<Rightarrow> string \<Rightarrow> string \<Rightarrow> voter_state" where
  "createEmptyVoterElectionLocalState electionId invitedNpub coordinatorNpub now = \<lparr>
     vs_electionId = electionId, vs_invitedNpub = invitedNpub, vs_coordinatorNpub = coordinatorNpub,
     vs_loginVerified = False, vs_loginVerifiedAt = None, vs_inviteMessage = None,
     vs_privateInviteCredentialsPerVoter = None, vs_privateInviteBallotGroup = None,
     vs_blindBallotPlan = None, vs_blindRequest = None, vs_blindRequestSent = False,
     vs_blindRequestSentAt = None, vs_blindIssuance = None, vs_blindRequests = [],
     vs_blindIssuances = [], vs_credentialReady = False, vs_blindTokenSecret = None,
     vs_blindTokenSecrets = [], vs_responseNsec = None, vs_responseNpub = None,
     vs_draftResponses = [], vs_submission = None, vs_submissions = [],
     vs_submissionAccepted = Null, vs_submissionAcceptedAt = None,
     vs_privateSubmissionQueued = False, vs_privateSubmissionReceiptAccepted = None,
     vs_privateSubmissionReceiptAt = None, vs_privateSubmissionReceiptReason = None,
     vs_submissionDecisions = [], vs_lastUpdatedAt = now\<rparr>"

definition cloneVoterState :: "voter_state \<Rightarrow> voter_state" where
  "cloneVoterState state = state\<lparr>
     vs_blindBallotPlan := sanitiseBlindBallotPlan (vs_blindBallotPlan state),
     vs_blindRequest := map_option sanitiseBlindBallotRequest (vs_blindRequest state),
     vs_blindIssuance := map_option sanitiseBlindBallotIssuance (vs_blindIssuance state),
     vs_blindRequests := sanitiseBlindBallotRequestRecordPreservingKeys (vs_blindRequests state),
     vs_blindIssuances := sanitiseBlindBallotIssuanceRecordPreservingKeys (vs_blindIssuances state)\<rparr>"

type_synonym voter_result = "(voter_state, voter_error) reducer_result"

section \<open>The branches of the reducer\<close>

definition voter_invite_loaded :: "voter_state \<Rightarrow> voter_state \<Rightarrow> invite_message \<Rightarrow> string \<Rightarrow> voter_result" where
  [step_defs]: "voter_invite_loaded state next invite now =
     (if im_electionId invite \<noteq> vs_electionId next \<or> im_invitedNpub invite \<noteq> vs_invitedNpub next
      then refuse state VE_election_id_mismatch
      else
        let assignedScopes = allowedScopesForRequiredScope (im_ballotGroup invite);
            requestScopes = (case vs_blindRequest next of
               Some r \<Rightarrow> scope_allowed (request_scope r) | None \<Rightarrow> assignedScopes);
            reset = (vs_blindIssuance next = None
               \<and> json_string_array requestScopes \<noteq> json_string_array assignedScopes);
            cleared = (if reset then next\<lparr>vs_blindRequest := None, vs_blindRequests := [],
                 vs_blindRequestSent := False, vs_blindRequestSentAt := None,
                 vs_blindTokenSecret := None, vs_blindTokenSecrets := []\<rparr> else next)
        in accept (cleared\<lparr>vs_inviteMessage := Some invite, vs_lastUpdatedAt := now\<rparr>))"

definition voter_login_verified ::
  "voter_state \<Rightarrow> voter_state \<Rightarrow> string \<Rightarrow> string \<Rightarrow> string option \<Rightarrow> string \<Rightarrow> voter_result" where
  [step_defs]: "voter_login_verified state next electionId npub verifiedAt now =
     (if electionId \<noteq> vs_electionId next then refuse state VE_election_id_mismatch
      else if npub \<noteq> vs_invitedNpub next then refuse state VE_invite_npub_mismatch
      else let verified = (case verifiedAt of Some t \<Rightarrow> t | None \<Rightarrow> now)
        in accept (next\<lparr>vs_loginVerified := True, vs_loginVerifiedAt := Some verified,
             vs_lastUpdatedAt := verified\<rparr>))"

definition field_coalesce :: "'a field \<Rightarrow> 'a field \<Rightarrow> 'a field" where
  "field_coalesce a b = (case nullish a of Some x \<Rightarrow> Present x | None \<Rightarrow> b)"

definition voter_request_created ::
  "voter_state \<Rightarrow> voter_state \<Rightarrow> blind_request \<Rightarrow> string \<Rightarrow> voter_result" where
  [step_defs]: "voter_request_created state next raw now =
     (let request = sanitiseBlindBallotRequest raw;
          scopeKey = ballotScopeKey (request_scope request)
      in if rq_electionId request \<noteq> vs_electionId next then refuse state VE_election_id_mismatch
      else if \<not> vs_loginVerified next then refuse state VE_login_not_verified
      else if obj_get (vs_blindIssuances next) scopeKey \<noteq> None
              \<or> (case vs_blindIssuance next of None \<Rightarrow> False
                 | Some i \<Rightarrow> sameBallotScope (issuance_scope i) (request_scope request))
        then refuse state VE_issuance_conflict
      else case obj_get (vs_blindRequests next) scopeKey of
        Some existing \<Rightarrow>
          (if \<not> sameBlindBallotRequest existing request then refuse state VE_issuance_conflict
           else if rq_lastSentAt existing \<noteq> rq_lastSentAt request then
             (let updated = existing\<lparr>rq_lastSentAt :=
                    null_if_nullish (field_coalesce (rq_lastSentAt request) (rq_lastSentAt existing))\<rparr>
              in accept (next\<lparr>
                   vs_blindRequests := obj_set scopeKey updated (vs_blindRequests next),
                   vs_blindRequest := (case vs_blindRequest next of
                       Some r \<Rightarrow> if rq_requestId r = rq_requestId updated then Some updated else Some r
                     | None \<Rightarrow> None)\<rparr>))
           else accept next)
      | None \<Rightarrow>
          (case vs_blindRequest next of
             Some r \<Rightarrow>
               if ballotScopeKey (request_scope r) = ''__questionnaire__'' then
                 (if sameBlindBallotRequest r request then accept next
                  else refuse state VE_issuance_conflict)
               else accept (next\<lparr>vs_blindRequests := obj_set scopeKey request (vs_blindRequests next),
                      vs_lastUpdatedAt := now\<rparr>)
           | None \<Rightarrow> accept (next\<lparr>vs_blindRequest := Some request,
                vs_blindRequests := obj_set scopeKey request (vs_blindRequests next),
                vs_lastUpdatedAt := now\<rparr>)))"

definition voter_request_sent ::
  "voter_state \<Rightarrow> voter_state \<Rightarrow> string \<Rightarrow> string \<Rightarrow> string \<Rightarrow> voter_result" where
  [step_defs]: "voter_request_sent state next electionId requestId sentAt =
     (if electionId \<noteq> vs_electionId next then refuse state VE_election_id_mismatch
      else
        let scopedEntry = List.find (\<lambda>(k, r). rq_requestId r = requestId) (js_entries (vs_blindRequests next));
            current = (case vs_blindRequest next of
               Some r \<Rightarrow> if rq_requestId r = requestId then Some r else None | None \<Rightarrow> None)
        in case (case scopedEntry of Some (k, r) \<Rightarrow> Some r | None \<Rightarrow> current) of
             None \<Rightarrow> refuse state VE_blind_request_missing
           | Some found \<Rightarrow>
               (let updated = found\<lparr>rq_lastSentAt := Present sentAt\<rparr>;
                    key = (case scopedEntry of
                       Some (k, r) \<Rightarrow> if k \<noteq> [] then k else ballotScopeKey (request_scope updated)
                     | None \<Rightarrow> ballotScopeKey (request_scope updated))
                in accept (next\<lparr>
                     vs_blindRequests := obj_set key updated (vs_blindRequests next),
                     vs_blindRequest := (if vs_blindRequest next = None \<or> current \<noteq> None
                                         then Some updated else vs_blindRequest next),
                     vs_blindRequestSent := True, vs_blindRequestSentAt := Some sentAt,
                     vs_lastUpdatedAt := sentAt\<rparr>)))"

definition voter_plan_received :: "voter_state \<Rightarrow> voter_state \<Rightarrow> blind_plan \<Rightarrow> voter_result" where
  [step_defs]: "voter_plan_received state next plan =
     (case vs_blindRequest next of None \<Rightarrow> refuse state VE_issuance_conflict
      | Some r \<Rightarrow>
          if bp_electionId plan \<noteq> vs_electionId next \<or> bp_invitedNpub plan \<noteq> vs_invitedNpub next
             \<or> bp_credentialCount plan \<noteq> 2 \<or> length (bp_ballotScopes plan) \<noteq> 2
             \<or> bp_initialRequestId plan \<noteq> rq_requestId r
             \<or> bp_blindSigningKeyId plan \<noteq> rq_blindSigningKeyId r
          then refuse state VE_issuance_conflict
          else accept (next\<lparr>vs_blindBallotPlan := Some plan, vs_lastUpdatedAt := bp_issuedAt plan\<rparr>))"

definition same_issuance :: "blind_issuance \<Rightarrow> blind_issuance \<Rightarrow> bool" where
  "same_issuance a b = (is_issuanceId a = is_issuanceId b \<and> is_blindSignature a = is_blindSignature b)"

definition answers_request :: "blind_issuance \<Rightarrow> blind_request option \<Rightarrow> bool" where
  "answers_request issuance request =
     (case request of None \<Rightarrow> False | Some r \<Rightarrow> rq_requestId r = is_requestId issuance)"

definition voter_issuance_received :: "voter_state \<Rightarrow> voter_state \<Rightarrow> blind_issuance \<Rightarrow> voter_result" where
  [step_defs]: "voter_issuance_received state next raw =
     (let issuance = sanitiseBlindBallotIssuance raw;
          scopeKey = ballotScopeKey (issuance_scope issuance)
      in if is_electionId issuance \<noteq> vs_electionId next then refuse state VE_election_id_mismatch
      else if \<not> answers_request issuance (vs_blindRequest next)
              \<and> \<not> answers_request issuance (obj_get (vs_blindRequests next) scopeKey)
        then refuse state VE_issuance_conflict
      else if (case obj_get (vs_blindIssuances next) scopeKey of None \<Rightarrow> False
               | Some existing \<Rightarrow> \<not> same_issuance existing issuance)
        then refuse state VE_issuance_conflict
      else if (case vs_blindIssuance next of None \<Rightarrow> False
               | Some current \<Rightarrow> sameBallotScope (issuance_scope current) (issuance_scope issuance)
                   \<and> \<not> same_issuance current issuance)
        then refuse state VE_issuance_conflict
      else
        let secrets = (case (vs_blindRequest next, vs_blindTokenSecret next) of
               (Some r, Some secret) \<Rightarrow>
                 if obj_get (vs_blindTokenSecrets next) scopeKey = None
                    \<and> rq_requestId r = is_requestId issuance
                    \<and> sameBallotScope (request_scope r) (issuance_scope issuance)
                 then obj_set scopeKey (secret\<lparr>ts_ballotScope :=
                        field_coalesce (ts_ballotScope secret) (is_ballotScope issuance)\<rparr>)
                        (vs_blindTokenSecrets next)
                 else vs_blindTokenSecrets next
             | _ \<Rightarrow> vs_blindTokenSecrets next)
        in accept (next\<lparr>
             vs_blindIssuance := coalesce (vs_blindIssuance next) (Some issuance),
             vs_blindIssuances := obj_set scopeKey issuance (vs_blindIssuances next),
             vs_blindTokenSecrets := secrets,
             vs_credentialReady := True,
             vs_lastUpdatedAt := is_issuedAt issuance\<rparr>))"

definition voter_draft_updated ::
  "voter_state \<Rightarrow> voter_state \<Rightarrow> string \<Rightarrow> ballot_answer list \<Rightarrow> string \<Rightarrow> voter_result" where
  [step_defs]: "voter_draft_updated state next electionId responses now =
     (if electionId \<noteq> vs_electionId next then refuse state VE_election_id_mismatch
      else accept (next\<lparr>vs_draftResponses := responses, vs_lastUpdatedAt := now\<rparr>))"

definition decision_accepted :: "voter_state \<Rightarrow> string \<Rightarrow> bool" where
  "decision_accepted s key = (case obj_get (vs_submissionDecisions s) key of
     None \<Rightarrow> False | Some d \<Rightarrow> sd_accepted d)"

definition voter_submission_created ::
  "voter_state \<Rightarrow> voter_state \<Rightarrow> ballot_submission \<Rightarrow> voter_result" where
  [step_defs]: "voter_submission_created state next submission =
     (if su_electionId submission \<noteq> vs_electionId next then refuse state VE_election_id_mismatch
      else if \<not> vs_credentialReady next then refuse state VE_credential_not_ready
      else
        let questionKeys = ballotSubmissionQuestionKeys submission;
            duplicateKeys = ballotSubmissionDuplicateKeys submission
        in if (duplicateKeys = [] \<and> vs_submissionAccepted next = Present True)
              \<or> list_ex (decision_accepted next) duplicateKeys
           then refuse state VE_already_submitted
           else if \<not> validateResponsesSchema (bl_responses (su_payload submission))
           then refuse state VE_schema_invalid
           else accept (next\<lparr>
             vs_submission := Some submission,
             vs_privateSubmissionQueued := False,
             vs_privateSubmissionReceiptAccepted := None,
             vs_privateSubmissionReceiptAt := None,
             vs_privateSubmissionReceiptReason := None,
             vs_submissions := (if questionKeys \<noteq> []
                then obj_spread (vs_submissions next) (from_entries (map (\<lambda>k. (k, submission)) questionKeys))
                else vs_submissions next),
             vs_responseNpub := coalesce (su_responseNpub submission) (Some (su_invitedNpub submission)),
             vs_lastUpdatedAt := su_submittedAt submission\<rparr>))"

definition is_current_submission :: "voter_state \<Rightarrow> string \<Rightarrow> bool" where
  "is_current_submission s submissionId =
     (case vs_submission s of None \<Rightarrow> False | Some su \<Rightarrow> su_submissionId su = submissionId)"

definition voter_submission_queued ::
  "voter_state \<Rightarrow> voter_state \<Rightarrow> string \<Rightarrow> string \<Rightarrow> voter_result" where
  [step_defs]: "voter_submission_queued state next submissionId receivedAt =
     (if \<not> is_current_submission next submissionId then refuse state VE_schema_invalid
      else accept (next\<lparr>
        vs_privateSubmissionQueued := True,
        vs_privateSubmissionReceiptAccepted := Some True,
        vs_privateSubmissionReceiptAt := Some receivedAt,
        vs_privateSubmissionReceiptReason := None,
        vs_submissionAccepted := Null,
        vs_submissionAcceptedAt := None,
        vs_submissionDecisions := from_entries (filter (\<lambda>(k, decision). sd_submissionId decision \<noteq> submissionId)
          (js_entries (vs_submissionDecisions next))),
        vs_lastUpdatedAt := receivedAt\<rparr>))"

definition question_entries :: "voter_state \<Rightarrow> string \<Rightarrow> (string \<times> ballot_submission) list" where
  "question_entries s submissionId =
     filter (\<lambda>(k, submission). su_submissionId submission = submissionId) (js_entries (vs_submissions s))"

text \<open>
  The two last branches share their shape: a decision for every key the submission is stored under,
  or the flag of the whole ballot when there is none.
\<close>

definition record_decision :: "voter_state \<Rightarrow> string \<Rightarrow> bool \<Rightarrow> string \<Rightarrow> string option \<Rightarrow> voter_state" where
  "record_decision next submissionId accepted decidedAt reason =
     (if question_entries next submissionId \<noteq> [] then
        next\<lparr>vs_submissionDecisions := obj_spread (vs_submissionDecisions next)
          (from_entries (map (\<lambda>(k, _). (k, \<lparr>sd_submissionId = submissionId, sd_accepted = accepted,
              sd_decidedAt = decidedAt, sd_reason = reason\<rparr>)) (question_entries next submissionId)))\<rparr>
      else next\<lparr>vs_submissionAccepted := Present accepted, vs_submissionAcceptedAt := Some decidedAt\<rparr>)"

definition voter_submission_accepted ::
  "voter_state \<Rightarrow> voter_state \<Rightarrow> string \<Rightarrow> string \<Rightarrow> voter_result" where
  [step_defs]: "voter_submission_accepted state next submissionId decidedAt =
     (if \<not> is_current_submission next submissionId \<and> question_entries next submissionId = []
      then refuse state VE_schema_invalid
      else accept ((record_decision (next\<lparr>
          vs_privateSubmissionQueued := False,
          vs_privateSubmissionReceiptAccepted := None,
          vs_privateSubmissionReceiptAt := None,
          vs_privateSubmissionReceiptReason := None\<rparr>) submissionId True decidedAt None)
        \<lparr>vs_lastUpdatedAt := decidedAt\<rparr>))"

definition voter_submission_rejected ::
  "voter_state \<Rightarrow> voter_state \<Rightarrow> string \<Rightarrow> string \<Rightarrow> string \<Rightarrow> voter_result" where
  [step_defs]: "voter_submission_rejected state next submissionId reason decidedAt =
     (if \<not> is_current_submission next submissionId \<and> question_entries next submissionId = []
      then refuse state VE_schema_invalid
      else accept ((record_decision (next\<lparr>
          vs_privateSubmissionQueued := False,
          vs_privateSubmissionReceiptAccepted := Some False,
          vs_privateSubmissionReceiptAt := Some decidedAt,
          vs_privateSubmissionReceiptReason := Some reason\<rparr>) submissionId False decidedAt (Some reason))
        \<lparr>vs_lastUpdatedAt := decidedAt\<rparr>))"

fun reduceVoterEvent :: "voter_state \<Rightarrow> voter_event \<Rightarrow> string \<Rightarrow> voter_result" where
  "reduceVoterEvent s (INVITE_LOADED invite) now = voter_invite_loaded s (cloneVoterState s) invite now"
| "reduceVoterEvent s (LOGIN_VERIFIED electionId npub verifiedAt) now =
     voter_login_verified s (cloneVoterState s) electionId npub verifiedAt now"
| "reduceVoterEvent s (BLIND_REQUEST_CREATED request) now =
     voter_request_created s (cloneVoterState s) request now"
| "reduceVoterEvent s (BLIND_REQUEST_SENT electionId requestId sentAt) now =
     voter_request_sent s (cloneVoterState s) electionId requestId sentAt"
| "reduceVoterEvent s (BLIND_BALLOT_PLAN_RECEIVED plan) now = voter_plan_received s (cloneVoterState s) plan"
| "reduceVoterEvent s (BLIND_ISSUANCE_RECEIVED issuance) now =
     voter_issuance_received s (cloneVoterState s) issuance"
| "reduceVoterEvent s (DRAFT_RESPONSES_UPDATED electionId responses) now =
     voter_draft_updated s (cloneVoterState s) electionId responses now"
| "reduceVoterEvent s (BALLOT_SUBMISSION_CREATED submission) now =
     voter_submission_created s (cloneVoterState s) submission"
| "reduceVoterEvent s (PRIVATE_BALLOT_SUBMISSION_QUEUED submissionId receivedAt) now =
     voter_submission_queued s (cloneVoterState s) submissionId receivedAt"
| "reduceVoterEvent s (BALLOT_SUBMISSION_ACCEPTED submissionId decidedAt) now =
     voter_submission_accepted s (cloneVoterState s) submissionId decidedAt"
| "reduceVoterEvent s (BALLOT_SUBMISSION_REJECTED submissionId reason decidedAt) now =
     voter_submission_rejected s (cloneVoterState s) submissionId reason decidedAt"

section \<open>Restoring and the flags of the user interface\<close>

definition restoreVoterElectionLocalState ::
  "voter_state \<Rightarrow> blind_issuance option \<Rightarrow> acceptance_result option \<Rightarrow> voter_state" where
  "restoreVoterElectionLocalState persisted canonicalIssuance canonicalAcceptance =
     (let next = cloneVoterState persisted;
          issuance = (case canonicalIssuance of
             Some i \<Rightarrow> Some (sanitiseBlindBallotIssuance i) | None \<Rightarrow> vs_blindIssuance next);
          issued = (case issuance of None \<Rightarrow> next
             | Some i \<Rightarrow>
                 if (case vs_blindIssuance next of None \<Rightarrow> True
                     | Some current \<Rightarrow> is_requestId current = is_requestId i)
                 then next\<lparr>vs_blindIssuance := Some i, vs_credentialReady := True\<rparr> else next)
      in case canonicalAcceptance of None \<Rightarrow> issued
         | Some acceptance \<Rightarrow>
             if is_current_submission issued (ac_submissionId acceptance)
             then issued\<lparr>vs_submissionAccepted := Present (ac_accepted acceptance),
                    vs_submissionAcceptedAt := Some (ac_decidedAt acceptance)\<rparr>
             else issued)"

record voter_ui_flags =
  vf_canLogin :: bool
  vf_canRequestBallot :: bool
  vf_canSubmitVote :: bool
  vf_alreadySubmitted :: bool
  vf_resumeAvailable :: bool

definition deriveVoterUiFlags :: "voter_state \<Rightarrow> voter_ui_flags" where
  "deriveVoterUiFlags s = \<lparr>
     vf_canLogin = (\<not> vs_loginVerified s),
     vf_canRequestBallot = (vs_loginVerified s \<and> \<not> vs_credentialReady s \<and> \<not> vs_blindRequestSent s),
     vf_canSubmitVote = (vs_credentialReady s \<and> vs_submissionAccepted s \<noteq> Present True),
     vf_alreadySubmitted = (vs_submissionAccepted s = Present True),
     vf_resumeAvailable = (vs_loginVerified s \<or> vs_blindRequestSent s \<or> vs_credentialReady s
        \<or> vs_submissionAccepted s \<noteq> Null)\<rparr>"

definition buildVoterStorageKeys :: "string \<Rightarrow> string \<Rightarrow> string list" where
  "buildVoterStorageKeys npub electionId =
     (let prefix = ''app:auditable-voting:voter:'' @ npub @ '':'' @ electionId
      in map (\<lambda>part. prefix @ '':'' @ part)
        [''invite'', ''login'', ''blindRequest'', ''issuance'', ''draftResponses'', ''submission'',
         ''acceptance''])"

end
