(* ===== verification/Voter_Safety.thy ===== *)
theory Voter_Safety
  imports Voter
begin

text \<open>
  What every history of voter events keeps: the stored requests and credentials stand under their
  scope keys, every credential answers a request of the voter, a ballot exists only with a
  credential, and a credential once received is never replaced.  \<open>reduceVoterEvent\<close> is an instance
  of \<open>progressing_reducer\<close>.
\<close>

definition request_key :: "blind_request \<Rightarrow> string" where
  "request_key r = ballotScopeKey (request_scope r)"

definition issuance_key :: "blind_issuance \<Rightarrow> string" where
  "issuance_key i = ballotScopeKey (issuance_scope i)"

definition requests_inv :: "string \<Rightarrow> bool \<Rightarrow> blind_request option \<Rightarrow> blind_request obj \<Rightarrow> bool" where
  "requests_inv el login req reqs \<longleftrightarrow>
     well_keyed sanitiseBlindBallotRequest request_key reqs
     \<and> (\<forall>k r. obj_get reqs k = Some r \<longrightarrow> rq_electionId r = el)
     \<and> (\<forall>r. req = Some r \<longrightarrow> obj_get reqs (request_key r) = Some r)
     \<and> (req = None \<longrightarrow> obj_get reqs = Map.empty)
     \<and> (req \<noteq> None \<longrightarrow> login)"

definition issuances_inv ::
  "string \<Rightarrow> blind_request obj \<Rightarrow> blind_issuance option \<Rightarrow> blind_issuance obj \<Rightarrow> bool" where
  "issuances_inv el reqs iss isss \<longleftrightarrow>
     well_keyed sanitiseBlindBallotIssuance issuance_key isss
     \<and> (\<forall>k i. obj_get isss k = Some i \<longrightarrow> is_electionId i = el
          \<and> (\<exists>l r. obj_get reqs l = Some r \<and> rq_requestId r = is_requestId i))
     \<and> (\<forall>i. iss = Some i \<longrightarrow> sanitiseBlindBallotIssuance i = i
          \<and> (\<exists>j. obj_get isss (issuance_key i) = Some j \<and> same_issuance i j))
     \<and> (iss = None \<longrightarrow> obj_get isss = Map.empty)"

definition voter_inv :: "voter_state \<Rightarrow> bool" where
  "voter_inv s \<longleftrightarrow>
     requests_inv (vs_electionId s) (vs_loginVerified s) (vs_blindRequest s) (vs_blindRequests s)
     \<and> issuances_inv (vs_electionId s) (vs_blindRequests s) (vs_blindIssuance s) (vs_blindIssuances s)
     \<and> (vs_credentialReady s \<longleftrightarrow> vs_blindIssuance s \<noteq> None)
     \<and> (vs_submission s \<noteq> None \<or> vs_submissions s \<noteq> [] \<longrightarrow> vs_credentialReady s)"

definition voter_advances :: "voter_state \<Rightarrow> voter_state \<Rightarrow> bool" where
  "voter_advances s t \<longleftrightarrow>
     vs_electionId t = vs_electionId s \<and> vs_invitedNpub t = vs_invitedNpub s
     \<and> (vs_loginVerified s \<longrightarrow> vs_loginVerified t)
     \<and> (vs_credentialReady s \<longrightarrow> vs_credentialReady t)
     \<and> (\<forall>i. vs_blindIssuance s = Some i \<longrightarrow> vs_blindIssuance t = Some i)
     \<and> (\<forall>k i. obj_get (vs_blindIssuances s) k = Some i \<longrightarrow>
          (\<exists>j. obj_get (vs_blindIssuances t) k = Some j \<and> same_issuance i j))"

lemma same_issuance_refl [simp]: "same_issuance i i"
  by (simp add: same_issuance_def)

lemma same_issuance_trans: "same_issuance i j \<Longrightarrow> same_issuance j k \<Longrightarrow> same_issuance i k"
  by (simp add: same_issuance_def)

lemma same_issuance_sym: "same_issuance i j \<Longrightarrow> same_issuance j i"
  by (simp add: same_issuance_def)

lemma voter_advances_refl [simp]: "voter_advances s s"
  by (auto simp: voter_advances_def)

lemma voter_advances_trans:
  assumes "voter_advances s t" "voter_advances t u"
  shows "voter_advances s u"
  unfolding voter_advances_def
proof (intro conjI allI impI)
  fix k i
  assume "obj_get (vs_blindIssuances s) k = Some i"
  then obtain j where "obj_get (vs_blindIssuances t) k = Some j" "same_issuance i j"
    using assms(1) unfolding voter_advances_def by metis
  moreover from this(1) obtain l where "obj_get (vs_blindIssuances u) k = Some l" "same_issuance j l"
    using assms(2) unfolding voter_advances_def by metis
  ultimately show "\<exists>l. obj_get (vs_blindIssuances u) k = Some l \<and> same_issuance i l"
    by (blast intro: same_issuance_trans)
qed (use assms in \<open>auto simp: voter_advances_def\<close>)

section \<open>Storing a request or a credential\<close>

lemma request_key_sanitise [simp]: "request_key (sanitiseBlindBallotRequest r) = request_key r"
  by (simp add: request_key_def requests.scope_sanitise)

lemma issuance_key_sanitise [simp]: "issuance_key (sanitiseBlindBallotIssuance i) = issuance_key i"
  by (simp add: issuance_key_def issuances.scope_sanitise)

lemma requests_inv_set:
  assumes inv: "requests_inv el login req reqs" and "login"
    and r: "sanitiseBlindBallotRequest r = r" "rq_electionId r = el"
    and req': "req' = Some r \<or> (req' = req \<and> req \<noteq> None \<and> (\<forall>r0. req = Some r0 \<longrightarrow> request_key r0 \<noteq> request_key r))"
  shows "requests_inv el login req' (obj_set (request_key r) r reqs)"
  unfolding requests_inv_def
proof (intro conjI)
  have wk: "well_keyed sanitiseBlindBallotRequest request_key reqs"
    and el: "\<forall>k r. obj_get reqs k = Some r \<longrightarrow> rq_electionId r = el"
    and cur: "\<forall>r. req = Some r \<longrightarrow> obj_get reqs (request_key r) = Some r"
    using inv unfolding requests_inv_def by blast+
  show "well_keyed sanitiseBlindBallotRequest request_key (obj_set (request_key r) r reqs)"
    using wk r by (intro well_keyed_set) simp_all
  show "\<forall>k r'. obj_get (obj_set (request_key r) r reqs) k = Some r' \<longrightarrow> rq_electionId r' = el"
    using el r by simp
  show "\<forall>r0. req' = Some r0 \<longrightarrow> obj_get (obj_set (request_key r) r reqs) (request_key r0) = Some r0"
    using req' cur by auto
  show "req' = None \<longrightarrow> obj_get (obj_set (request_key r) r reqs) = Map.empty"
    using req' by auto
  show "req' \<noteq> None \<longrightarrow> login" using \<open>login\<close> by simp
qed

lemma issuances_inv_request_set:
  assumes "issuances_inv el reqs iss isss"
    and "\<And>r0. obj_get reqs (request_key r) = Some r0 \<Longrightarrow> rq_requestId r0 = rq_requestId r"
  shows "issuances_inv el (obj_set (request_key r) r reqs) iss isss"
proof -
  have "\<exists>l r'. obj_get (obj_set (request_key r) r reqs) l = Some r' \<and> rq_requestId r' = x"
    if l: "obj_get reqs l = Some r0" "rq_requestId r0 = x" for l r0 x
  proof (cases "l = request_key r")
    case True
    with l assms(2) show ?thesis by (intro exI [of _ l] exI [of _ r]) auto
  next
    case False
    with l show ?thesis by (intro exI [of _ l] exI [of _ r0]) auto
  qed
  with assms(1) show ?thesis unfolding issuances_inv_def by blast
qed

lemma issuances_inv_set:
  assumes inv: "issuances_inv el reqs iss isss"
    and i: "sanitiseBlindBallotIssuance i = i" "is_electionId i = el"
    and req: "\<exists>l r. obj_get reqs l = Some r \<and> rq_requestId r = is_requestId i"
    and same: "\<And>j. obj_get isss (issuance_key i) = Some j \<Longrightarrow> same_issuance j i"
  shows "issuances_inv el reqs (coalesce iss (Some i)) (obj_set (issuance_key i) i isss)"
  unfolding issuances_inv_def
proof (intro conjI allI impI)
  show "well_keyed sanitiseBlindBallotIssuance issuance_key (obj_set (issuance_key i) i isss)"
    using inv i by (intro well_keyed_set) (simp_all add: issuances_inv_def)
next
  fix i' assume "coalesce iss (Some i) = Some i'"
  then show "\<exists>j. obj_get (obj_set (issuance_key i) i isss) (issuance_key i') = Some j \<and> same_issuance i' j"
    using inv same by (cases iss) (auto simp: coalesce_def issuances_inv_def dest: same_issuance_trans)
qed (use assms in \<open>auto simp: issuances_inv_def coalesce_def split: option.splits if_splits\<close>)

section \<open>The clone\<close>

lemma voter_clone_fields [simp]:
  "vs_electionId (cloneVoterState s) = vs_electionId s"
  "vs_invitedNpub (cloneVoterState s) = vs_invitedNpub s"
  "vs_loginVerified (cloneVoterState s) = vs_loginVerified s"
  "vs_credentialReady (cloneVoterState s) = vs_credentialReady s"
  "vs_submission (cloneVoterState s) = vs_submission s"
  "vs_submissions (cloneVoterState s) = vs_submissions s"
  "vs_submissionAccepted (cloneVoterState s) = vs_submissionAccepted s"
  "vs_submissionDecisions (cloneVoterState s) = vs_submissionDecisions s"
  by (simp_all add: cloneVoterState_def)

text \<open>In a state of the invariant the clone changes no request and no credential.\<close>

lemma clone_same:
  assumes "voter_inv s"
  shows "vs_blindRequest (cloneVoterState s) = vs_blindRequest s"
    and "vs_blindIssuance (cloneVoterState s) = vs_blindIssuance s"
    and "obj_get (vs_blindRequests (cloneVoterState s)) = obj_get (vs_blindRequests s)"
    and "obj_get (vs_blindIssuances (cloneVoterState s)) = obj_get (vs_blindIssuances s)"
proof -
  have ri: "requests_inv (vs_electionId s) (vs_loginVerified s) (vs_blindRequest s) (vs_blindRequests s)"
    and ii: "issuances_inv (vs_electionId s) (vs_blindRequests s) (vs_blindIssuance s) (vs_blindIssuances s)"
    using assms by (simp_all add: voter_inv_def)
  show "vs_blindRequest (cloneVoterState s) = vs_blindRequest s"
    using ri well_keyed_get [of sanitiseBlindBallotRequest request_key "vs_blindRequests s"]
    by (cases "vs_blindRequest s") (auto simp: cloneVoterState_def requests_inv_def)
  show "vs_blindIssuance (cloneVoterState s) = vs_blindIssuance s"
    using ii by (cases "vs_blindIssuance s") (auto simp: cloneVoterState_def issuances_inv_def)
  show "obj_get (vs_blindRequests (cloneVoterState s)) = obj_get (vs_blindRequests s)"
    using ri requests.sanitised_values_keyed(1)
    by (auto simp: cloneVoterState_def requests_inv_def sanitiseBlindBallotRequestRecordPreservingKeys_def)
  show "obj_get (vs_blindIssuances (cloneVoterState s)) = obj_get (vs_blindIssuances s)"
    using ii issuances.sanitised_values_keyed(1)
    by (auto simp: cloneVoterState_def issuances_inv_def sanitiseBlindBallotIssuanceRecordPreservingKeys_def)
qed

lemma clone_well_keyed:
  assumes "voter_inv s"
  shows "well_keyed sanitiseBlindBallotRequest request_key (vs_blindRequests (cloneVoterState s))"
    and "well_keyed sanitiseBlindBallotIssuance issuance_key (vs_blindIssuances (cloneVoterState s))"
  using assms
  by (simp_all add: voter_inv_def requests_inv_def issuances_inv_def cloneVoterState_def
      sanitiseBlindBallotRequestRecordPreservingKeys_def sanitiseBlindBallotIssuanceRecordPreservingKeys_def
      requests.sanitised_values_keyed(2) issuances.sanitised_values_keyed(2))

lemma voter_clone_inv:
  assumes "voter_inv s"
  shows "voter_inv (cloneVoterState s)"
  using assms clone_well_keyed [OF assms]
  unfolding voter_inv_def requests_inv_def issuances_inv_def voter_clone_fields clone_same [OF assms] by blast

lemma voter_clone_advances: "voter_inv s \<Longrightarrow> voter_advances s (cloneVoterState s)"
  using clone_same [of s] by (auto simp: voter_advances_def)

section \<open>The branches keep the invariant and advance\<close>

text \<open>What a branch owes, given a clone \<open>n\<close> that satisfies the invariant.\<close>

definition voter_branch_ok :: "voter_state \<Rightarrow> voter_result \<Rightarrow> bool" where
  "voter_branch_ok n res \<longleftrightarrow> (rr_ok res \<longrightarrow> rr_error res = None \<and> voter_inv (rr_state res) \<and> voter_advances n (rr_state res))
     \<and> (\<not> rr_ok res \<longrightarrow> rr_error res \<noteq> None)"

lemma branch_ok_refuse [simp]: "voter_branch_ok n (refuse s e)"
  by (simp add: voter_branch_ok_def)

lemma branch_ok_accept [simp]: "voter_branch_ok n (accept t) \<longleftrightarrow> voter_inv t \<and> voter_advances n t"
  by (simp add: voter_branch_ok_def)

text \<open>Fields that neither the invariant nor the order looks at may change freely.\<close>

definition same_core :: "voter_state \<Rightarrow> voter_state \<Rightarrow> bool" where
  "same_core s t \<longleftrightarrow> vs_electionId t = vs_electionId s \<and> vs_invitedNpub t = vs_invitedNpub s
     \<and> (vs_loginVerified s \<longrightarrow> vs_loginVerified t)
     \<and> vs_blindRequest t = vs_blindRequest s \<and> vs_blindRequests t = vs_blindRequests s
     \<and> vs_blindIssuance t = vs_blindIssuance s \<and> vs_blindIssuances t = vs_blindIssuances s
     \<and> vs_credentialReady t = vs_credentialReady s
     \<and> (vs_submission t \<noteq> None \<or> vs_submissions t \<noteq> [] \<longrightarrow>
          vs_submission s \<noteq> None \<or> vs_submissions s \<noteq> [] \<or> vs_credentialReady s)"

lemma same_core_keeps:
  assumes "voter_inv n" "same_core n t"
  shows "voter_inv t \<and> voter_advances n t"
proof -
  have eqs: "vs_electionId t = vs_electionId n" "vs_invitedNpub t = vs_invitedNpub n"
    "vs_blindRequest t = vs_blindRequest n" "vs_blindRequests t = vs_blindRequests n"
    "vs_blindIssuance t = vs_blindIssuance n" "vs_blindIssuances t = vs_blindIssuances n"
    "vs_credentialReady t = vs_credentialReady n"
    and login: "vs_loginVerified n \<longrightarrow> vs_loginVerified t"
    and sub: "vs_submission t \<noteq> None \<or> vs_submissions t \<noteq> [] \<longrightarrow> vs_credentialReady n"
    using assms unfolding same_core_def voter_inv_def by blast+
  have "requests_inv (vs_electionId n) (vs_loginVerified t) (vs_blindRequest n) (vs_blindRequests n)"
    using assms(1) login unfolding voter_inv_def requests_inv_def by blast
  then have "voter_inv t"
    using assms(1) sub unfolding voter_inv_def eqs by blast
  moreover have "voter_advances n t"
    using login unfolding voter_advances_def eqs by (auto intro: same_issuance_refl)
  ultimately show ?thesis by blast
qed

text \<open>Storing a request: the current one may change to it, or stays when its key differs.\<close>

lemma store_request:
  assumes inv: "voter_inv n" and login: "vs_loginVerified n"
    and r: "sanitiseBlindBallotRequest r = r" "rq_electionId r = vs_electionId n"
    and old: "\<And>r0. obj_get (vs_blindRequests n) (request_key r) = Some r0 \<Longrightarrow> rq_requestId r0 = rq_requestId r"
    and req': "req' = Some r \<or> (req' = vs_blindRequest n \<and> vs_blindRequest n \<noteq> None
        \<and> (\<forall>r0. vs_blindRequest n = Some r0 \<longrightarrow> request_key r0 \<noteq> request_key r))"
    and n': "same_core (n\<lparr>vs_blindRequest := req', vs_blindRequests := obj_set (request_key r) r (vs_blindRequests n)\<rparr>) t"
  shows "voter_inv t \<and> voter_advances n t"
proof -
  let ?n = "n\<lparr>vs_blindRequest := req', vs_blindRequests := obj_set (request_key r) r (vs_blindRequests n)\<rparr>"
  have "requests_inv (vs_electionId n) True req' (obj_set (request_key r) r (vs_blindRequests n))"
    using inv login by (intro requests_inv_set [OF _ _ r req']) (simp_all add: voter_inv_def)
  moreover have "issuances_inv (vs_electionId n) (obj_set (request_key r) r (vs_blindRequests n))
      (vs_blindIssuance n) (vs_blindIssuances n)"
    using inv old by (intro issuances_inv_request_set) (simp_all add: voter_inv_def)
  ultimately have "voter_inv ?n"
    using inv login by (auto simp: voter_inv_def)
  from same_core_keeps [OF this n'] show ?thesis
    by (simp add: voter_advances_def)
qed

lemma branch_invite_loaded: "voter_inv n \<Longrightarrow> voter_branch_ok n (voter_invite_loaded s n invite now)"
proof -
  assume inv: "voter_inv n"
  let ?m = "n\<lparr>vs_blindRequest := None, vs_blindRequests := [], vs_blindRequestSent := False,
     vs_blindRequestSentAt := None, vs_blindTokenSecret := None, vs_blindTokenSecrets := []\<rparr>"
  have reset: "voter_inv ?m \<and> voter_advances n ?m" if "vs_blindIssuance n = None"
    using inv that by (auto simp: voter_inv_def requests_inv_def issuances_inv_def voter_advances_def)
  have stamp: "voter_inv (m\<lparr>vs_inviteMessage := Some invite, vs_lastUpdatedAt := now\<rparr>)
      \<and> voter_advances n (m\<lparr>vs_inviteMessage := Some invite, vs_lastUpdatedAt := now\<rparr>)"
    if "voter_inv m \<and> voter_advances n m" for m
    using that same_core_keeps [of m "m\<lparr>vs_inviteMessage := Some invite, vs_lastUpdatedAt := now\<rparr>"]
    by (auto simp: same_core_def intro: voter_advances_trans)
  show ?thesis
    using inv stamp [of n] stamp [of ?m] reset by (auto simp: voter_invite_loaded_def Let_def)
qed

lemma branch_simple:
  "voter_inv n \<Longrightarrow> voter_branch_ok n (voter_login_verified s n el npub tm now)"
  "voter_inv n \<Longrightarrow> voter_branch_ok n (voter_plan_received s n plan)"
  "voter_inv n \<Longrightarrow> voter_branch_ok n (voter_draft_updated s n el responses now)"
  "voter_inv n \<Longrightarrow> voter_branch_ok n (voter_submission_created s n submission)"
  "voter_inv n \<Longrightarrow> voter_branch_ok n (voter_submission_queued s n sid tm2)"
  by (auto simp: step_defs Let_def same_core_def split: option.splits intro!: same_core_keeps)

lemma record_decision_core: "same_core n (record_decision n sid accepted tm reason)"
  by (simp add: record_decision_def same_core_def)

lemma same_core_trans: "same_core s t \<Longrightarrow> same_core t u \<Longrightarrow> same_core s u"
  by (auto simp: same_core_def)

lemma voter_branch_decided:
  "voter_inv n \<Longrightarrow> voter_branch_ok n (voter_submission_accepted s n sid tm)"
  "voter_inv n \<Longrightarrow> voter_branch_ok n (voter_submission_rejected s n sid reason tm)"
  by (auto simp: step_defs record_decision_def same_core_def intro!: same_core_keeps)

lemma branch_request_created: "voter_inv n \<Longrightarrow> voter_branch_ok n (voter_request_created s n raw now)"
proof -
  assume inv: "voter_inv n"
  define request where "request = sanitiseBlindBallotRequest raw"
  let ?key = "request_key request"
  have key: "ballotScopeKey (request_scope request) = ?key" by (simp add: request_key_def)
  have san: "sanitiseBlindBallotRequest request = request"
    by (simp add: request_def requests.sanitise_idem)
  have wk: "well_keyed sanitiseBlindBallotRequest request_key (vs_blindRequests n)"
    and el: "\<And>k r. obj_get (vs_blindRequests n) k = Some r \<Longrightarrow> rq_electionId r = vs_electionId n"
    and cur: "\<And>r. vs_blindRequest n = Some r \<Longrightarrow> obj_get (vs_blindRequests n) (request_key r) = Some r"
    using inv unfolding voter_inv_def requests_inv_def by blast+
  note core = same_core_def
  show ?thesis
  proof (cases "rr_ok (voter_request_created s n raw now)")
    case False
    then show ?thesis
      by (auto simp: voter_branch_ok_def voter_request_created_def Let_def split: option.splits if_splits)
  next
    case True
    then have elr: "rq_electionId request = vs_electionId n" and login: "vs_loginVerified n"
      by (auto simp: voter_request_created_def Let_def request_def [symmetric] split: if_splits)
    show ?thesis
    proof (cases "obj_get (vs_blindRequests n) ?key")
      case None
      have store: "voter_inv t \<and> voter_advances n t"
        if "same_core (n\<lparr>vs_blindRequest := req', vs_blindRequests := obj_set ?key request (vs_blindRequests n)\<rparr>) t"
          and "req' = coalesce (vs_blindRequest n) (Some request)" for req' t
      proof (rule store_request [OF inv login san elr _ _ that(1)])
        show "req' = Some request \<or> (req' = vs_blindRequest n \<and> vs_blindRequest n \<noteq> None
            \<and> (\<forall>r0. vs_blindRequest n = Some r0 \<longrightarrow> request_key r0 \<noteq> ?key))"
          using that(2) None cur by (cases "vs_blindRequest n") (auto simp: coalesce_def)
      qed (simp add: None)
      show ?thesis
        using True inv None
        by (auto simp: voter_request_created_def Let_def request_def [symmetric] key core coalesce_def
            split: option.splits if_splits intro!: store)
    next
      case (Some existing)
      let ?updated = "existing\<lparr>rq_lastSentAt :=
         null_if_nullish (field_coalesce (rq_lastSentAt request) (rq_lastSentAt existing))\<rparr>"
      have ex: "request_key existing = ?key" "sanitiseBlindBallotRequest existing = existing"
        using well_keyed_get [OF wk Some] by simp_all
      have up: "request_key ?updated = ?key" "sanitiseBlindBallotRequest ?updated = ?updated"
        using ex by (simp_all add: request_key_def request_scope_def sanitiseBlindBallotRequest_def)
           (metis blind_request.ext_inject blind_request.surjective blind_request.update_convs(12))
      have store: "voter_inv t \<and> voter_advances n t"
        if "same_core (n\<lparr>vs_blindRequest := (case vs_blindRequest n of
              Some r \<Rightarrow> if rq_requestId r = rq_requestId ?updated then Some ?updated else Some r | None \<Rightarrow> None),
            vs_blindRequests := obj_set ?key ?updated (vs_blindRequests n)\<rparr>) t" for t
      proof (rule store_request [OF inv login up(2), unfolded up(1), OF _ _ _ that])
        show "rq_electionId ?updated = vs_electionId n" using el [OF Some] by simp
        show "rq_requestId r0 = rq_requestId ?updated" if "obj_get (vs_blindRequests n) ?key = Some r0" for r0
          using that Some by simp
        have "vs_blindRequest n \<noteq> None"
          using Some inv unfolding voter_inv_def requests_inv_def by auto
        moreover have "request_key r0 \<noteq> ?key"
          if "vs_blindRequest n = Some r0" "rq_requestId r0 \<noteq> rq_requestId existing" for r0
          using that cur [of r0] Some by auto
        ultimately show "(case vs_blindRequest n of
              Some r \<Rightarrow> if rq_requestId r = rq_requestId ?updated then Some ?updated else Some r | None \<Rightarrow> None)
              = Some ?updated \<or> ((case vs_blindRequest n of
              Some r \<Rightarrow> if rq_requestId r = rq_requestId ?updated then Some ?updated else Some r | None \<Rightarrow> None)
              = vs_blindRequest n \<and> vs_blindRequest n \<noteq> None
            \<and> (\<forall>r0. vs_blindRequest n = Some r0 \<longrightarrow> request_key r0 \<noteq> ?key))"
          by (auto split: option.splits)
      qed
      show ?thesis
        using True inv Some
        by (auto simp: voter_request_created_def Let_def request_def [symmetric] key
            split: if_splits intro!: store) (simp_all add: core)
    qed
  qed
qed

lemma branch_request_sent: "voter_inv n \<Longrightarrow> voter_branch_ok n (voter_request_sent s n el rid sentAt)"
proof -
  assume inv: "voter_inv n"
  let ?scoped = "List.find (\<lambda>(k, r). rq_requestId r = rid) (js_entries (vs_blindRequests n))"
  let ?current = "case vs_blindRequest n of
      Some r \<Rightarrow> if rq_requestId r = rid then Some r else None | None \<Rightarrow> None"
  let ?found = "case ?scoped of Some (k, r) \<Rightarrow> Some r | None \<Rightarrow> ?current"
  have wk: "well_keyed sanitiseBlindBallotRequest request_key (vs_blindRequests n)"
    and elr: "\<And>k r. obj_get (vs_blindRequests n) k = Some r \<Longrightarrow> rq_electionId r = vs_electionId n"
    and cur: "\<And>r. vs_blindRequest n = Some r \<Longrightarrow> obj_get (vs_blindRequests n) (request_key r) = Some r"
    and none: "vs_blindRequest n = None \<Longrightarrow> obj_get (vs_blindRequests n) = Map.empty"
    and logins: "vs_blindRequest n \<noteq> None \<Longrightarrow> vs_loginVerified n"
    using inv unfolding voter_inv_def requests_inv_def by blast+
  show ?thesis
  proof (cases "el = vs_electionId n \<and> ?found \<noteq> None")
    case False
    then have "voter_request_sent s n el rid sentAt = refuse s VE_election_id_mismatch
        \<or> voter_request_sent s n el rid sentAt = refuse s VE_blind_request_missing"
      unfolding voter_request_sent_def Let_def by (cases "el = vs_electionId n") simp_all
    then show ?thesis by auto
  next
    case True
    then obtain found where f: "?found = Some found" by blast
    let ?up = "found\<lparr>rq_lastSentAt := Present sentAt\<rparr>"
    have stored: "obj_get (vs_blindRequests n) (request_key found) = Some found \<and> rq_requestId found = rid
        \<and> (case ?scoped of Some (k, r) \<Rightarrow> k = request_key found | None \<Rightarrow> True)"
    proof (cases ?scoped)
      case None
      with f cur show ?thesis by (auto split: option.splits if_splits)
    next
      case (Some e)
      then have "e \<in> set (js_entries (vs_blindRequests n))" "rq_requestId (snd e) = rid"
        using find_SomeD [OF Some] by (auto simp: case_prod_beta)
      moreover have "snd e = found" using f Some by (auto split: prod.splits)
      ultimately have "obj_get (vs_blindRequests n) (fst e) = Some found" "rq_requestId found = rid"
        using wk by (auto simp: well_keyed_def)
      with well_keyed_get [OF wk this(1)] Some show ?thesis by (auto simp: case_prod_beta)
    qed
    have up: "request_key ?up = request_key found" "sanitiseBlindBallotRequest ?up = ?up"
      using well_keyed_get [OF wk conjunct1 [OF stored]]
      by (simp_all add: request_key_def request_scope_def sanitiseBlindBallotRequest_def)
         (metis blind_request.ext_inject blind_request.surjective blind_request.update_convs(12))
    have req: "vs_blindRequest n \<noteq> None"
    proof
      assume "vs_blindRequest n = None"
      from fun_cong [OF none [OF this], of "request_key found"] stored show False by simp
    qed
    define req' where "req' = (if vs_blindRequest n = None \<or> ?current \<noteq> None then Some ?up else vs_blindRequest n)"
    have res: "voter_request_sent s n el rid sentAt = accept (n\<lparr>
         vs_blindRequests := obj_set (request_key found) ?up (vs_blindRequests n),
         vs_blindRequest := req', vs_blindRequestSent := True, vs_blindRequestSentAt := Some sentAt,
         vs_lastUpdatedAt := sentAt\<rparr>)"
    proof -
      have "(case ?scoped of Some (k, r) \<Rightarrow> if k \<noteq> [] then k else ballotScopeKey (request_scope ?up)
            | None \<Rightarrow> ballotScopeKey (request_scope ?up)) = request_key found"
        using stored up(1) by (auto simp: request_key_def split: option.splits prod.splits)
      with True f show ?thesis unfolding voter_request_sent_def req'_def by (simp add: Let_def)
    qed
    have "voter_inv t \<and> voter_advances n t"
      if "same_core (n\<lparr>vs_blindRequest := req', vs_blindRequests := obj_set (request_key found) ?up (vs_blindRequests n)\<rparr>) t" for t
    proof (rule store_request [OF inv logins [OF req] up(2), unfolded up(1), OF _ _ _ that])
      show "rq_electionId ?up = vs_electionId n" using elr [OF conjunct1 [OF stored]] by simp
      show "rq_requestId r0 = rq_requestId ?up"
        if "obj_get (vs_blindRequests n) (request_key found) = Some r0" for r0
        using that stored by simp
      have "request_key r0 \<noteq> request_key found" if "vs_blindRequest n = Some r0" "rq_requestId r0 \<noteq> rid" for r0
      proof
        assume eq: "request_key r0 = request_key found"
        have "obj_get (vs_blindRequests n) (request_key found) = Some r0"
          using cur [OF that(1)] unfolding eq .
        from trans [OF this [symmetric] conjunct1 [OF stored]] have "r0 = found"
          by (rule option.inject [THEN iffD1])
        with that(2) stored show False by blast
      qed
      then show "req' = Some ?up \<or> (req' = vs_blindRequest n \<and> vs_blindRequest n \<noteq> None
          \<and> (\<forall>r0. vs_blindRequest n = Some r0 \<longrightarrow> request_key r0 \<noteq> request_key found))"
        using req unfolding req'_def by (auto split: option.splits)
    qed
    then show ?thesis by (simp add: res same_core_def)
  qed
qed

lemma branch_issuance_received: "voter_inv n \<Longrightarrow> voter_branch_ok n (voter_issuance_received s n raw)"
proof -
  assume inv: "voter_inv n"
  define i where "i = sanitiseBlindBallotIssuance raw"
  let ?res = "voter_issuance_received s n raw"
  have key: "ballotScopeKey (issuance_scope i) = issuance_key i" by (simp add: issuance_key_def)
  have san: "sanitiseBlindBallotIssuance i = i" by (simp add: i_def issuances.sanitise_idem)
  have cur: "\<And>r. vs_blindRequest n = Some r \<Longrightarrow> obj_get (vs_blindRequests n) (request_key r) = Some r"
    using inv unfolding voter_inv_def requests_inv_def by blast
  show ?thesis
  proof (cases "rr_ok ?res")
    case False
    then show ?thesis
      by (auto simp: voter_branch_ok_def voter_issuance_received_def Let_def split: if_splits)
  next
    case True
    let ?t = "rr_state ?res"
    from True have el: "is_electionId i = vs_electionId n"
      and ans: "answers_request i (vs_blindRequest n) \<or> answers_request i (obj_get (vs_blindRequests n) (issuance_key i))"
      and same: "\<And>j. obj_get (vs_blindIssuances n) (issuance_key i) = Some j \<Longrightarrow> same_issuance j i"
      by (auto simp: voter_issuance_received_def Let_def i_def [symmetric] key split: if_splits option.splits)
    from True have t: "vs_electionId ?t = vs_electionId n" "vs_invitedNpub ?t = vs_invitedNpub n"
      "vs_loginVerified ?t = vs_loginVerified n" "vs_blindRequest ?t = vs_blindRequest n"
      "vs_blindRequests ?t = vs_blindRequests n"
      "vs_blindIssuance ?t = coalesce (vs_blindIssuance n) (Some i)"
      "vs_blindIssuances ?t = obj_set (issuance_key i) i (vs_blindIssuances n)"
      "vs_credentialReady ?t" "vs_submission ?t = vs_submission n" "vs_submissions ?t = vs_submissions n"
      and err: "rr_error ?res = None"
      by (auto simp: voter_issuance_received_def Let_def i_def [symmetric] key split: if_splits)
    have "\<exists>l r. obj_get (vs_blindRequests n) l = Some r \<and> rq_requestId r = is_requestId i"
      using ans cur unfolding answers_request_def by (auto split: option.splits)
    then have "issuances_inv (vs_electionId n) (vs_blindRequests n)
        (coalesce (vs_blindIssuance n) (Some i)) (obj_set (issuance_key i) i (vs_blindIssuances n))"
      using inv unfolding voter_inv_def by (intro issuances_inv_set san el same) blast+
    moreover have "coalesce (vs_blindIssuance n) (Some i) \<noteq> None"
      by (simp add: coalesce_def split: option.splits)
    ultimately have "voter_inv ?t"
      using inv t(8) unfolding voter_inv_def t by blast
    moreover have "voter_advances n ?t"
      using t(8) same unfolding voter_advances_def t
      by (auto simp: coalesce_def)
    ultimately show ?thesis using True err by (simp add: voter_branch_ok_def)
  qed
qed

section \<open>The voter's reducer as an instance of the contract\<close>

definition voter_step :: "string \<times> voter_event \<Rightarrow> voter_state \<Rightarrow> voter_result" where
  "voter_step e s = reduceVoterEvent s (snd e) (fst e)"

lemmas voter_branches = branch_invite_loaded branch_simple voter_branch_decided branch_request_created
  branch_request_sent branch_issuance_received

lemma voter_step_branch: "voter_inv s \<Longrightarrow> voter_branch_ok (cloneVoterState s) (voter_step e s)"
  by (cases e; cases "snd e") (simp_all add: voter_step_def voter_branches voter_clone_inv)

lemma voter_refused: "\<not> rr_ok (reduceVoterEvent s e now) \<Longrightarrow> rr_state (reduceVoterEvent s e now) = s"
  by (cases e) (auto simp: step_defs Let_def split: if_splits option.splits prod.splits)

lemma voter_error_iff: "rr_error (reduceVoterEvent s e now) = None \<longleftrightarrow> rr_ok (reduceVoterEvent s e now)"
  by (cases e) (auto simp: step_defs Let_def split: if_splits option.splits prod.splits)

interpretation voter: progressing_reducer voter_step voter_inv voter_advances
proof
  fix e s t u
  show "\<not> rr_ok (voter_step e s) \<Longrightarrow> rr_state (voter_step e s) = s"
    by (simp add: voter_step_def voter_refused)
  show "rr_error (voter_step e s) = None \<longleftrightarrow> rr_ok (voter_step e s)"
    by (simp add: voter_step_def voter_error_iff)
  show "voter_inv s \<Longrightarrow> rr_ok (voter_step e s) \<Longrightarrow> voter_inv (rr_state (voter_step e s))"
    using voter_step_branch [of s e] by (simp add: voter_branch_ok_def)
  show "voter_advances s s" by simp
  show "voter_advances s t \<Longrightarrow> voter_advances t u \<Longrightarrow> voter_advances s u"
    by (rule voter_advances_trans)
  show "voter_inv s \<Longrightarrow> rr_ok (voter_step e s) \<Longrightarrow> voter_advances s (rr_state (voter_step e s))"
    using voter_step_branch [of s e] voter_clone_advances [of s]
    by (auto simp: voter_branch_ok_def intro: voter_advances_trans)
qed

lemma voter_inv_empty: "voter_inv (createEmptyVoterElectionLocalState el npub co now)"
  by (simp add: voter_inv_def requests_inv_def issuances_inv_def createEmptyVoterElectionLocalState_def)

lemma voter_history_inv:
  "voter_inv (run_events voter_step es (createEmptyVoterElectionLocalState el npub co now))"
  by (rule voter.run_inv) (rule voter_inv_empty)

end
