(* ===== verification/Samples.thy ===== *)
theory Samples
  imports Intake
begin

text \<open>
  A small concrete election: a questionnaire with two questions, the second shown after a yes to the
  first, an open election, and ballots with their credentials.  The examples of the other theories
  evaluate the model on it.
\<close>

definition sample_questions :: "question list" where
  "sample_questions =
     [\<lparr>q_questionId = ''q1'', q_prompt = Plain ''Proceed?'', q_translations = None, q_required = True,
        q_ballotSlot = None, q_requiredScope = None, q_ballotGroup = None, q_showIf = None, q_kind = YesNo\<rparr>,
      \<lparr>q_questionId = ''q2'', q_prompt = Plain ''Order'', q_translations = None, q_required = False,
        q_ballotSlot = None, q_requiredScope = None, q_ballotGroup = None,
        q_showIf = Some \<lparr>qc_dependsOnQuestionId = ''q1'', qc_requiredAnswer = Some (yes_no_body True)\<rparr>,
        q_kind = Rank [\<lparr>co_optionId = ''a'', co_label = Plain ''A'', co_translations = None\<rparr>,
                       \<lparr>co_optionId = ''b'', co_label = Plain ''B'', co_translations = None\<rparr>] (num_int 1)\<rparr>]"

definition sample_definition :: questionnaire_definition where
  "sample_definition = \<lparr>d_protocolVersion = Some 2, d_flowMode = None, d_responseMode = ''blind_token'',
     d_questionnaireId = ''e1'', d_title = Plain ''Vote'', d_description = None, d_translations = None,
     d_createdAt = num_int 0, d_openAt = num_int 0, d_closeAt = num_int 100, d_coordinatorPubkey = ''npub1c'',
     d_coordinatorEncryptionPubkey = ''npub1c'', d_responseVisibility = ''private'', d_eligibilityMode = ''open'',
     d_generalInvitePowDifficulty = None, d_allowMultipleResponsesPerPubkey = False, d_ballotCredentialMode = None,
     d_credentialsPerVoter = None, d_blindSigningPublicKey = None, d_questionnaireRelays = None,
     d_privateWorker = None, d_voterGroups = None, d_questions = sample_questions\<rparr>"

lemma sample_definition_valid: "vr_valid (validateQuestionnaireDefinition plain_host sample_definition)"
  by code_simp

definition sample_key :: blind_public_key where
  "sample_key = \<lparr>bk_keyId = ''k1'', bk_jwk = JNull\<rparr>"

definition sample_summary :: election_summary where
  "sample_summary = \<lparr>es_electionId = ''e1'', es_title = ''Vote'', es_description = [], es_state = Open,
     es_openedAt = None, es_closedAt = None, es_coordinatorNpub = ''npub1c'',
     es_blindSigningPublicKey = Some sample_key, es_definitionCreatedAt = None, es_questionnaireRelays = None,
     es_issueBlindTokensWorker = None, es_protocolVersion = Some 2, es_flowMode = None, es_responseMode = None\<rparr>"

definition sample_answer :: "string \<Rightarrow> ballot_answer" where
  "sample_answer v = \<lparr>qa_questionId = ''q1'', qa_type = ''yes_no'', qa_answer = JStr v, qa_encryptForCoordinator = None\<rparr>"

definition sample_ballot :: "string \<Rightarrow> string \<Rightarrow> string \<Rightarrow> ballot_submission" where
  "sample_ballot sid token nullifier = \<lparr>su_electionId = ''e1'', su_submissionId = sid, su_invitedNpub = ''npub1v'',
     su_responseNpub = None, su_tokenCommitment = token, su_blindSigningKeyId = ''k1'', su_credential = ''sig'',
     su_nullifier = nullifier, su_credentialBundle = None,
     su_payload = \<lparr>bl_electionId = ''e1'', bl_responses = [sample_answer ''no'']\<rparr>, su_submittedAt = ''5''\<rparr>"

definition sample_queue :: "ballot_submission list" where
  "sample_queue = [sample_ballot ''s1'' ''t1'' ''n1'', sample_ballot ''s2'' ''t2'' ''n1'',
     sample_ballot ''s3'' ''t1'' ''n3'', sample_ballot ''s4'' ''t4'' ''n4'', sample_ballot ''s1'' ''t5'' ''n5'']"

definition any_signature :: blind_verifier where
  "any_signature key message signature = (signature = ''sig'')"

definition sample_run :: "circular_dependency + (coordinator_state \<times> intake_outcome list)" where
  "sample_run = process_queue plain_host any_signature ''e1'' [''q1''] (Some sample_definition) ''7''
     (emptyCoordinatorState sample_summary ''0'') sample_queue"

end
