(* ===== verification/Election_Properties.thy ===== *)
theory Election_Properties
  imports Intake_Safety Voter_Safety Samples
begin

text \<open>
  The properties of the election itself: the coordinator's intake and reducer, the voter's reducer,
  and the validators of ballots, requests and login proofs.
\<close>

section \<open>The intake of ballots\<close>


lemma sample_run_returns: "\<exists>t outcomes. sample_run = Inr (t, outcomes)"
  unfolding sample_run_def by (rule process_queue_total) (rule sample_definition_valid)

lemma sample_ids: "\<forall>su\<in>set sample_queue. su_submissionId su \<noteq> []"
  by (simp add: sample_queue_def sample_ballot_def)





text \<open>
  C9: the published count is exact: processing a queue raises the number of accepted results by the
  number of ballots that the loop decided to accept, and the number is the size of the ledger.
\<close>

theorem intake_count:
  assumes "ledger_inv s" and "\<forall>su\<in>set queue. su_submissionId su \<noteq> []"
    and "process_queue h c electionId req d now s queue = Inr (t, outcomes)"
  shows "countAcceptedUniqueVoters t = card (dom (ledger_of t))
     \<and> countAcceptedUniqueVoters t = countAcceptedUniqueVoters s + length (filter counted_outcome outcomes)"
  using process_queue_count [OF assms] count_is_ledger_size process_queue_refines [OF assms] by blast

lemma intake_count_witness:
  "\<exists>t outcomes. sample_run = Inr (t, outcomes)
     \<and> countAcceptedUniqueVoters t = length (filter counted_outcome outcomes)"
proof -
  obtain t outcomes where run: "sample_run = Inr (t, outcomes)" using sample_run_returns by blast
  have "countAcceptedUniqueVoters (emptyCoordinatorState sample_summary ''0'') = 0" by code_simp
  with intake_count [OF ledger_inv_empty sample_ids run [unfolded sample_run_def]] run show ?thesis
    by (intro exI [of _ t] exI [of _ outcomes]) simp
qed

text \<open>
  C10: the loop returns: with a definition that the validator accepts no ballot, however malformed,
  makes it throw, and every ballot of the queue has an outcome.
\<close>

theorem intake_returns:
  assumes "vr_valid (validateQuestionnaireDefinition h d)"
  shows "\<exists>t outcomes. process_queue h c electionId req (Some d) now s queue = Inr (t, outcomes)
     \<and> length outcomes = length queue"
proof -
  have "length outcomes = length queue"
    if "process_queue h c electionId req (Some d) now s queue = Inr (t, outcomes)" for t s queue outcomes
    using that by (induction queue arbitrary: s outcomes) (auto split: sum.splits)
  with process_queue_total [OF assms] show ?thesis by blast
qed

lemma intake_returns_witness: "\<exists>t outcomes. sample_run = Inr (t, outcomes) \<and> length outcomes = 5"
proof -
  have "length sample_queue = 5" by code_simp
  with intake_returns [OF sample_definition_valid] show ?thesis unfolding sample_run_def by metis
qed

section \<open>The coordinator's reducer\<close>

text \<open>
  C8: no double acceptance along any history: whatever events the coordinator's reducer is given, in
  any order, as long as no submission is received again under an identifier already accepted and no
  rejection carries the flag of an acceptance, two accepted submissions never share a nullifier or a
  token.
\<close>

theorem no_double_acceptance:
  assumes "coordinator_history h s0 s" and "coordinator_inv s0" and "acceptance_inv s0"
    and "accepted_submission s a" and "accepted_submission s b" and "a \<noteq> b"
    and "obj_get (co_receivedSubmissions s) a = Some su" and "obj_get (co_receivedSubmissions s) b = Some tu"
  shows "nullifiers_of su \<inter> nullifiers_of tu = {} \<and> \<not> shares_token su tu"
proof -
  have "acceptance_inv s" using coordinator_history_inv [OF assms(1-3)] by blast
  from acceptance_inv_disjoint [OF this assms(4-8)] show ?thesis by (simp add: nullifiers_of_def)
qed

text \<open>An event accepted in the empty state, and the history of two accepted ballots.\<close>

definition sample_result :: "string \<Rightarrow> acceptance_result" where
  "sample_result sid = \<lparr>ac_electionId = ''e1'', ac_submissionId = sid, ac_accepted = True, ac_reason = None,
     ac_decidedAt = ''8''\<rparr>"

definition sample_state :: "nat \<Rightarrow> coordinator_state" where
  "sample_state n = run_events (coordinator_step plain_host)
     (take n [(''1'', BALLOT_SUBMISSION_RECEIVED (sample_ballot ''s1'' ''t1'' ''n1'')),
              (''2'', BALLOT_SUBMISSION_RECEIVED (sample_ballot ''s4'' ''t4'' ''n4'')),
              (''3'', BALLOT_ACCEPTED (sample_result ''s1'')),
              (''4'', BALLOT_ACCEPTED (sample_result ''s4''))])
     (emptyCoordinatorState sample_summary ''0'')"

lemma sample_history: "coordinator_history plain_host (emptyCoordinatorState sample_summary ''0'') (sample_state 4)"
proof -
  have ok: "admissible_event (emptyCoordinatorState sample_summary ''0'')
      (BALLOT_SUBMISSION_RECEIVED (sample_ballot ''s1'' ''t1'' ''n1''))"
    "admissible_event (sample_state 1) (BALLOT_SUBMISSION_RECEIVED (sample_ballot ''s4'' ''t4'' ''n4''))"
    by code_simp+
  have "coordinator_history plain_host (emptyCoordinatorState sample_summary ''0'') (sample_state 1)"
    using coordinator_history.step [OF coordinator_history.start ok(1)]
    by (simp add: sample_state_def coordinator_step_def del: reduceCoordinatorEvent.simps)
  from coordinator_history.step [OF this ok(2), of "''2''"]
  have "coordinator_history plain_host (emptyCoordinatorState sample_summary ''0'') (sample_state 2)"
    by (simp add: sample_state_def numeral_2_eq_2 coordinator_step_def del: reduceCoordinatorEvent.simps)
  from coordinator_history.step [OF coordinator_history.step [OF this, of "BALLOT_ACCEPTED (sample_result ''s1'')" "''3''"],
      of "BALLOT_ACCEPTED (sample_result ''s4'')" "''4''"]
  show ?thesis
    by (simp add: sample_state_def numeral_eq_Suc coordinator_step_def del: reduceCoordinatorEvent.simps)
qed

lemma no_double_acceptance_witness:
  "accepted_submission (sample_state 4) ''s1'' \<and> accepted_submission (sample_state 4) ''s4''
     \<and> nullifiers_of (sample_ballot ''s1'' ''t1'' ''n1'') \<inter> nullifiers_of (sample_ballot ''s4'' ''t4'' ''n4'') = {}"
proof -
  have acc: "accepted_submission (sample_state 4) ''s1''" "accepted_submission (sample_state 4) ''s4''"
    and get: "obj_get (co_receivedSubmissions (sample_state 4)) ''s1'' = Some (sample_ballot ''s1'' ''t1'' ''n1'')"
      "obj_get (co_receivedSubmissions (sample_state 4)) ''s4'' = Some (sample_ballot ''s4'' ''t4'' ''n4'')"
    by code_simp+
  have inv: "coordinator_inv (emptyCoordinatorState sample_summary ''0'')"
    "acceptance_inv (emptyCoordinatorState sample_summary ''0'')"
    using ledger_inv_empty by (simp_all add: ledger_inv_def)
  show ?thesis using no_double_acceptance [OF sample_history inv acc _ get] acc by simp
qed

text \<open>
  C13: the coordinator's invariant holds after any run of events from a new election: requests and
  issuances stand under their request ids, at most one of each per voter and scope; every issuance
  answers a pending request of this election signed with the same key, for a whitelisted voter; every
  stored submission has passed the schema and every result belongs to a stored submission.
\<close>

theorem coordinator_run_invariant:
  "coordinator_inv (run_events (coordinator_step h) events (emptyCoordinatorState summary now))"
  by (rule coordinator.run_inv) (use ledger_inv_empty in \<open>simp add: ledger_inv_def\<close>)

text \<open>
  C14: what was issued stays: over any run of events an issued signature is never replaced, claim
  states never fall back, and neither requests, submissions, results nor spent nullifiers disappear.
\<close>

theorem coordinator_run_advances:
  assumes "coordinator_inv s"
  shows "coordinator_advances s (run_events (coordinator_step h) events s)"
  using assms by (rule coordinator.run_advances)

lemma coordinator_run_advances_witness: "coordinator_advances (sample_state 2) (run_events (coordinator_step plain_host)
    [(''9'', BALLOT_ACCEPTED (sample_result ''s1''))] (sample_state 2))"
  by (rule coordinator_run_advances) (unfold sample_state_def, rule coordinator_run_invariant)

end
