(* ===== verification/Voter_Properties.thy ===== *)
theory Voter_Properties
  imports Voter_Safety Coordinator_Safety Samples
begin

text \<open>
  The properties of the voter's reducer, and the one that both reducers share: a refused event has
  no effect.
\<close>

text \<open>
  C19: refused events have no effect: an event that either reducer refuses leaves the state as it
  was and names an error; an accepted one names none.
\<close>

theorem refused_events_have_no_effect:
  "(if rr_ok (reduceCoordinatorEvent h s e now) then rr_error (reduceCoordinatorEvent h s e now) = None
    else rr_state (reduceCoordinatorEvent h s e now) = s \<and> rr_error (reduceCoordinatorEvent h s e now) \<noteq> None)
   \<and> (if rr_ok (reduceVoterEvent v f now) then rr_error (reduceVoterEvent v f now) = None
      else rr_state (reduceVoterEvent v f now) = v \<and> rr_error (reduceVoterEvent v f now) \<noteq> None)"
  using coordinator_refused [of h s e now] coordinator_error_iff [of h s e now]
    voter_refused [of v f now] voter_error_iff [of v f now] by presburger

text \<open>
  C17: the voter's invariant holds after any run of events from the empty state: requests stand under
  the key of their scope, every credential answers a request of this election, the credential flag is
  raised exactly when a credential is there, and a ballot exists only with a credential.
\<close>

theorem voter_run_invariant:
  "voter_inv (run_events voter_step events (createEmptyVoterElectionLocalState electionId npub coordinator now))"
  by (rule voter_history_inv)

text \<open>
  C16: no ballot without a login and a credential: whatever the events were, a voter who has a
  submission has verified the login and holds a credential that answers one of the voter's own requests.
\<close>

theorem voter_submission_needs_credential:
  assumes "s = run_events voter_step events (createEmptyVoterElectionLocalState electionId npub coordinator now)"
    and "vs_submission s = Some su"
  shows "vs_loginVerified s \<and> vs_credentialReady s
     \<and> (\<exists>k j l r. obj_get (vs_blindIssuances s) k = Some j \<and> is_electionId j = electionId
          \<and> obj_get (vs_blindRequests s) l = Some r \<and> rq_requestId r = is_requestId j)"
proof -
  let ?s0 = "createEmptyVoterElectionLocalState electionId npub coordinator now"
  have inv: "voter_inv s" unfolding assms(1) by (rule voter_history_inv)
  have "voter_advances ?s0 s" unfolding assms(1) by (rule voter.run_advances) (rule voter_inv_empty)
  then have el: "vs_electionId s = electionId"
    by (simp add: voter_advances_def createEmptyVoterElectionLocalState_def)
  have "vs_submission s \<noteq> None \<or> vs_submissions s \<noteq> [] \<longrightarrow> vs_credentialReady s"
    using inv unfolding voter_inv_def by (elim conjE)
  with assms(2) have ready: "vs_credentialReady s" by blast
  have "vs_credentialReady s \<longleftrightarrow> vs_blindIssuance s \<noteq> None" using inv unfolding voter_inv_def by (elim conjE)
  with ready obtain i where i: "vs_blindIssuance s = Some i" by auto
  with inv obtain j where j: "obj_get (vs_blindIssuances s) (issuance_key i) = Some j"
    unfolding voter_inv_def issuances_inv_def by blast
  with inv el obtain l r where r: "is_electionId j = electionId"
    "obj_get (vs_blindRequests s) l = Some r" "rq_requestId r = is_requestId j"
    unfolding voter_inv_def issuances_inv_def by blast
  have "vs_loginVerified s"
  proof (cases "vs_blindRequest s")
    case None
    with inv have "obj_get (vs_blindRequests s) = Map.empty" unfolding voter_inv_def requests_inv_def by blast
    with r(2) show ?thesis by (metis option.distinct(1))
  next
    case (Some q)
    with inv show ?thesis unfolding voter_inv_def requests_inv_def by simp
  qed
  with ready j r show ?thesis by blast
qed

definition sample_request :: blind_request where
  "sample_request = \<lparr>rq_electionId = ''e1'', rq_requestId = ''r1'', rq_invitedNpub = ''npub1v'',
     rq_blindedMessage = ''m'', rq_blindSigningKeyId = ''k1'', rq_clientNonce = ''c'', rq_createdAt = ''2'',
     rq_inviteCodeHash = Undefined, rq_paperBallotAdmissionKey = Undefined, rq_generalInvitePow = Undefined,
     rq_ballotScope = Null, rq_lastSentAt = Undefined\<rparr>"

definition sample_issuance :: blind_issuance where
  "sample_issuance = \<lparr>is_electionId = ''e1'', is_requestId = ''r1'', is_issuanceId = ''i1'',
     is_invitedNpub = ''npub1v'', is_blindSigningKeyId = ''k1'', is_blindSignature = ''b'',
     is_definitionHash = Undefined, is_definitionEventId = Undefined, is_ballotScope = Null,
     is_definition = Undefined, is_issuedAt = ''3''\<rparr>"

definition sample_voter_events :: "(string \<times> voter_event) list" where
  "sample_voter_events = [(''1'', LOGIN_VERIFIED ''e1'' ''npub1v'' None), (''2'', BLIND_REQUEST_CREATED sample_request),
     (''3'', BLIND_ISSUANCE_RECEIVED sample_issuance),
     (''4'', BALLOT_SUBMISSION_CREATED (sample_ballot ''s1'' ''t1'' ''n1''))]"

definition sample_voter :: "nat \<Rightarrow> voter_state" where
  "sample_voter n = run_events voter_step (take n sample_voter_events)
     (createEmptyVoterElectionLocalState ''e1'' ''npub1v'' ''npub1c'' ''0'')"

lemma voter_submission_needs_credential_witness:
  "vs_submission (sample_voter 4) = Some (sample_ballot ''s1'' ''t1'' ''n1'') \<and> vs_credentialReady (sample_voter 4)"
proof -
  have "vs_submission (sample_voter 4) = Some (sample_ballot ''s1'' ''t1'' ''n1'')" by code_simp
  with voter_submission_needs_credential [OF sample_voter_def this] show ?thesis by blast
qed

text \<open>
  C18: a credential is never lost or exchanged: over any run of events the voter's credential stays
  the same, the stored ones keep their identifier and signature, and login and readiness stay.
\<close>

theorem voter_run_advances:
  assumes "voter_inv s"
  shows "voter_advances s (run_events voter_step events s)"
  using assms by (rule voter.run_advances)

lemma voter_run_advances_witness:
  "voter_advances (sample_voter 3) (run_events voter_step [(''9'', BLIND_ISSUANCE_RECEIVED sample_issuance)] (sample_voter 3))"
  by (rule voter_run_advances) (unfold sample_voter_def, rule voter_history_inv)

end
