(* ===== verification/Validation_Properties.thy ===== *)
theory Validation_Properties
  imports Intake_Safety Samples Pow
begin

text \<open>
  The properties of the checks at the edge of the election: login proofs, ballot requests, submitted
  ballots and the restoring of a persisted state.
\<close>

section \<open>Submitted ballots\<close>

text \<open>
  C15: the ballot validator decides acceptability: for every definition that the definition
  validator accepts, \<open>validateBallotSubmission\<close> never throws and answers exactly the declarative
  predicate \<open>acceptable_ballot\<close>.
\<close>

theorem ballot_validator_decides:
  assumes "vr_valid (validateQuestionnaireDefinition h d)"
  shows "validateBallotSubmission h su electionId phase req (Some d)
     = Inr (acceptable_ballot d su electionId phase req)"
  using assms by (rule validate_ballot_result)

lemma ballot_validator_decides_witness:
  "acceptable_ballot sample_definition (sample_ballot ''s1'' ''t1'' ''n1'') ''e1'' Open [''q1'']
   \<and> \<not> acceptable_ballot sample_definition (sample_ballot ''s1'' ''t1'' ''n1'') ''e1'' Open [''q1'', ''q9'']"
proof -
  have "validateBallotSubmission plain_host (sample_ballot ''s1'' ''t1'' ''n1'') ''e1'' Open [''q1'']
      (Some sample_definition) = Inr True"
    and "validateBallotSubmission plain_host (sample_ballot ''s1'' ''t1'' ''n1'') ''e1'' Open [''q1'', ''q9'']
      (Some sample_definition) = Inr False" by code_simp+
  then show ?thesis using ballot_validator_decides [OF sample_definition_valid] by simp
qed

section \<open>Login proofs\<close>

lemma challenge_json_text: "challenge_json c =
   ''{'' @ json_string ''type'' @ '':'' @ json_string ''login_challenge'' @ '',''
   @ json_string ''schemaVersion'' @ '':1,''
   @ json_string ''domain'' @ '':'' @ json_string (lc_domain c) @ '',''
   @ json_string ''electionId'' @ '':'' @ json_string (lc_electionId c) @ '',''
   @ json_string ''npub'' @ '':'' @ json_string (lc_npub c) @ '',''
   @ json_string ''nonce'' @ '':'' @ json_string (lc_nonce c) @ '',''
   @ json_string ''issuedAt'' @ '':'' @ json_string (lc_issuedAt c) @ '',''
   @ json_string ''expiresAt'' @ '':'' @ json_string (lc_expiresAt c) @ ''}''"
  by (simp add: challenge_json_def json_object_of_strings_def)

lemma challenge_json_inject: "challenge_json c = challenge_json c' \<longleftrightarrow> c = c'"
  unfolding challenge_json_text by (cases c; cases c') (auto simp: json_string_append_eq)

text \<open>
  C33: a login proof is bound to its challenge: when \<open>validateLoginProof\<close> accepts, the nonce was
  unused, the challenge names the expected domain and election and the prover's own key, and the
  prover's signature verifies on a text that no other challenge prints to.
\<close>

theorem login_proof_bound_to_challenge:
  assumes "validateLoginProof h verify proof domain electionId nonceAlreadyUsed now"
  shows "\<not> nonceAlreadyUsed \<and> lc_domain (lp_challenge proof) = domain
     \<and> lc_electionId (lp_challenge proof) = electionId \<and> lc_npub (lp_challenge proof) = lp_npub proof
     \<and> \<not> num_le (parseIso h (lc_expiresAt (lp_challenge proof))) (parseIso h now)
     \<and> verify (challenge_json (lp_challenge proof)) (lp_signature proof) (lp_npub proof)
     \<and> (\<forall>c. challenge_json c = challenge_json (lp_challenge proof) \<longleftrightarrow> c = lp_challenge proof)"
  using assms by (auto simp: validateLoginProof_def Let_def challenge_json_inject split: if_splits)

definition sample_proof :: "string \<Rightarrow> login_proof" where
  "sample_proof expires = \<lparr>lp_electionId = ''e1'', lp_npub = ''npub1v'',
     lp_challenge = \<lparr>lc_domain = ''vote.example'', lc_electionId = ''e1'', lc_npub = ''npub1v'', lc_nonce = ''x'',
       lc_issuedAt = ''1'', lc_expiresAt = expires\<rparr>, lp_signature = ''sig''\<rparr>"

definition any_login_signature :: "string \<Rightarrow> string \<Rightarrow> string \<Rightarrow> bool" where
  "any_login_signature message signature npub = (signature = ''sig'')"

lemma login_proof_bound_to_challenge_witness:
  "validateLoginProof plain_host any_login_signature (sample_proof ''9'') ''vote.example'' ''e1'' False ''5''
   \<and> \<not> num_le (parseIso plain_host ''9'') (parseIso plain_host ''5'')"
proof -
  have ok: "validateLoginProof plain_host any_login_signature (sample_proof ''9'') ''vote.example'' ''e1'' False ''5''"
    by code_simp
  with login_proof_bound_to_challenge [OF ok] show ?thesis by (simp add: sample_proof_def)
qed

text \<open>
  An unreadable expiry never expires: a challenge whose \<open>expiresAt\<close> is no date is accepted at
  every time, since the comparison with \<open>NaN\<close> is false.
\<close>

lemma unreadable_expiry_never_expires:
  "validateLoginProof plain_host any_login_signature (sample_proof ''soon'') ''vote.example'' ''e1'' False now"
proof -
  have "parseIso plain_host ''soon'' = NaN" by code_simp
  then show ?thesis
    by (simp add: validateLoginProof_def sample_proof_def any_login_signature_def num_le_def)
qed

section \<open>Ballot requests\<close>

text \<open>
  C32: an uninvited request pays for its acceptance: when the definition asks for \<open>n\<close> bits of work
  and the request carries no invite code, acceptance means that the digest of its preimage, read as a
  number, is below \<open>2 ^ (-n)\<close> of its range, for a voter who is logged in and admitted while the
  election is open.  The digest of the host is taken to be a hexadecimal text of 64 digits.
\<close>

theorem uninvited_request_has_work:
  assumes "validateBlindBallotRequest h request phase listed paper login seen (Some d)"
    and "d_generalInvitePowDifficulty d = Some (num_int (int n))" and "0 < n"
    and "nullish (rq_inviteCodeHash request) = None"
    and "\<And>s. is_hex (host_sha256 h s) \<and> length (host_sha256 h s) = 64"
  shows "phase = Open \<and> login \<and> (listed \<or> paper) \<and> n \<le> 24
     \<and> (\<exists>p. nullish (rq_generalInvitePow request) = Some p
          \<and> hex_value (host_sha256 h (generalInvitePowPreimage (pow_request_of request) (pp_nonce p))) * 2 ^ n < 16 ^ 64)"
proof -
  let ?pow = "verifyGeneralInvitePow h (pow_request_of request) (num_int (int n)) (nullish (rq_generalInvitePow request))"
  have pos: "num_lt (num_int 0) (num_int (int n))" and nz: "num_int (int n) \<noteq> num_int 0"
    using assms(3) by (simp_all add: num_int_def)
  have "?pow \<and> phase = Open \<and> login \<and> (listed \<or> paper)"
    using assms(1,2,4) pos by (auto simp: validateBlindBallotRequest_def Let_def truthy_def split: if_splits)
  then have pow: ?pow and rest: "phase = Open \<and> login \<and> (listed \<or> paper)" by blast+
  from pow nz obtain p where p: "nullish (rq_generalInvitePow request) = Some p"
    and diff: "isGeneralInvitePowDifficulty (num_int (int n))"
    and bits: "hasLeadingZeroBits (host_sha256 h (generalInvitePowPreimage (pow_request_of request) (pp_nonce p)))
      (nat (floor_at_least 0 (num_int (int n))))"
    by (auto simp: verifyGeneralInvitePow_def split: if_splits option.splits)
  have n24: "n \<le> 24"
    using diff by (auto simp: isGeneralInvitePowDifficulty_def num_le_def num_int_def GENERAL_INVITE_POW_MAX_DIFFICULTY_def)
  have "nat (floor_at_least 0 (num_int (int n))) = n" by (simp add: num_int_def)
  with bits have "hasLeadingZeroBits (host_sha256 h (generalInvitePowPreimage (pow_request_of request) (pp_nonce p))) n"
    by simp
  with hasLeadingZeroBits_value [of _ n] assms(5) n24 rest p show ?thesis by auto
qed

definition work_definition :: questionnaire_definition where
  "work_definition = sample_definition\<lparr>d_generalInvitePowDifficulty := Some (num_int 5)\<rparr>"

definition zero_host :: host where
  "zero_host = plain_host\<lparr>host_sha256 := (\<lambda>_. replicate 64 CHR ''0'')\<rparr>"

definition work_request :: blind_request where
  "work_request = \<lparr>rq_electionId = ''e1'', rq_requestId = ''r1'', rq_invitedNpub = ''npub1v'',
     rq_blindedMessage = ''m'', rq_blindSigningKeyId = ''k1'', rq_clientNonce = ''c'', rq_createdAt = ''2'',
     rq_inviteCodeHash = Undefined, rq_paperBallotAdmissionKey = Undefined,
     rq_generalInvitePow = Present \<lparr>pp_nonce = ''7''\<rparr>, rq_ballotScope = Null, rq_lastSentAt = Undefined\<rparr>"

lemma uninvited_request_has_work_witness:
  "validateBlindBallotRequest zero_host work_request Open True False True False (Some work_definition)
   \<and> (\<exists>p. nullish (rq_generalInvitePow work_request) = Some p
        \<and> hex_value (host_sha256 zero_host (generalInvitePowPreimage (pow_request_of work_request) (pp_nonce p)))
            * 2 ^ 5 < 16 ^ 64)"
proof -
  have ok: "validateBlindBallotRequest zero_host work_request Open True False True False (Some work_definition)"
    by code_simp
  have diff: "d_generalInvitePowDifficulty work_definition = Some (num_int (int 5))"
    by (simp add: work_definition_def)
  have code: "nullish (rq_inviteCodeHash work_request) = None" by (simp add: work_request_def)
  have nibble: "parse_nibble CHR ''0'' = Some 0" by code_simp
  have hex: "is_hex (host_sha256 zero_host s) \<and> length (host_sha256 zero_host s) = 64" for s
    using nibble by (simp add: zero_host_def is_hex_def list_all_length)
  show ?thesis using uninvited_request_has_work [OF ok diff _ code hex] ok by simp
qed

section \<open>Restoring a persisted state\<close>

text \<open>
  Writing the nullifiers of the accepted ballots, in any order: afterwards each of them is held by
  an accepted ballot that uses it.
\<close>

definition counted_ballot :: "coordinator_state \<Rightarrow> string \<Rightarrow> ballot_submission \<Rightarrow> bool" where
  "counted_ballot s sid su \<longleftrightarrow> (\<exists>res. (sid, res) \<in> set (co_acceptanceResults s) \<and> ac_accepted res)
     \<and> obj_get (co_receivedSubmissions s) sid = Some su"

lemma restored_nullifiers_held:
  assumes "counted_ballot s sid su" "n \<in> nullifiers_of su"
  shows "\<exists>tid tu. obj_get (restored_nullifiers s) n = Some tid \<and> counted_ballot s tid tu \<and> n \<in> nullifiers_of tu"
proof -
  let ?step = "\<lambda>(sid, res) ns. if \<not> ac_accepted res then ns
       else case obj_get (co_receivedSubmissions s) sid of
         None \<Rightarrow> ns | Some submission \<Rightarrow> record_nullifiers submission sid ns"
  let ?held = "\<lambda>ns. \<exists>tid tu. obj_get ns n = Some tid \<and> counted_ballot s tid tu \<and> n \<in> nullifiers_of tu"
  have keep: "?held (?step (tid, res) ns)" if "(tid, res) \<in> set (co_acceptanceResults s)" "?held ns" for tid res ns
    using that by (auto simp: record_nullifiers_get nullifiers_of_def counted_ballot_def split: option.splits)
  have set_it: "?held (?step (sid, res) ns)" if "(sid, res) \<in> set (co_acceptanceResults s)" "ac_accepted res" for res ns
    using that assms by (auto simp: record_nullifiers_get nullifiers_of_def counted_ballot_def)
  have "?held (fold ?step es ns)"
    if "set es \<subseteq> set (co_acceptanceResults s)" "?held ns \<or> (\<exists>res. (sid, res) \<in> set es \<and> ac_accepted res)" for es ns
    using that
  proof (induction es arbitrary: ns)
    case (Cons e es)
    obtain tid res where e: "e = (tid, res)" by (cases e)
    have "?held (?step e ns) \<or> (\<exists>res. (sid, res) \<in> set es \<and> ac_accepted res)"
      using Cons.prems keep set_it unfolding e by fastforce
    moreover have "set es \<subseteq> set (co_acceptanceResults s)" using Cons.prems(1) by simp
    ultimately show ?case using Cons.IH [of "?step e ns"] by (simp only: fold_simps comp_apply)
  qed simp
  moreover from assms(1) have "\<exists>res. (sid, res) \<in> set (js_entries (co_acceptanceResults s)) \<and> ac_accepted res"
    by (simp add: counted_ballot_def)
  ultimately show ?thesis unfolding restored_nullifiers_def by simp
qed

lemma counted_ballot_ledger:
  assumes "distinct (map fst (co_acceptanceResults s))"
  shows "counted_ballot s sid su \<longleftrightarrow> ledger_of s sid = Some su"
proof -
  have "(\<exists>res. (sid, res) \<in> set (co_acceptanceResults s) \<and> ac_accepted res) \<longleftrightarrow> accepted_submission s sid"
    unfolding accepted_submission_def map_of_eq_Some_iff [OF assms, symmetric]
    by (cases "obj_get (co_acceptanceResults s) sid") (simp_all del: map_of_eq_Some_iff)
  then show ?thesis by (simp add: counted_ballot_def ledger_of_def)
qed

text \<open>
  C20: a restored state still knows every spent nullifier: after \<open>restoreCoordinatorElectionState\<close> has
  merged the persisted and the canonical records, each nullifier of a counted ballot is recorded,
  and recorded for a counted ballot that uses it.
\<close>

theorem restored_nullifiers_complete:
  assumes "t = restoreCoordinatorElectionState h persisted requests issuances submissions results"
    and "distinct (map fst (co_acceptanceResults persisted))"
    and "ledger_of t sid = Some su" and "n \<in> nullifiers_of su"
  shows "\<exists>tid tu. obj_get (co_acceptedNullifiers t) n = Some tid \<and> ledger_of t tid = Some tu \<and> n \<in> nullifiers_of tu"
proof -
  define m where "m = merged_records h persisted requests issuances submissions results"
  have m: "co_acceptedNullifiers t = restored_nullifiers m"
    "co_acceptanceResults t = co_acceptanceResults m" "co_receivedSubmissions t = co_receivedSubmissions m"
    by (simp_all add: assms(1) restoreCoordinatorElectionState_def Let_def m_def)
  have res: "co_acceptanceResults m = obj_spread (co_acceptanceResults persisted)
      (case results of Some x \<Rightarrow> x | None \<Rightarrow> [])"
    by (simp add: m_def merged_records_def Let_def)
  have dist: "distinct (map fst (co_acceptanceResults m))"
    unfolding res using assms(2) by (rule distinct_obj_spread)
  have led: "ledger_of t = ledger_of m" using m(2,3) by (intro ledger_of_cong)
  show ?thesis
    using restored_nullifiers_held [of m sid su n] assms(3,4)
    by (simp add: led m(1) counted_ballot_ledger [OF dist])
qed

definition wiped_state :: coordinator_state where
  "wiped_state = (emptyCoordinatorState sample_summary ''0'')\<lparr>
     co_receivedSubmissions := [(''s1'', sample_ballot ''s1'' ''t1'' ''n1'')],
     co_acceptanceResults := [(''s1'', \<lparr>ac_electionId = ''e1'', ac_submissionId = ''s1'', ac_accepted = True,
        ac_reason = None, ac_decidedAt = ''8''\<rparr>)]\<rparr>"

lemma restored_nullifiers_complete_witness:
  "\<exists>tid. obj_get (co_acceptedNullifiers
     (restoreCoordinatorElectionState plain_host wiped_state None None None None)) ''n1'' = Some tid"
proof -
  have led: "ledger_of (restoreCoordinatorElectionState plain_host wiped_state None None None None) ''s1''
      = Some (sample_ballot ''s1'' ''t1'' ''n1'')" by code_simp
  have dist: "distinct (map fst (co_acceptanceResults wiped_state))" by (simp add: wiped_state_def)
  have n: "''n1'' \<in> nullifiers_of (sample_ballot ''s1'' ''t1'' ''n1'')"
    by (simp add: nullifiers_of_def submissionCredentialBundle_def sample_ballot_def)
  show ?thesis using restored_nullifiers_complete [OF refl dist led n] by blast
qed

end
