(* ===== verification/Runtime_Scopes.thy ===== *)
theory Runtime_Scopes
  imports Voter
begin

text \<open>
  Which credentials a voter asks for and when they are complete
  (\<open>web/src/questionnaireOptionARuntime.ts\<close>, lines 605 to 828).  This file of the source has its
  own \<open>ballotScopeKey\<close>, \<open>runtimeBallotScopeKey\<close> here; the section at the end shows on which
  scopes it agrees with the reducer's.
\<close>

definition runtimeBallotScopeKey :: "ballot_scope option \<Rightarrow> string" where
  "runtimeBallotScopeKey input =
     (let scope = (case input of Some s \<Rightarrow> s | None \<Rightarrow> empty_scope);
          questionId = trimmed_or_empty (sc_questionId scope);
          slotId = trimmed_or_empty (sc_slotId scope);
          ballotGroup = normaliseQuestionnaireBallotGroup (nullish (sc_ballotGroup scope));
          allowedScopes = filter (\<lambda>entry. entry \<noteq> ''0'')
            (normaliseQuestionnaireAllowedScopes (nullish (sc_allowedScopes scope)) ballotGroup);
          slotIndex = index_or 0 (sc_slotIndex scope);
          version = index_or 1 (sc_version scope);
          credentialIndex = index_or 1 (sc_credentialIndex scope);
          credentialSuffix = credential_suffix credentialIndex;
          scopePrefix = (if allowedScopes \<noteq> [] then ''scopes:'' @ js_join ''+'' allowedScopes @ '':'' else [])
      in if questionId = [] \<and> slotId = [] \<and> slotIndex = 0 \<and> version = 1 \<and> credentialIndex \<le> 1
            \<and> allowedScopes = [] then ''__questionnaire__''
         else if questionId = [] \<and> slotId = [] \<and> slotIndex = 0 \<and> version = 1 \<and> allowedScopes \<noteq> []
           then scopePrefix @ ''questionnaire'' @ credentialSuffix
         else if slotIndex > 0
           then scopePrefix @ ''slot:'' @ string_of_int slotIndex @ '':v'' @ string_of_int version @ credentialSuffix
         else scopePrefix @ (if questionId \<noteq> [] then questionId else slotId) @ '':'' @ slotId @ '':''
                @ string_of_int slotIndex @ '':v'' @ string_of_int version @ credentialSuffix)"

definition findIssuedBlindResponse :: "blind_issuance obj \<Rightarrow> blind_request \<Rightarrow> blind_issuance option" where
  "findIssuedBlindResponse issued request = coalesce (obj_get issued (rq_requestId request))
     (List.find (\<lambda>i. is_invitedNpub i = rq_invitedNpub request
         \<and> runtimeBallotScopeKey (issuance_scope i) = runtimeBallotScopeKey (request_scope request))
       (js_values issued))"

section \<open>Building scopes\<close>

definition scope_or_empty :: "ballot_scope option \<Rightarrow> ballot_scope" where
  "scope_or_empty scope = (case scope of Some s \<Rightarrow> s | None \<Rightarrow> empty_scope)"

definition withCredentialIndex :: "ballot_scope option \<Rightarrow> int \<Rightarrow> ballot_scope option" where
  "withCredentialIndex scope credentialIndex =
     (if max 1 credentialIndex \<le> 1 then scope
      else Some ((scope_or_empty scope)\<lparr>sc_credentialIndex := Present (num_int (max 1 credentialIndex))\<rparr>))"

definition ballotScopeCredentialIndex :: "ballot_scope option \<Rightarrow> int" where
  "ballotScopeCredentialIndex scope = index_or 1 (sc_credentialIndex (scope_or_empty scope))"

definition voterCredentialsPerVoter :: "questionnaire_definition option \<Rightarrow> int" where
  "voterCredentialsPerVoter definition = questionnaireCredentialsPerVoter definition"

definition voterBallotGroup :: "invite_message option \<Rightarrow> string option \<Rightarrow> string option" where
  "voterBallotGroup invite privateInviteBallotGroup = coalesce
     (normaliseQuestionnaireBallotGroup (Option.bind invite im_ballotGroup))
     (normaliseQuestionnaireBallotGroup privateInviteBallotGroup)"

definition voterUsesScopedBlindCredentials ::
  "invite_message option \<Rightarrow> string option \<Rightarrow> questionnaire_definition option \<Rightarrow> bool" where
  "voterUsesScopedBlindCredentials invite privateInviteBallotGroup definition =
     (questionnaireUsesPerQuestionCredentials definition
      \<or> voterCredentialsPerVoter definition > 1
      \<or> voterBallotGroup invite privateInviteBallotGroup \<noteq> None)"

definition ballotGroupScope :: "string option \<Rightarrow> ballot_scope option" where
  "ballotGroupScope ballotGroup = (case normaliseQuestionnaireBallotGroup ballotGroup of
     None \<Rightarrow> None
   | Some g \<Rightarrow> Some (empty_scope\<lparr>sc_allowedScopes :=
        Present (map JStr (allowedScopesForRequiredScope (Some g)))\<rparr>))"

definition withBallotGroupScope :: "ballot_scope option \<Rightarrow> string option \<Rightarrow> ballot_scope option" where
  "withBallotGroupScope scope ballotGroup = (case ballotGroupScope ballotGroup of
     None \<Rightarrow> scope
   | Some g \<Rightarrow> Some ((scope_or_empty scope)\<lparr>sc_allowedScopes := sc_allowedScopes g\<rparr>))"

definition voterShouldWaitForDefinitionBeforeBlindRequest ::
  "voter_state \<Rightarrow> election_summary option \<Rightarrow> questionnaire_definition option \<Rightarrow> bool" where
  "voterShouldWaitForDefinitionBeforeBlindRequest state summary cachedDefinition =
     (let invite = vs_inviteMessage state in
      if cachedDefinition \<noteq> None \<or> Option.bind invite im_definition \<noteq> None then False
      else if Option.bind invite im_definitionReference \<noteq> None
          \<and> voterUsesScopedBlindCredentials invite (vs_privateInviteBallotGroup state) cachedDefinition
        then True
      else if Option.bind summary es_protocolVersion = Some 2 then True
      else False)"

definition question_scope :: "question \<Rightarrow> nat \<Rightarrow> int \<Rightarrow> ballot_scope" where
  "question_scope q index credentialIndex =
     scope_of_credential (questionBallotCredentialScope q index (num_int credentialIndex))"

text \<open>The nested loops; \<open>seen\<close> holds the keys pushed so far.\<close>

fun push_new :: "string list \<Rightarrow> ballot_scope option list \<Rightarrow> ballot_scope option list" where
  "push_new seen [] = []"
| "push_new seen (scope # rest) =
     (if runtimeBallotScopeKey scope \<in> set seen then push_new seen rest
      else (case scope of None \<Rightarrow> [] | Some s \<Rightarrow> [Some s])
             @ push_new (runtimeBallotScopeKey scope # seen) rest)"

definition buildQuestionnaireCredentialScopes ::
  "questionnaire_definition option \<Rightarrow> int \<Rightarrow> string option \<Rightarrow> ballot_scope option list" where
  "buildQuestionnaireCredentialScopes definition credentialsPerVoter ballotGroup =
     (let credentialCount = normaliseQuestionnaireCredentialsPerVoter (Some (num_int credentialsPerVoter))
      in case definition of
        Some d \<Rightarrow>
          if questionnaireUsesPerQuestionCredentials (Some d) then
            push_new [] (concat (map (\<lambda>credentialIndex.
                map (\<lambda>(index, q). withBallotGroupScope (Some (question_scope q index credentialIndex)) ballotGroup)
                  (List.enumerate 0 (d_questions d)))
              [1..credentialCount]))
          else map (withCredentialIndex (ballotGroupScope ballotGroup)) [1..credentialCount]
      | None \<Rightarrow> map (withCredentialIndex (ballotGroupScope ballotGroup)) [1..credentialCount])"

definition reconcileVoterCredentialReadyForDefinition ::
  "voter_state \<Rightarrow> questionnaire_definition option \<Rightarrow> voter_state" where
  "reconcileVoterCredentialReadyForDefinition state definition =
     (let invite = vs_inviteMessage state; group = vs_privateInviteBallotGroup state;
          credentialReady =
            (if vs_blindBallotPlan state = None \<and> \<not> voterUsesScopedBlindCredentials invite group definition
             then vs_blindIssuance state \<noteq> None \<and> vs_blindTokenSecret state \<noteq> None
             else list_all (\<lambda>scope. let scopeKey = runtimeBallotScopeKey scope in
                    obj_get (vs_blindIssuances state) scopeKey \<noteq> None
                    \<and> obj_get (vs_blindTokenSecrets state) scopeKey \<noteq> None)
                  (case vs_blindBallotPlan state of
                     Some plan \<Rightarrow> bp_ballotScopes plan
                   | None \<Rightarrow> buildQuestionnaireCredentialScopes definition
                       (voterCredentialsPerVoter definition) (voterBallotGroup invite group)))
      in if vs_credentialReady state = credentialReady then state
         else state\<lparr>vs_credentialReady := credentialReady\<rparr>)"

definition voterHasTokenSecretForIssuance :: "voter_state \<Rightarrow> blind_issuance \<Rightarrow> bool" where
  "voterHasTokenSecretForIssuance state issuance =
     (let scopeKey = runtimeBallotScopeKey (issuance_scope issuance)
      in if answers_request issuance (obj_get (vs_blindRequests state) scopeKey)
            \<and> obj_get (vs_blindTokenSecrets state) scopeKey \<noteq> None then True
         else answers_request issuance (vs_blindRequest state) \<and> vs_blindTokenSecret state \<noteq> None)"

definition scopeForQuestion ::
  "questionnaire_definition option \<Rightarrow> string \<Rightarrow> int \<Rightarrow> string option \<Rightarrow> ballot_scope option" where
  "scopeForQuestion definition questionId credentialIndex ballotGroup = (case definition of
     None \<Rightarrow> withCredentialIndex (ballotGroupScope ballotGroup) credentialIndex
   | Some d \<Rightarrow>
       if \<not> questionnaireUsesPerQuestionCredentials (Some d)
       then withCredentialIndex (ballotGroupScope ballotGroup) credentialIndex
       else case findIndex (\<lambda>q. q_questionId q = questionId) (d_questions d) of
         None \<Rightarrow> None
       | Some index \<Rightarrow>
           (let targetKey = runtimeBallotScopeKey (Some (question_scope (d_questions d ! index) index 1));
                canonicalIndex = findIndex (\<lambda>(i, candidate).
                    runtimeBallotScopeKey (Some (question_scope candidate i 1)) = targetKey)
                  (List.enumerate 0 (d_questions d));
                used = (case canonicalIndex of Some i \<Rightarrow> i | None \<Rightarrow> index)
            in withBallotGroupScope (Some (question_scope (d_questions d ! used) used credentialIndex)) ballotGroup))"

section \<open>Where the two keys agree\<close>

text \<open>
  A scope whose only numbering is an explicit version 1: the reducer counts the version as present,
  the runtime does not.
\<close>

definition bare_version_one :: "ballot_scope \<Rightarrow> bool" where
  "bare_version_one s \<longleftrightarrow> trimmed_or_empty (sc_questionId s) = [] \<and> trimmed_or_empty (sc_slotId s) = []
     \<and> index_or 0 (sc_slotIndex s) = 0 \<and> index_or 0 (sc_version s) = 1"

lemma floor_at_least_pos: "floor_at_least 1 n \<noteq> 0" "0 \<le> floor_at_least 1 n"
  using floor_at_least_ge [of 1 n] by linarith+

lemma index_or_default: "index_or 1 f = (if index_or 0 f = 0 then 1 else index_or 0 f)"
  by (cases f) (simp_all add: index_or_def floor_at_least_pos)

lemma index_or_nonneg: "0 \<le> index_or 0 f"
  by (cases f) (simp_all add: index_or_def floor_at_least_pos)

lemma keys_agree: "\<not> bare_version_one s \<Longrightarrow> runtimeBallotScopeKey (Some s) = ballotScopeKey (Some s)"
  using index_or_nonneg [of "sc_version s"] index_or_nonneg [of "sc_slotIndex s"]
  by (auto simp: runtimeBallotScopeKey_def ballotScopeKey_def Let_def bare_version_one_def
      index_or_default [of "sc_version s"])

lemma keys_agree_None: "runtimeBallotScopeKey None = ballotScopeKey None"
  by code_simp

text \<open>Every scope that the runtime builds has the same key in both.\<close>

lemma push_new_subset: "set (push_new seen scopes) \<subseteq> set scopes"
  by (induction seen scopes rule: push_new.induct) (auto split: option.splits)

lemma push_new_distinct:
  "distinct (map runtimeBallotScopeKey (push_new seen scopes))
     \<and> set (map runtimeBallotScopeKey (push_new seen scopes)) \<inter> set seen = {}"
  by (induction seen scopes rule: push_new.induct) (auto split: option.split)

lemma question_scope_not_bare: "\<not> bare_version_one (question_scope q i c)"
  using normaliseQuestionBallotSlot_bounds(1) [of q i]
  by (auto simp: bare_version_one_def question_scope_def scope_of_credential_def
      questionBallotCredentialScope_def Let_def index_or_def)

lemma withBallotGroupScope_not_bare:
  "\<not> bare_version_one s \<Longrightarrow> \<exists>t. withBallotGroupScope (Some s) g = Some t \<and> \<not> bare_version_one t"
  by (auto simp: withBallotGroupScope_def bare_version_one_def scope_or_empty_def split: option.splits)

lemma group_scope_key_agrees:
  "runtimeBallotScopeKey (withCredentialIndex (ballotGroupScope g) i)
     = ballotScopeKey (withCredentialIndex (ballotGroupScope g) i)"
proof -
  have unversioned: "\<not> bare_version_one s" if "sc_version s = Undefined" for s
    using that by (simp add: bare_version_one_def index_or_def)
  show ?thesis
  proof (cases "withCredentialIndex (ballotGroupScope g) i")
    case None
    then show ?thesis by (simp add: keys_agree_None)
  next
    case (Some s)
    then have "sc_version s = Undefined"
      by (auto simp: withCredentialIndex_def ballotGroupScope_def scope_or_empty_def empty_scope_def
          split: if_splits option.splits)
    with Some show ?thesis by (simp add: keys_agree unversioned)
  qed
qed

lemma built_scope_keys_agree:
  assumes "scope \<in> set (buildQuestionnaireCredentialScopes definition n g)"
  shows "runtimeBallotScopeKey scope = ballotScopeKey scope"
proof (cases "questionnaireUsesPerQuestionCredentials definition")
  case True
  then obtain d where d: "definition = Some d" "questionnaireUsesPerQuestionCredentials (Some d)"
    by (cases "definition") (simp_all add: questionnaireUsesPerQuestionCredentials_def)
  obtain q i c where "scope = withBallotGroupScope (Some (question_scope q i c)) g"
    using assms d set_mp [OF push_new_subset]
    by (fastforce simp: buildQuestionnaireCredentialScopes_def Let_def)
  then show ?thesis
    using withBallotGroupScope_not_bare [OF question_scope_not_bare, of q i c g] keys_agree by auto
next
  case False
  with assms obtain i where "scope = withCredentialIndex (ballotGroupScope g) i"
    by (cases "definition")
       (auto simp: buildQuestionnaireCredentialScopes_def questionnaireUsesPerQuestionCredentials_def Let_def)
  then show ?thesis using group_scope_key_agrees by simp
qed

lemma built_scope_keys_distinct:
  assumes "questionnaireUsesPerQuestionCredentials (Some d)"
  shows "distinct (map runtimeBallotScopeKey (buildQuestionnaireCredentialScopes (Some d) n g))"
  using assms push_new_distinct by (simp add: buildQuestionnaireCredentialScopes_def Let_def)

end
