(* ===== verification/Credential_Properties.thy ===== *)
theory Credential_Properties
  imports Runtime_Scopes Intake Samples
begin

text \<open>
  The properties of credentials: the keys that name a ballot scope, the text that a blind token signs,
  and the forms in which answers and decisions travel.
\<close>

section \<open>Keys of ballot scopes\<close>

text \<open>
  A credential opens its own question: the scope of the credential issued for a question has,
  for every question, position and credential number, the key under which the ballot for that
  question is looked up.
\<close>

lemma credential_scope_key:
  "ballotScopeKey (Some (scope_of_credential (questionBallotCredentialScope q i c))) = questionBallotScopeKey q i c"
  by (rule ballotScopeKey_credential)

text \<open>
  Sanitising a scope changes nothing that is signed or looked up: it is idempotent, and keeps the
  key of the scope, the signed message and the nullifier.
\<close>

lemma sanitised_scope_same_credential:
  "sanitiseBallotScope (sanitiseBallotScope s) = sanitiseBallotScope s
   \<and> ballotScopeKey (sanitiseBallotScope s) = ballotScopeKey s
   \<and> buildQuestionnaireBlindTokenSignedMessage h q c (sanitiseBallotScope s)
       = buildQuestionnaireBlindTokenSignedMessage h q c s
   \<and> deriveQuestionnaireTokenNullifier h q t (sanitiseBallotScope s) = deriveQuestionnaireTokenNullifier h q t s"
  by (simp add: buildQuestionnaireBlindTokenSignedMessage_def signed_message_value_def
      deriveQuestionnaireTokenNullifier_def nullifier_value_def)

text \<open>
  C30: the runtime and the reducer agree on every scope that the runtime builds for a questionnaire
  with one credential per question: both name it by the same key, and no two of the scopes have one key.
\<close>

theorem built_scopes_agree_and_differ:
  assumes "questionnaireUsesPerQuestionCredentials (Some d)"
  shows "map runtimeBallotScopeKey (buildQuestionnaireCredentialScopes (Some d) n g)
       = map ballotScopeKey (buildQuestionnaireCredentialScopes (Some d) n g)
     \<and> distinct (map ballotScopeKey (buildQuestionnaireCredentialScopes (Some d) n g))"
proof -
  have same: "map runtimeBallotScopeKey (buildQuestionnaireCredentialScopes (Some d) n g)
      = map ballotScopeKey (buildQuestionnaireCredentialScopes (Some d) n g)"
    by (simp add: built_scope_keys_agree)
  with built_scope_keys_distinct [OF assms, of n g] show ?thesis by simp
qed

definition per_question_definition :: questionnaire_definition where
  "per_question_definition = sample_definition\<lparr>d_ballotCredentialMode := Some ''per_question''\<rparr>"

lemma built_scopes_agree_and_differ_witness:
  "length (buildQuestionnaireCredentialScopes (Some per_question_definition) 2 None) = 4
   \<and> distinct (map ballotScopeKey (buildQuestionnaireCredentialScopes (Some per_question_definition) 2 None))"
proof -
  have "questionnaireUsesPerQuestionCredentials (Some per_question_definition)" by code_simp
  moreover have "length (buildQuestionnaireCredentialScopes (Some per_question_definition) 2 None) = 4"
    by code_simp
  ultimately show ?thesis using built_scopes_agree_and_differ by blast
qed

text \<open>
  The two functions named \<open>ballotScopeKey\<close> are not the same: a scope that carries nothing but
  version 1 is the whole questionnaire to the runtime and a scope of its own to the reducer.
\<close>

lemma scope_keys_differ_on_bare_version:
  "runtimeBallotScopeKey (Some (empty_scope\<lparr>sc_version := Present (num_int 1)\<rparr>)) = ''__questionnaire__''
   \<and> ballotScopeKey (Some (empty_scope\<lparr>sc_version := Present (num_int 1)\<rparr>)) = ''::0:v1''"
  by code_simp

section \<open>What a blind token signs\<close>

text \<open>
  C31: the signed message always exists and determines what it is about: for one scope, two messages
  are equal only for the same questionnaire and the same token commitment.
\<close>

theorem signed_message_binds:
  "buildQuestionnaireBlindTokenSignedMessage h q c s \<noteq> None
   \<and> (buildQuestionnaireBlindTokenSignedMessage h q c s = buildQuestionnaireBlindTokenSignedMessage h q' c' s
      \<longleftrightarrow> q = q' \<and> c = c')"
  using signed_message_exists signed_message_inject by blast

text \<open>
  Canonical JSON does not depend on the order in which an object lists its properties, at any
  host.
\<close>

lemma canonical_json_order_independent:
  assumes "distinct (map fst es)" and "distinct (map fst es')" and "set es = set es'"
  shows "canonicalJsonStringify h (JObj es) = canonicalJsonStringify h (JObj es')"
  using assms by (rule canonicalJsonStringify_order)

lemma canonical_json_order_independent_witness:
  "canonicalJsonStringify plain_host (JObj [(''b'', JNull), (''a'', JBool True)])
     = canonicalJsonStringify plain_host (JObj [(''a'', JBool True), (''b'', JNull)])
   \<and> canonicalJsonStringify plain_host (JObj [(''b'', JNull), (''a'', JBool True)])
     = Some (''{'' @ json_string ''a'' @ '':true,'' @ json_string ''b'' @ '':null}'')"
proof
  show "canonicalJsonStringify plain_host (JObj [(''b'', JNull), (''a'', JBool True)])
     = canonicalJsonStringify plain_host (JObj [(''a'', JBool True), (''b'', JNull)])"
    by (rule canonical_json_order_independent) auto
qed code_simp

section \<open>Answers, decisions and phases\<close>




text \<open>
  A closed election stays closed: no published summary that reaches the coordinator reopens an
  election that is closed or counted, and none changes its identifier.
\<close>

lemma summary_never_reopens:
  assumes "es_state election \<in> {Closed, Counted}"
  shows "es_state (mergeElectionSummaryIntoCoordinatorElection election summary) \<in> {Closed, Counted}
     \<and> es_electionId (mergeElectionSummaryIntoCoordinatorElection election summary) = es_electionId election"
  using assms
  by (auto simp: mergeElectionSummaryIntoCoordinatorElection_def merged_phase_def split: option.splits)

lemma summary_never_reopens_witness:
  "es_state (mergeElectionSummaryIntoCoordinatorElection (sample_summary\<lparr>es_state := Counted\<rparr>)
     (Some \<lparr>sp_title = Some ''New'', sp_description = None, sp_state = Some Open, sp_openedAt = None,
        sp_closedAt = None, sp_protocolVersion = None, sp_flowMode = None, sp_responseMode = None,
        sp_blindSigningPublicKey = None, sp_definitionCreatedAt = None, sp_questionnaireRelays = None,
        sp_issueBlindTokensWorker = None\<rparr>)) \<in> {Closed, Counted}"
proof -
  have "es_state (sample_summary\<lparr>es_state := Counted\<rparr>) \<in> {Closed, Counted}" by simp
  then show ?thesis using summary_never_reopens by blast
qed

end
