(* ===== verification/Tally.thy ===== *)
theory Tally
  imports Response_Check Blind_Token
begin

text \<open>
  Reading the responses and counting them (\<open>web/src/questionnaireRuntime.ts\<close>, with the envelope
  parser and decryption of \<open>web/src/questionnaireNostr.ts\<close>, lines 463 to 504).  The content of an
  event is the value that \<open>JSON.parse\<close> yields at its declared type, or \<open>None\<close> when it throws.
  NIP-44 decryption (package \<open>nostr-tools\<close>) and the parsing of the decrypted text are the record
  \<open>response_codec\<close>.
\<close>

section \<open>Labels and the effective state\<close>

definition formatQuestionnaireStateLabel :: "string option \<Rightarrow> string" where
  "formatQuestionnaireStateLabel state =
     (if state = Some ''closed_by_audit_proxy'' then ''Closed by audit proxy''
      else if state = Some ''draft'' then ''Draft''
      else if state = Some ''open'' then ''Open''
      else if state = Some ''closed'' then ''Closed''
      else if state = Some ''results_published'' then ''Results published''
      else ''None'')"

fun state_text :: "state_value \<Rightarrow> string" where
  "state_text StDraft = ''draft''"
| "state_text StOpen = ''open''"
| "state_text StClosed = ''closed''"
| "state_text StResultsPublished = ''results_published''"

definition formatQuestionnaireStateEventLabel :: "state_event option \<Rightarrow> string" where
  "formatQuestionnaireStateEventLabel state = (case state of
     Some e \<Rightarrow> if se_state e = StClosed \<and> se_closedBy e = Some ''audit_proxy'' then ''Closed by audit proxy''
               else formatQuestionnaireStateLabel (Some (state_text (se_state e)))
   | None \<Rightarrow> formatQuestionnaireStateLabel None)"

definition formatQuestionnaireTokenStatusLabel :: "string \<Rightarrow> string" where
  "formatQuestionnaireTokenStatusLabel status =
     (if status = ''token_ready'' then ''Token ready''
      else if status = ''response_submitted'' then ''Response submitted''
      else if status = ''duplicate_nullifier'' then ''Duplicate response token''
      else if status = ''invalid_token_proof'' then ''Invalid response token''
      else status)"

definition deriveEffectiveQuestionnaireState ::
  "questionnaire_definition option \<Rightarrow> state_event option \<Rightarrow> jsnum \<Rightarrow> state_value option" where
  "deriveEffectiveQuestionnaireState definition latestState now = (case latestState of
     Some e \<Rightarrow> Some (se_state e)
   | None \<Rightarrow> (case definition of
       None \<Rightarrow> None
     | Some d \<Rightarrow> if num_lt now (d_openAt d) then Some StDraft
         else if num_le (d_closeAt d) now then Some StClosed else Some StOpen))"

section \<open>Events and envelopes\<close>

record raw_envelope =
  rw_eventType :: string
  rw_ciphertextScheme :: string
  rw_envelope :: response_envelope

record response_event =
  ev_id :: string
  ev_kind :: int
  ev_pubkey :: string
  ev_created_at :: int
  ev_content :: "raw_envelope option"

definition QUESTIONNAIRE_RESPONSE_PRIVATE_KIND :: int where
  "QUESTIONNAIRE_RESPONSE_PRIVATE_KIND = 6422"

definition sortByCreatedAtAsc :: "response_event list \<Rightarrow> response_event list" where
  "sortByCreatedAtAsc events = js_sort (\<lambda>l r. ev_created_at l - ev_created_at r) events"

definition sortByCreatedAtDesc :: "('a \<Rightarrow> int) \<Rightarrow> 'a list \<Rightarrow> 'a list" where
  "sortByCreatedAtDesc created events = js_sort (\<lambda>l r. created r - created l) events"

text \<open>The loop shared by the three \<open>selectLatest\<close> functions, over the parser of the event kind.\<close>

fun first_parsed :: "('a \<Rightarrow> 'b option) \<Rightarrow> 'a list \<Rightarrow> 'b option" where
  "first_parsed parse [] = None"
| "first_parsed parse (e # es) = (case parse e of Some v \<Rightarrow> Some v | None \<Rightarrow> first_parsed parse es)"

definition select_latest :: "('a \<Rightarrow> int) \<Rightarrow> ('a \<Rightarrow> 'b option) \<Rightarrow> 'a list \<Rightarrow> 'b option" where
  "select_latest created parse events = first_parsed parse (sortByCreatedAtDesc created events)"

definition parseQuestionnaireResponseEnvelope :: "response_event \<Rightarrow> response_envelope option" where
  "parseQuestionnaireResponseEnvelope event =
     (if ev_kind event \<noteq> QUESTIONNAIRE_RESPONSE_PRIVATE_KIND then None
      else case ev_content event of None \<Rightarrow> None
      | Some raw \<Rightarrow> (let envelope = rw_envelope raw in
          if rw_eventType raw \<noteq> ''questionnaire_response_private''
             \<or> rw_ciphertextScheme raw \<noteq> ''nip44v2''
             \<or> re_questionnaireId envelope = [] \<or> \<not> truthy (re_responseId envelope)
             \<or> re_ciphertext envelope = [] \<or> re_payloadHash envelope = []
          then None else Some envelope))"

text \<open>Decryption of a ciphertext from a sender and parsing of the plaintext; \<open>Inl\<close> is a thrown message.\<close>

record response_codec =
  cd_decrypt :: "string \<Rightarrow> string \<Rightarrow> string \<Rightarrow> string + string"
  cd_parse :: "string \<Rightarrow> string + response_payload"

definition decryptQuestionnaireResponseEnvelope ::
  "host \<Rightarrow> response_codec \<Rightarrow> string \<Rightarrow> response_event \<Rightarrow> string + (response_envelope \<times> response_payload) option" where
  "decryptQuestionnaireResponseEnvelope h c coordinatorNsec event =
     (case parseQuestionnaireResponseEnvelope event of None \<Rightarrow> Inr None
      | Some envelope \<Rightarrow>
          (case cd_decrypt c coordinatorNsec (ev_pubkey event) (re_ciphertext envelope) of
             Inl message \<Rightarrow> Inl message
           | Inr plaintext \<Rightarrow>
               if host_sha256 h plaintext \<noteq> re_payloadHash envelope
               then Inl ''Questionnaire response payload hash mismatch.''
               else (case cd_parse c plaintext of Inl message \<Rightarrow> Inl message
                     | Inr payload \<Rightarrow> Inr (Some (envelope, payload)))))"

section \<open>Accepting and rejecting responses\<close>

datatype rejected_reason =
    Rquestionnaire_closed | Runknown_question_id | Rmissing_required_answer | Rinvalid_option_id
  | Rfree_text_too_long | Rduplicate_response | Rdecryption_failed | Rinvalid_payload_shape

record accepted_response =
  ar_eventId :: string
  ar_authorPubkey :: string
  ar_envelope :: response_envelope
  ar_payload :: response_payload

record rejected_response =
  rr_eventId :: string
  rr_authorPubkey :: string
  rr_responseId :: "string option"
  rr_reason :: rejected_reason
  rr_detail :: "string option"

definition toRejectedReason :: "string \<Rightarrow> rejected_reason" where
  "toRejectedReason errorCode =
     (if js_starts_with errorCode ''questionnaire_closed'' then Rquestionnaire_closed
      else if js_starts_with errorCode ''unknown_question_id'' then Runknown_question_id
      else if js_starts_with errorCode ''missing_required_answer'' then Rmissing_required_answer
      else if js_starts_with errorCode ''rank_selection_count'' then Rmissing_required_answer
      else if js_starts_with errorCode ''invalid_option_id'' then Rinvalid_option_id
      else if js_starts_with errorCode ''free_text_too_long'' then Rfree_text_too_long
      else Rinvalid_payload_shape)"

text \<open>What the loop body makes of one event, given the authors accepted so far.\<close>

definition classify_response ::
  "host \<Rightarrow> response_codec \<Rightarrow> string \<Rightarrow> questionnaire_definition \<Rightarrow> string list \<Rightarrow> response_event
     \<Rightarrow> circular_dependency + (rejected_response + accepted_response)" where
  "classify_response h c coordinatorNsec d acceptedByAuthor event =
     (let rejected = (\<lambda>author responseId reason detail. Inr (Inl \<lparr>rr_eventId = ev_id event,
            rr_authorPubkey = author, rr_responseId = responseId, rr_reason = reason, rr_detail = detail\<rparr>))
      in case parseQuestionnaireResponseEnvelope event of
        None \<Rightarrow> rejected [] None Rinvalid_payload_shape None
      | Some parsedEnvelope \<Rightarrow>
         (let responseId = re_responseId parsedEnvelope in
          case decryptQuestionnaireResponseEnvelope h c coordinatorNsec event of
            Inl message \<Rightarrow> rejected (re_authorPubkey parsedEnvelope) responseId Rdecryption_failed (Some message)
          | Inr None \<Rightarrow> rejected (re_authorPubkey parsedEnvelope) responseId Rdecryption_failed None
          | Inr (Some (envelope, payload)) \<Rightarrow>
             (let authorPubkey = re_authorPubkey envelope in
              if authorPubkey \<in> set acceptedByAuthor \<and> \<not> d_allowMultipleResponsesPerPubkey d
              then rejected authorPubkey responseId Rduplicate_response None
              else if num_lt (rp_submittedAt payload) (d_openAt d) \<or> num_lt (d_closeAt d) (rp_submittedAt payload)
              then rejected authorPubkey responseId Rquestionnaire_closed None
              else case validateQuestionnaireResponsePayload h d payload of
                Inl e \<Rightarrow> Inl e
              | Inr validation \<Rightarrow>
                  if \<not> vr_valid validation
                  then (let primaryError = (case vr_errors validation of
                              e # _ \<Rightarrow> e | [] \<Rightarrow> ''invalid_payload_shape'')
                        in rejected authorPubkey responseId (toRejectedReason primaryError) (Some primaryError))
                  else Inr (Inr \<lparr>ar_eventId = ev_id event, ar_authorPubkey = authorPubkey,
                          ar_envelope = envelope, ar_payload = payload\<rparr>))))"

fun process_events ::
  "host \<Rightarrow> response_codec \<Rightarrow> string \<Rightarrow> questionnaire_definition \<Rightarrow> string list \<Rightarrow> response_event list
     \<Rightarrow> circular_dependency + (accepted_response list \<times> rejected_response list)" where
  "process_events h c coordinatorNsec d acceptedByAuthor [] = Inr ([], [])"
| "process_events h c coordinatorNsec d acceptedByAuthor (event # events) =
     (case classify_response h c coordinatorNsec d acceptedByAuthor event of
        Inl e \<Rightarrow> Inl e
      | Inr (Inl rejected) \<Rightarrow>
          (case process_events h c coordinatorNsec d acceptedByAuthor events of
             Inl e \<Rightarrow> Inl e | Inr (acc, rej) \<Rightarrow> Inr (acc, rejected # rej))
      | Inr (Inr accepted) \<Rightarrow>
          (case process_events h c coordinatorNsec d (ar_authorPubkey accepted # acceptedByAuthor) events of
             Inl e \<Rightarrow> Inl e | Inr (acc, rej) \<Rightarrow> Inr (accepted # acc, rej)))"

definition processQuestionnaireResponses ::
  "host \<Rightarrow> response_codec \<Rightarrow> response_event list \<Rightarrow> questionnaire_definition \<Rightarrow> string
     \<Rightarrow> circular_dependency + (accepted_response list \<times> rejected_response list)" where
  "processQuestionnaireResponses h c responseEvents d coordinatorNsec =
     process_events h c coordinatorNsec d [] (sortByCreatedAtAsc responseEvents)"

section \<open>The summary\<close>

definition answer_to :: "question \<Rightarrow> accepted_response \<Rightarrow> answer_body option" where
  "answer_to q response = map_option ra_body
     (List.find (\<lambda>entry. ra_questionId entry = q_questionId q) (rp_answers (ar_payload response)))"

definition js_truthy :: "jsval \<Rightarrow> bool" where
  "js_truthy v = (case v of JUndefined \<Rightarrow> False | JNull \<Rightarrow> False | JBool b \<Rightarrow> b
     | JNum n \<Rightarrow> n \<noteq> num_int 0 \<and> n \<noteq> NaN | JStr s \<Rightarrow> s \<noteq> [] | _ \<Rightarrow> True)"

definition get_or :: "'v \<Rightarrow> 'v obj \<Rightarrow> string \<Rightarrow> 'v" where
  "get_or d ob k = (case obj_get ob k of Some v \<Rightarrow> v | None \<Rightarrow> d)"

definition bump :: "string \<Rightarrow> nat obj \<Rightarrow> nat obj" where
  "bump k counts = obj_set k (Suc (get_or 0 counts k)) counts"

fun count_yes_no :: "question \<Rightarrow> accepted_response list \<Rightarrow> nat \<times> nat" where
  "count_yes_no q [] = (0, 0)"
| "count_yes_no q (response # rest) =
     (let (yes, no) = count_yes_no q rest in
      case answer_to q response of
        None \<Rightarrow> (yes, no)
      | Some answer \<Rightarrow>
          if ab_answerType answer \<noteq> ''yes_no'' then (yes, no)
          else if js_truthy (ab_value answer) then (Suc yes, no) else (yes, Suc no))"

definition count_choices :: "host \<Rightarrow> question \<Rightarrow> accepted_response \<Rightarrow> nat obj \<Rightarrow> nat obj" where
  "count_choices h q response optionCounts = (case answer_to q response of
     None \<Rightarrow> optionCounts
   | Some answer \<Rightarrow>
       if ab_answerType answer \<noteq> ''multiple_choice'' then optionCounts
       else fold (\<lambda>optionId counts. if obj_get counts optionId \<noteq> None then bump optionId counts else counts)
              (map (js_String h) (array_or_empty (ab_selectedOptionIds answer))) optionCounts)"

definition ranked_by :: "question \<Rightarrow> choice_option list \<Rightarrow> accepted_response \<Rightarrow> string list" where
  "ranked_by q options response = (case answer_to q response of
     None \<Rightarrow> []
   | Some answer \<Rightarrow> if ab_answerType answer = ''rank''
       then normaliseRankedOptionIds options (ab_rankedOptionIds answer) else [])"

definition add_score :: "string \<times> int \<Rightarrow> int obj \<times> nat obj obj \<Rightarrow> int obj \<times> nat obj obj" where
  "add_score entry tallies = (case (entry, tallies) of ((optionId, score), (optionScores, rankCounts)) \<Rightarrow>
     (obj_set optionId (get_or 0 optionScores optionId + score) optionScores,
      obj_set optionId (bump (string_of_int score) (get_or [] rankCounts optionId)) rankCounts))"

definition count_ranks ::
  "question \<Rightarrow> choice_option list \<Rightarrow> accepted_response \<Rightarrow> int obj \<times> nat obj obj \<Rightarrow> int obj \<times> nat obj obj" where
  "count_ranks q options response =
     fold add_score (js_entries (calculateRankQuestionScores options (jstrings (ranked_by q options response))))"

definition summarise_question :: "host \<Rightarrow> accepted_response list \<Rightarrow> question \<Rightarrow> question_summary" where
  "summarise_question h responses q = (case q_kind q of
     YesNo \<Rightarrow> (let (yes, no) = count_yes_no q responses in YesNoSummary (q_questionId q) yes no)
   | MultipleChoice _ options \<Rightarrow> MultipleChoiceSummary (q_questionId q)
       (fold (count_choices h q) responses (from_entries (map (\<lambda>opt. (co_optionId opt, 0)) options)))
   | Rank options _ \<Rightarrow>
       (let (optionScores, rankCounts) = fold (count_ranks q options) responses
              (from_entries (map (\<lambda>opt. (co_optionId opt, 0)) options),
               from_entries (map (\<lambda>opt. (co_optionId opt, [])) options))
        in RankSummary (q_questionId q) optionScores rankCounts (length responses)
             (length (filter (\<lambda>response. ranked_by q options response = []) responses)))
   | FreeText _ _ \<Rightarrow> FreeTextSummary (q_questionId q)
       (length (filter (\<lambda>response. case answer_to q response of
            Some answer \<Rightarrow> ab_answerType answer = ''free_text''
              \<and> (case ab_text answer of JStr s \<Rightarrow> js_trim s \<noteq> [] | _ \<Rightarrow> False)
          | None \<Rightarrow> False) responses)))"

definition buildQuestionnaireResultSummary ::
  "host \<Rightarrow> int \<Rightarrow> questionnaire_definition \<Rightarrow> string \<Rightarrow> accepted_response list \<Rightarrow> rejected_response list
     \<Rightarrow> result_summary" where
  "buildQuestionnaireResultSummary h nowMs d coordinatorPubkey accepted rejected =
     (let questionSummaries = map (summarise_question h accepted) (d_questions d);
          acceptedResponseCount = length accepted;
          rejectedResponseCount = length rejected;
          acceptedNullifierCount = acceptedResponseCount
      in \<lparr>rs_questionnaireId = d_questionnaireId d, rs_createdAt = nowMs div 1000,
          rs_coordinatorPubkey = coordinatorPubkey, rs_acceptedResponseCount = acceptedResponseCount,
          rs_rejectedResponseCount = rejectedResponseCount,
          rs_acceptedNullifierCount = acceptedNullifierCount,
          rs_questionSummaries = questionSummaries,
          rs_resultHash = (case deriveQuestionnaireResultHash h (d_questionnaireId d) acceptedResponseCount
             rejectedResponseCount acceptedNullifierCount questionSummaries of Some x \<Rightarrow> x | None \<Rightarrow> [])\<rparr>)"

section \<open>Facts about the loop\<close>

lemma set_js_sort_length: "length (sortByCreatedAtAsc es) = length es"
  by (simp add: sortByCreatedAtAsc_def)

lemma process_events_count:
  "process_events h c n d au es = Inr (acc, rej) \<Longrightarrow> length acc + length rej = length es"
proof (induction es arbitrary: au acc rej)
  case (Cons e es)
  then show ?case
    by (fastforce split: sum.splits prod.splits)
qed simp

text \<open>Every accepted response was decrypted from its event, is inside the window and valid.\<close>

definition accepted_properly ::
  "host \<Rightarrow> response_codec \<Rightarrow> string \<Rightarrow> questionnaire_definition \<Rightarrow> response_event \<Rightarrow> accepted_response \<Rightarrow> bool" where
  "accepted_properly h c n d e a \<longleftrightarrow>
     ar_eventId a = ev_id e \<and> ar_authorPubkey a = re_authorPubkey (ar_envelope a)
     \<and> decryptQuestionnaireResponseEnvelope h c n e = Inr (Some (ar_envelope a, ar_payload a))
     \<and> \<not> num_lt (rp_submittedAt (ar_payload a)) (d_openAt d)
     \<and> \<not> num_lt (d_closeAt d) (rp_submittedAt (ar_payload a))
     \<and> (\<exists>v. validateQuestionnaireResponsePayload h d (ar_payload a) = Inr v \<and> vr_valid v)"

lemma classify_accepted:
  assumes "classify_response h c n d au e = Inr (Inr a)"
  shows "accepted_properly h c n d e a"
    and "ar_authorPubkey a \<in> set au \<Longrightarrow> d_allowMultipleResponsesPerPubkey d"
  using assms
  by (auto simp: classify_response_def accepted_properly_def Let_def split: option.splits sum.splits if_splits)

lemma process_events_accepted:
  "process_events h c n d au es = Inr (acc, rej) \<Longrightarrow> a \<in> set acc \<Longrightarrow> \<exists>e\<in>set es. accepted_properly h c n d e a"
proof (induction es arbitrary: au acc rej)
  case (Cons e es)
  show ?case
  proof (cases "classify_response h c n d au e")
    case (Inr r)
    show ?thesis
    proof (cases r)
      case (Inl x)
      with Inr Cons show ?thesis by (fastforce split: sum.splits prod.splits)
    next
      case r: (Inr x)
      with Inr Cons.prems obtain acc' where rest: "process_events h c n d (ar_authorPubkey x # au) es = Inr (acc', rej)"
        and acc: "acc = x # acc'" by (auto split: sum.splits prod.splits)
      from Cons.prems(2) acc consider "a = x" | "a \<in> set acc'" by auto
      then show ?thesis
      proof cases
        case 1
        with classify_accepted(1) [of h c n d au e x] Inr r show ?thesis by auto
      next
        case 2
        with Cons.IH [OF rest] show ?thesis by auto
      qed
    qed
  qed (use Cons.prems in auto)
qed simp

lemma process_events_authors:
  "process_events h c n d au es = Inr (acc, rej) \<Longrightarrow> \<not> d_allowMultipleResponsesPerPubkey d \<Longrightarrow>
     distinct (map ar_authorPubkey acc) \<and> set (map ar_authorPubkey acc) \<inter> set au = {}"
proof (induction es arbitrary: au acc rej)
  case (Cons e es)
  show ?case
  proof (cases "classify_response h c n d au e")
    case (Inr r)
    show ?thesis
    proof (cases r)
      case (Inl x)
      with Inr Cons.prems obtain rej' where "process_events h c n d au es = Inr (acc, rej')"
        by (auto split: sum.splits prod.splits)
      with Cons.IH Cons.prems(2) show ?thesis by blast
    next
      case r: (Inr x)
      with Inr Cons.prems obtain acc' where rest: "process_events h c n d (ar_authorPubkey x # au) es = Inr (acc', rej)"
        and acc: "acc = x # acc'" by (auto split: sum.splits prod.splits)
      have "ar_authorPubkey x \<notin> set au"
        using classify_accepted(2) [of h c n d au e x] Inr r Cons.prems(2) by auto
      with Cons.IH [OF rest Cons.prems(2)] acc show ?thesis by auto
    qed
  qed (use Cons.prems in auto)
qed simp

lemma process_events_total:
  assumes "vr_valid (validateQuestionnaireDefinition h d)"
  shows "\<exists>acc rej. process_events h c n d au es = Inr (acc, rej)"
proof (induction es arbitrary: au)
  case (Cons e es)
  have "\<exists>r. classify_response h c n d au e = Inr r"
  proof -
    have no_throw: "validateQuestionnaireResponsePayload h d p \<noteq> Inl x" for p x
      using validate_payload_result [OF assms, of p] by auto
    then show ?thesis
      by (auto simp: classify_response_def Let_def no_throw split: option.splits sum.splits)
  qed
  then obtain r where "classify_response h c n d au e = Inr r" by blast
  then show ?case
  proof (cases r)
    case (Inl x)
    obtain acc rej where "process_events h c n d au es = Inr (acc, rej)" using Cons.IH [of au] by blast
    with \<open>classify_response h c n d au e = Inr r\<close> Inl show ?thesis by simp
  next
    case (Inr x)
    obtain acc rej where "process_events h c n d (ar_authorPubkey x # au) es = Inr (acc, rej)"
      using Cons.IH [of "ar_authorPubkey x # au"] by blast
    with \<open>classify_response h c n d au e = Inr r\<close> Inr show ?thesis by simp
  qed
qed simp

section \<open>Facts about the counts\<close>

lemma count_yes_no_total:
  "fst (count_yes_no q rs) + snd (count_yes_no q rs)
     = length (filter (\<lambda>r. \<exists>a. answer_to q r = Some a \<and> ab_answerType a = ''yes_no'') rs)"
  by (induction rs) (auto simp: Let_def split: option.splits prod.splits)

lemma dom_count_choices: "dom (obj_get (count_choices h q r counts)) = dom (obj_get counts)"
proof -
  have "dom (obj_get (fold (\<lambda>x c. if obj_get c x \<noteq> None then bump x c else c) xs counts)) = dom (obj_get counts)"
    for xs :: "string list" and counts :: "nat obj"
    by (induction xs arbitrary: counts) (auto simp: bump_def dom_def)
  then show ?thesis by (auto simp: count_choices_def split: option.splits)
qed

text \<open>
  Ranks: every response gives every option exactly one score, so the counts of an option add up to
  the number of responses, and its score is the sum of what the responses give it.
\<close>

definition total :: "nat obj \<Rightarrow> nat" where
  "total counts = sum_list (map snd counts)"

definition response_score :: "question \<Rightarrow> choice_option list \<Rightarrow> accepted_response \<Rightarrow> string \<Rightarrow> int" where
  "response_score q options r optionId =
     get_or 0 (calculateRankQuestionScores options (jstrings (ranked_by q options r))) optionId"

lemma total_bump: "total (bump k counts) = Suc (total counts)"
proof -
  have "total (AList.update k (Suc (get_or 0 counts k)) counts) = Suc (total counts)"
    by (induction counts) (auto simp: total_def get_or_def)
  then show ?thesis by (simp add: bump_def)
qed

lemma fold_add_score:
  "distinct (map fst es) \<Longrightarrow>
     get_or 0 (fst (fold add_score es (sc, rc))) x
       = get_or 0 sc x + (case map_of es x of Some s \<Rightarrow> s | None \<Rightarrow> 0)
     \<and> get_or [] (snd (fold add_score es (sc, rc))) x
       = (case map_of es x of Some s \<Rightarrow> bump (string_of_int s) (get_or [] rc x) | None \<Rightarrow> get_or [] rc x)"
proof (induction es arbitrary: sc rc)
  case (Cons e es)
  obtain k s where e: "e = (k, s)" by (cases e)
  with Cons.prems have "map_of es k = None" by (auto simp: map_of_eq_None_iff)
  with e Cons show ?case by (auto simp: add_score_def get_or_def split: option.splits)
qed simp

lemma distinct_scores: "distinct (map fst (calculateRankQuestionScores options v))"
  unfolding calculateRankQuestionScores_def by (rule distinct_assign_scores) simp

lemma count_ranks_get:
  assumes "x \<in> co_optionId ` set options"
  shows "get_or 0 (fst (count_ranks q options r (sc, rc))) x = get_or 0 sc x + response_score q options r x"
    and "total (get_or [] (snd (count_ranks q options r (sc, rc))) x) = Suc (total (get_or [] rc x))"
proof -
  let ?scores = "calculateRankQuestionScores options (jstrings (ranked_by q options r))"
  obtain s where s: "obj_get ?scores x = Some s"
    using assms dom_calculateRankQuestionScores by (metis domD)
  have "map_of (js_entries ?scores) x = Some s"
    using s by (simp add: obj_get_js_entries distinct_scores)
  with fold_add_score [OF distinct_js_entries [OF distinct_scores], of options _ sc rc x] s
  show "get_or 0 (fst (count_ranks q options r (sc, rc))) x = get_or 0 sc x + response_score q options r x"
    and "total (get_or [] (snd (count_ranks q options r (sc, rc))) x) = Suc (total (get_or [] rc x))"
    by (simp_all add: count_ranks_def response_score_def get_or_def [of _ ?scores] total_bump)
qed

lemma fold_count_ranks:
  assumes "x \<in> co_optionId ` set options"
  shows "get_or 0 (fst (fold (count_ranks q options) rs (sc, rc))) x
           = get_or 0 sc x + (\<Sum>r\<leftarrow>rs. response_score q options r x)"
    and "total (get_or [] (snd (fold (count_ranks q options) rs (sc, rc))) x) = total (get_or [] rc x) + length rs"
proof -
  have "get_or 0 (fst (fold (count_ranks q options) rs t)) x
           = get_or 0 (fst t) x + (\<Sum>r\<leftarrow>rs. response_score q options r x)
    \<and> total (get_or [] (snd (fold (count_ranks q options) rs t)) x) = total (get_or [] (snd t) x) + length rs" for t
  proof (induction rs arbitrary: t)
    case (Cons r rs)
    show ?case
      using Cons.IH [of "count_ranks q options r t"] count_ranks_get [OF assms, of q r "fst t" "snd t"] by simp
  qed simp
  from this [of "(sc, rc)"] show "get_or 0 (fst (fold (count_ranks q options) rs (sc, rc))) x
           = get_or 0 sc x + (\<Sum>r\<leftarrow>rs. response_score q options r x)"
    and "total (get_or [] (snd (fold (count_ranks q options) rs (sc, rc))) x) = total (get_or [] rc x) + length rs"
    by simp_all
qed

lemma response_score_bounds:
  assumes "x \<in> co_optionId ` set options"
  shows "0 \<le> response_score q options r x \<and> response_score q options r x \<le> int (length options)"
proof -
  let ?v = "jstrings (ranked_by q options r)"
  let ?ids = "normaliseRankedOptionIds options ?v"
  show ?thesis
  proof (cases "x \<in> set ?ids")
    case True
    then obtain i where i: "i < length ?ids" "?ids ! i = x" by (auto simp: in_set_conv_nth)
    moreover have "length ?ids \<le> length options" by (rule normaliseRankedOptionIds_length)
    ultimately show ?thesis
      using calculateRankQuestionScores_nth [OF i(1)] by (simp add: response_score_def get_or_def)
  next
    case False
    with calculateRankQuestionScores_unranked [OF assms False] show ?thesis
      by (simp add: response_score_def get_or_def)
  qed
qed

lemma rank_summary:
  assumes "q_kind q = Rank options m"
  obtains scores counts where
    "summarise_question h rs q = RankSummary (q_questionId q) scores counts (length rs)
       (length (filter (\<lambda>r. ranked_by q options r = []) rs))"
    and "\<And>x. x \<in> co_optionId ` set options \<Longrightarrow> total (get_or [] counts x) = length rs"
    and "\<And>x. x \<in> co_optionId ` set options \<Longrightarrow> get_or 0 scores x = (\<Sum>r\<leftarrow>rs. response_score q options r x)"
proof -
  let ?init = "(from_entries (map (\<lambda>opt. (co_optionId opt, 0)) options),
      from_entries (map (\<lambda>opt. (co_optionId opt, [])) options)) :: int obj \<times> nat obj obj"
  let ?t = "fold (count_ranks q options) rs ?init"
  show ?thesis
  proof (rule that [of "fst ?t" "snd ?t"])
    show "summarise_question h rs q = RankSummary (q_questionId q) (fst ?t) (snd ?t) (length rs)
       (length (filter (\<lambda>r. ranked_by q options r = []) rs))"
      using assms by (simp add: summarise_question_def case_prod_beta)
    fix x assume x: "x \<in> co_optionId ` set options"
    have zero: "get_or 0 (fst ?init) x = 0" "total (get_or [] (snd ?init) x) = 0"
      by (simp_all add: get_or_def total_def)
    show "total (get_or [] (snd ?t) x) = length rs"
      using fold_count_ranks(2) [OF x, of q rs "fst ?init" "snd ?init"] zero by simp
    show "get_or 0 (fst ?t) x = (\<Sum>r\<leftarrow>rs. response_score q options r x)"
      using fold_count_ranks(1) [OF x, of q rs "fst ?init" "snd ?init"] zero by simp
  qed
qed

end
