(* ===== verification/Questionnaire_Properties.thy ===== *)
theory Questionnaire_Properties
  imports Tally Samples
begin

text \<open>
  The properties of the questionnaire itself: conditional display, the validators of definitions and
  payloads, the normalisers, and the result summary.
\<close>

section \<open>Validation and conditional display\<close>

text \<open>
  C26: the payload validator decides acceptability: for every valid definition the validator returns
  for every payload, and its verdict is the declarative predicate \<open>acceptable_payload\<close>.
\<close>

theorem payload_validator_decides:
  assumes "vr_valid (validateQuestionnaireDefinition h d)"
  shows "\<exists>r. validateQuestionnaireResponsePayload h d payload = Inr r \<and> (vr_valid r \<longleftrightarrow> acceptable_payload d payload)"
  using assms by (rule validate_payload_result)

definition sample_payload :: "string list \<Rightarrow> response_payload" where
  "sample_payload ranked = \<lparr>rp_questionnaireId = ''e1'', rp_responseId = ''x'', rp_submittedAt = num_int 5,
     rp_answers = [\<lparr>ra_questionId = ''q1'', ra_body = yes_no_body True\<rparr>,
       \<lparr>ra_questionId = ''q2'', ra_body = \<lparr>ab_answerType = ''rank'', ab_value = JUndefined,
          ab_selectedOptionIds = JUndefined, ab_rankedOptionIds = jstrings ranked, ab_text = JUndefined\<rparr>\<rparr>]\<rparr>"

lemma payload_validator_decides_witness:
  "acceptable_payload sample_definition (sample_payload [''b'', ''a'']) \<and> \<not> acceptable_payload sample_definition (sample_payload [''b'', ''b''])"
proof -
  have "map_sum id vr_valid (validateQuestionnaireResponsePayload plain_host sample_definition (sample_payload [''b'', ''a''])) = Inr True"
    and "map_sum id vr_valid (validateQuestionnaireResponsePayload plain_host sample_definition (sample_payload [''b'', ''b''])) = Inr False"
    by code_simp+
  with payload_validator_decides [OF sample_definition_valid, of "sample_payload [''b'', ''a'']"]
    payload_validator_decides [OF sample_definition_valid, of "sample_payload [''b'', ''b'']"]
  show ?thesis by auto
qed

text \<open>
  C27: conditional display ends exactly when the chain of conditions does: in a table of questions
  keyed by their ids, \<open>shouldShowQuestion\<close> returns for a question if and only if following the
  dependencies from it comes to an end, and what it returns is the declarative \<open>visible\<close>; otherwise it
  throws the circular dependency.
\<close>

theorem shouldShowQuestion_decides:
  assumes "keyed_by_id qs" and "obj_get qs x = Some q"
  shows "(if chain_ends qs x then shouldShowQuestion q answered (Some qs) = Inr (visible qs answered q)
     else \<exists>e. shouldShowQuestion q answered (Some qs) = Inl e)"
proof (cases "chain_ends qs x")
  case True
  obtain b where "shouldShowQuestion q answered (Some qs) = Inr b"
    using shouldShowQuestion_returns [OF assms(1) True assms(2)] by blast
  with True shouldShowQuestion_visible [OF this] show ?thesis by simp
next
  case False
  with shouldShowQuestion_throws [OF _ assms(2)] show ?thesis
    by (cases "shouldShowQuestion q answered (Some qs)") auto
qed

definition cyclic_questions :: "question list" where
  "cyclic_questions = [(sample_questions ! 1)\<lparr>q_questionId := ''x'', q_showIf :=
       Some \<lparr>qc_dependsOnQuestionId = ''y'', qc_requiredAnswer = Some (yes_no_body True)\<rparr>\<rparr>,
     (sample_questions ! 1)\<lparr>q_questionId := ''y'', q_showIf :=
       Some \<lparr>qc_dependsOnQuestionId = ''x'', qc_requiredAnswer = Some (yes_no_body True)\<rparr>\<rparr>]"

lemma shouldShowQuestion_decides_witness:
  "chain_ends (question_map_of sample_questions) ''q2''
   \<and> shouldShowQuestion (sample_questions ! 1) [(''q1'', yes_no_body True)] (Some (question_map_of sample_questions)) = Inr True
   \<and> visible (question_map_of sample_questions) [(''q1'', yes_no_body True)] (sample_questions ! 1)
   \<and> \<not> chain_ends (question_map_of cyclic_questions) ''x''"
proof -
  let ?qs = "question_map_of sample_questions" and ?cs = "question_map_of cyclic_questions"
  have keyed: "keyed_by_id ?qs" "keyed_by_id ?cs"
    by simp_all
  have get: "obj_get ?qs ''q2'' = Some (sample_questions ! 1)" "obj_get ?cs ''x'' = Some (cyclic_questions ! 0)"
    by code_simp+
  have run: "shouldShowQuestion (sample_questions ! 1) [(''q1'', yes_no_body True)] (Some ?qs) = Inr True"
    by code_simp
  have "case shouldShowQuestion (cyclic_questions ! 0) [] (Some ?cs) of Inl e \<Rightarrow> True | Inr b \<Rightarrow> False"
    by code_simp
  then have throws: "shouldShowQuestion (cyclic_questions ! 0) [] (Some ?cs) \<noteq> Inr b" for b by auto
  show ?thesis
    using shouldShowQuestion_decides [OF keyed(1) get(1), of "[(''q1'', yes_no_body True)]"] run
      shouldShowQuestion_decides [OF keyed(2) get(2), of "[]"] throws
    by (auto split: if_splits)
qed

definition multi_question :: question where
  "multi_question = (sample_questions ! 0)\<lparr>q_questionId := ''m'', q_kind := MultipleChoice True
     [\<lparr>co_optionId = ''a'', co_label = Plain ''A'', co_translations = None\<rparr>,
      \<lparr>co_optionId = ''b'', co_label = Plain ''B'', co_translations = None\<rparr>]\<rparr>"

definition multi_definition :: questionnaire_definition where
  "multi_definition = sample_definition\<lparr>d_questions := [multi_question]\<rparr>"

definition repeated_payload :: response_payload where
  "repeated_payload = \<lparr>rp_questionnaireId = ''e1'', rp_responseId = ''x'', rp_submittedAt = num_int 5,
     rp_answers = [\<lparr>ra_questionId = ''m'', ra_body = \<lparr>ab_answerType = ''multiple_choice'', ab_value = JUndefined,
        ab_selectedOptionIds = jstrings [''a'', ''a''], ab_rankedOptionIds = JUndefined, ab_text = JUndefined\<rparr>\<rparr>]\<rparr>"

definition repeated_response :: accepted_response where
  "repeated_response = \<lparr>ar_eventId = ''v'', ar_authorPubkey = ''p'',
     ar_envelope = \<lparr>re_questionnaireId = ''e1'', re_responseId = Some ''x'', re_createdAt = num_int 5,
       re_authorPubkey = ''p'', re_ciphertextRecipient = ''c'', re_ciphertext = ''t'', re_payloadHash = ''t''\<rparr>,
     ar_payload = repeated_payload\<rparr>"

text \<open>
  An option selected twice counts twice: the payload validator accepts a multi-select answer that
  repeats an option, and the summary of that one response gives the option two votes.
\<close>

lemma repeated_selection_counts_twice:
  "vr_valid (validateQuestionnaireDefinition plain_host multi_definition)
   \<and> map_sum id vr_valid (validateQuestionnaireResponsePayload plain_host multi_definition repeated_payload) = Inr True
   \<and> summarise_question plain_host [repeated_response] multi_question
       = MultipleChoiceSummary ''m'' [(''a'', 2), (''b'', 0)]"
  by code_simp

definition repeated_id_definition :: questionnaire_definition where
  "repeated_id_definition = sample_definition\<lparr>d_questions :=
     [sample_questions ! 0, (sample_questions ! 0)\<lparr>q_questionId := ''q2'', q_showIf :=
        Some \<lparr>qc_dependsOnQuestionId = ''q1'', qc_requiredAnswer = Some (yes_no_body True)\<rparr>\<rparr>,
      (sample_questions ! 0)\<lparr>q_showIf :=
        Some \<lparr>qc_dependsOnQuestionId = ''q2'', qc_requiredAnswer = Some (yes_no_body True)\<rparr>\<rparr>]\<rparr>"

text \<open>
  A repeated question id makes the payload validator throw: the validator of payloads only stops
  at the condition errors of a definition, so a definition with a repeated id whose last copy closes
  a cycle reaches the evaluator and the exception escapes, although the definition is invalid.
\<close>

lemma repeated_id_throws:
  "vr_errors (validateQuestionnaireDefinition plain_host repeated_id_definition) = [''question_id_duplicate:q1'']
   \<and> (case validateQuestionnaireResponsePayload plain_host repeated_id_definition (sample_payload []) of
        Inl e \<Rightarrow> True | Inr r \<Rightarrow> False)"
  by code_simp

section \<open>Normalisers\<close>

text \<open>
  Canonicalising the texts of a definition leaves only plain texts with their translations beside
  them, and doing it again changes nothing.
\<close>

lemma canonicalise_idempotent:
  "plain_texts (canonicaliseQuestionnaireDefinitionText d)
   \<and> canonicaliseQuestionnaireDefinitionText (canonicaliseQuestionnaireDefinitionText d)
       = canonicaliseQuestionnaireDefinitionText d"
  using plain_texts_canonicalise canonicalise_plain_texts by blast

text \<open>
  C40: the list of allowed scopes is a canonical form: it is sorted, has no repetition, contains the
  main scope, and normalising it again gives the same list.
\<close>

theorem allowed_scopes_canonical:
  "scopes.in_order (normaliseQuestionnaireAllowedScopes vs fb) \<and> distinct (normaliseQuestionnaireAllowedScopes vs fb)
   \<and> ''0'' \<in> set (normaliseQuestionnaireAllowedScopes vs fb)
   \<and> normaliseQuestionnaireAllowedScopes (Some (map JStr (normaliseQuestionnaireAllowedScopes vs fb))) fb
       = normaliseQuestionnaireAllowedScopes vs fb"
  by (simp add: normaliseQuestionnaireAllowedScopes_sorted set_normaliseQuestionnaireAllowedScopes)

text \<open>
  Rank scores: the ranked options get \<open>n\<close>, \<open>n - 1\<close>, ... in their order, where \<open>n\<close> is the number of
  options, every other option gets 0, and nothing else is scored.
\<close>

lemma rank_scores:
  "map (obj_get (calculateRankQuestionScores options v)) (normaliseRankedOptionIds options v)
     = map (\<lambda>i. Some (int (length options) - int i)) [0..<length (normaliseRankedOptionIds options v)]
   \<and> obj_get (calculateRankQuestionScores options v)
       ` (co_optionId ` set options - set (normaliseRankedOptionIds options v)) \<subseteq> {Some 0}
   \<and> dom (obj_get (calculateRankQuestionScores options v)) = co_optionId ` set options"
proof (intro conjI)
  show "map (obj_get (calculateRankQuestionScores options v)) (normaliseRankedOptionIds options v)
     = map (\<lambda>i. Some (int (length options) - int i)) [0..<length (normaliseRankedOptionIds options v)]"
    by (rule nth_equalityI) (simp_all add: calculateRankQuestionScores_nth)
  show "obj_get (calculateRankQuestionScores options v)
       ` (co_optionId ` set options - set (normaliseRankedOptionIds options v)) \<subseteq> {Some 0}"
    using calculateRankQuestionScores_unranked by blast
  show "dom (obj_get (calculateRankQuestionScores options v)) = co_optionId ` set options"
    by (rule dom_calculateRankQuestionScores)
qed

section \<open>Results\<close>

text \<open>
  C29: ranks are conserved: in the summary of a rank question every option has as many counted ranks
  as there are responses, and its score is the sum of what the responses give it, between 0 and
  \<open>options * responses\<close>.
\<close>

theorem rank_summary_conserves:
  assumes "q_kind q = Rank options m"
  shows "\<exists>scores counts. summarise_question h rs q = RankSummary (q_questionId q) scores counts (length rs)
       (length (filter (\<lambda>r. ranked_by q options r = []) rs))
     \<and> (\<forall>x\<in>co_optionId ` set options. total (get_or [] counts x) = length rs
          \<and> get_or 0 scores x = (\<Sum>r\<leftarrow>rs. response_score q options r x)
          \<and> 0 \<le> get_or 0 scores x \<and> get_or 0 scores x \<le> int (length rs * length options))"
proof -
  have sum: "0 \<le> (\<Sum>r\<leftarrow>rs. response_score q options r x)
      \<and> (\<Sum>r\<leftarrow>rs. response_score q options r x) \<le> int (length rs * length options)"
    if "x \<in> co_optionId ` set options" for x
    using response_score_bounds [OF that, of q] by (induction rs) (simp_all add: add_mono add_nonneg_nonneg distrib_right)
  obtain scores counts where
    "summarise_question h rs q = RankSummary (q_questionId q) scores counts (length rs)
       (length (filter (\<lambda>r. ranked_by q options r = []) rs))"
    and "\<And>x. x \<in> co_optionId ` set options \<Longrightarrow> total (get_or [] counts x) = length rs"
    and "\<And>x. x \<in> co_optionId ` set options \<Longrightarrow> get_or 0 scores x = (\<Sum>r\<leftarrow>rs. response_score q options r x)"
    using rank_summary [OF assms, of h rs] by blast
  with sum show ?thesis by (intro exI [of _ scores] exI [of _ counts] conjI ballI) simp_all
qed

definition two_rankings :: "accepted_response list" where
  "two_rankings = [repeated_response\<lparr>ar_payload := sample_payload [''b'', ''a'']\<rparr>,
     repeated_response\<lparr>ar_payload := sample_payload [''b'']\<rparr>]"

lemma rank_summary_conserves_witness:
  "\<exists>scores counts blanks. summarise_question plain_host two_rankings (sample_questions ! 1)
       = RankSummary ''q2'' scores counts 2 blanks
     \<and> total (get_or [] counts ''b'') = 2"
proof -
  obtain os m where kind: "q_kind (sample_questions ! 1) = Rank os m" and b: "''b'' \<in> co_optionId ` set os"
    by (simp add: sample_questions_def)
  have len: "length two_rankings = 2" and qid: "q_questionId (sample_questions ! 1) = ''q2''"
    by (simp_all add: two_rankings_def sample_questions_def)
  obtain scores counts where
    sum: "summarise_question plain_host two_rankings (sample_questions ! 1) = RankSummary (q_questionId (sample_questions ! 1))
       scores counts (length two_rankings) (length (filter (\<lambda>r. ranked_by (sample_questions ! 1) os r = []) two_rankings))"
    and all: "\<forall>x\<in>co_optionId ` set os. total (get_or [] counts x) = length two_rankings
       \<and> get_or 0 scores x = (\<Sum>r\<leftarrow>two_rankings. response_score (sample_questions ! 1) os r x)
       \<and> 0 \<le> get_or 0 scores x \<and> get_or 0 scores x \<le> int (length two_rankings * length os)"
    using rank_summary_conserves [OF kind, of plain_host two_rankings] by (elim exE conjE) (rule that)
  from all b have "total (get_or [] counts ''b'') = 2" by (simp only: len)
  with sum [unfolded qid len] show ?thesis by blast
qed

text \<open>
  Every accepted ballot is counted: when the responses come from \<open>processQuestionnaireResponses\<close>
  under a valid definition, the yes and no counts of a required yes/no question without a condition
  add up to the number of accepted responses.
\<close>

lemma required_yes_no_counts_everyone:
  assumes valid: "vr_valid (validateQuestionnaireDefinition h d)"
    and run: "processQuestionnaireResponses h c events d nsec = Inr (accepted, rejected)"
    and q: "q \<in> set (d_questions d)" "q_kind q = YesNo" "q_required q" "q_showIf q = None"
  shows "\<exists>yes no. summarise_question h accepted q = YesNoSummary (q_questionId q) yes no
     \<and> yes + no = length accepted"
proof -
  have dist: "distinct (map q_questionId (d_questions d))"
    using valid_definition_well_ordered [OF valid] by (simp add: well_ordered_def)
  have answered: "\<exists>b. answer_to q r = Some b \<and> ab_answerType b = ''yes_no''" if r: "r \<in> set accepted" for r
  proof -
    obtain e where "accepted_properly h c nsec d e r"
      using process_events_accepted [OF run [unfolded processQuestionnaireResponses_def] r] by blast
    then have ok: "acceptable_payload d (ar_payload r)"
      using validate_payload_result [OF valid, of "ar_payload r"] by (auto simp: accepted_properly_def)
    have "visible (question_map_of (d_questions d)) (answer_map_of (rp_answers (ar_payload r))) q"
      using q(4) by (rule visible.unconditional)
    with ok q have "q_questionId q \<in> set (map ra_questionId (rp_answers (ar_payload r)))"
      unfolding acceptable_payload_def Let_def must_answer_def by blast
    then have "List.find (\<lambda>a. ra_questionId a = q_questionId q) (rp_answers (ar_payload r)) \<noteq> None"
      unfolding find_None_iff by auto
    then obtain a where find: "List.find (\<lambda>a. ra_questionId a = q_questionId q) (rp_answers (ar_payload r)) = Some a"
      by blast
    then have a: "a \<in> set (rp_answers (ar_payload r))" "ra_questionId a = q_questionId q"
      by (auto dest: find_SomeD)
    with ok obtain q' where q': "q' \<in> set (d_questions d)" "q_questionId q' = q_questionId q" "answer_ok (q_kind q') (ra_body a)"
      unfolding acceptable_payload_def Let_def by metis
    with dist q(1) have "q' = q" by (auto simp: distinct_map inj_on_def)
    with q' q(2) find show ?thesis by (simp add: answer_to_def answer_ok_def)
  qed
  obtain yes no where yn: "count_yes_no q accepted = (yes, no)" by fastforce
  have "yes + no = length (filter (\<lambda>r. \<exists>a. answer_to q r = Some a \<and> ab_answerType a = ''yes_no'') accepted)"
    using count_yes_no_total [of q accepted] yn by simp
  also have "\<dots> = length accepted" using answered by (simp add: filter_id_conv [THEN iffD2])
  finally show ?thesis using yn q(2) by (simp add: summarise_question_def)
qed

text \<open>
  C28: accepting responses is a partition: every event is accepted or rejected once, each accepted
  response was decrypted from one of the events, submitted inside the window and valid, and unless
  the definition allows several responses, no author is accepted twice.
\<close>

theorem responses_partitioned:
  assumes "processQuestionnaireResponses h c events d nsec = Inr (accepted, rejected)"
  shows "length accepted + length rejected = length events
     \<and> (\<forall>r\<in>set accepted. \<exists>e\<in>set events. accepted_properly h c nsec d e r)
     \<and> (d_allowMultipleResponsesPerPubkey d \<or> distinct (map ar_authorPubkey accepted))"
proof -
  note run = assms [unfolded processQuestionnaireResponses_def]
  have sorted: "set (sortByCreatedAtAsc events) = set events" by (simp add: sortByCreatedAtAsc_def)
  show ?thesis
    using process_events_count [OF run] process_events_accepted [OF run] process_events_authors [OF run]
    by (auto simp: set_js_sort_length sorted)
qed

text \<open>
  The responses are always processed: under a valid definition \<open>processQuestionnaireResponses\<close> returns,
  whatever the events contain.
\<close>

lemma responses_processed:
  assumes "vr_valid (validateQuestionnaireDefinition h d)"
  shows "\<exists>accepted rejected. processQuestionnaireResponses h c events d nsec = Inr (accepted, rejected)"
  unfolding processQuestionnaireResponses_def using assms by (rule process_events_total)

text \<open>Two events of one author, both well formed: the first is accepted.\<close>

definition sample_codec :: response_codec where
  "sample_codec = \<lparr>cd_decrypt = (\<lambda>nsec pubkey ciphertext. Inr ciphertext),
     cd_parse = (\<lambda>text. Inr (sample_payload [''b'', ''a'']))\<rparr>"

definition sample_event :: "string \<Rightarrow> int \<Rightarrow> response_event" where
  "sample_event i t = \<lparr>ev_id = i, ev_kind = QUESTIONNAIRE_RESPONSE_PRIVATE_KIND, ev_pubkey = ''p'', ev_created_at = t,
     ev_content = Some \<lparr>rw_eventType = ''questionnaire_response_private'', rw_ciphertextScheme = ''nip44v2'',
       rw_envelope = \<lparr>re_questionnaireId = ''e1'', re_responseId = Some ''x'', re_createdAt = num_int t,
         re_authorPubkey = ''p'', re_ciphertextRecipient = ''c'', re_ciphertext = ''t'', re_payloadHash = ''t''\<rparr>\<rparr>\<rparr>"

definition sample_processing :: "circular_dependency + (accepted_response list \<times> rejected_response list)" where
  "sample_processing = processQuestionnaireResponses plain_host sample_codec [sample_event ''late'' 9, sample_event ''early'' 3]
     sample_definition ''nsec''"

lemma responses_processed_witness: "\<exists>accepted rejected. sample_processing = Inr (accepted, rejected)"
  unfolding sample_processing_def using sample_definition_valid by (rule responses_processed)

lemma sample_processing_result:
  "map_sum id (\<lambda>(accepted, rejected). (map ar_eventId accepted, map rr_eventId rejected)) sample_processing
     = Inr ([''early''], [''late''])"
  by code_simp

lemma sample_processing_obtain:
  obtains accepted rejected where "sample_processing = Inr (accepted, rejected)"
    "map ar_eventId accepted = [''early'']" "map rr_eventId rejected = [''late'']"
proof (cases sample_processing)
  case (Inl e)
  show ?thesis using sample_processing_result unfolding Inl by simp
next
  case (Inr r)
  show ?thesis using sample_processing_result that [of "fst r" "snd r"] unfolding Inr by (cases r) simp
qed

lemma responses_partitioned_witness:
  "\<exists>accepted rejected. sample_processing = Inr (accepted, rejected) \<and> length accepted + length rejected = 2"
proof -
  obtain accepted rejected where run: "sample_processing = Inr (accepted, rejected)" by (rule sample_processing_obtain)
  have "length accepted + length rejected = 2"
    using responses_partitioned [OF run [unfolded sample_processing_def]] by simp
  with run show ?thesis by blast
qed

lemma required_yes_no_counts_everyone_witness:
  "\<exists>accepted rejected yes no. sample_processing = Inr (accepted, rejected)
     \<and> summarise_question plain_host accepted (sample_questions ! 0) = YesNoSummary ''q1'' yes no \<and> yes + no = 1"
proof -
  obtain accepted rejected where run: "sample_processing = Inr (accepted, rejected)"
    and ids: "map ar_eventId accepted = [''early'']" by (rule sample_processing_obtain)
  have len: "length accepted = 1" using arg_cong [OF ids, of length] by simp
  have q: "sample_questions ! 0 \<in> set (d_questions sample_definition)" "q_kind (sample_questions ! 0) = YesNo"
    "q_required (sample_questions ! 0)" "q_showIf (sample_questions ! 0) = None"
    "q_questionId (sample_questions ! 0) = ''q1''"
    by (simp_all add: sample_definition_def sample_questions_def)
  from required_yes_no_counts_everyone [OF sample_definition_valid run [unfolded sample_processing_def] q(1-4)] q(5) len
  obtain yes no where "summarise_question plain_host accepted (sample_questions ! 0) = YesNoSummary ''q1'' yes no"
    "yes + no = 1" by auto
  with run show ?thesis by blast
qed

end
