(* ===== verification/Admission_Properties.thy ===== *)
theory Admission_Properties
  imports Pow Paper_Ballot
begin

text \<open>
  The properties of admission without an invitation list: the proof of work of a general invite and
  the paper ballots with their printed codes.
\<close>

section \<open>Proof of work\<close>

lemma mine_from_nonce:
  "mine_from h r d k = Some p \<Longrightarrow> \<exists>n. p = \<lparr>pp_nonce = string_of_nat (k + n)\<rparr> \<and> verifyGeneralInvitePow h r d (Some p)"
proof (erule mine_from.raw_induct [where
      P = "\<lambda>h r d k p. \<exists>n. p = \<lparr>pp_nonce = string_of_nat (k + n)\<rparr> \<and> verifyGeneralInvitePow h r d (Some p)", rotated])
  fix mine h r d k p
  assume IH: "\<And>h r d k p. mine h r d k = Some p \<Longrightarrow>
      \<exists>n. p = \<lparr>pp_nonce = string_of_nat (k + n)\<rparr> \<and> verifyGeneralInvitePow h r d (Some p)"
    and run: "(let proof = \<lparr>pp_nonce = string_of_nat k\<rparr>
      in if verifyGeneralInvitePow h r d (Some proof) then Some proof else mine h r d (Suc k)) = Some p"
  show "\<exists>n. p = \<lparr>pp_nonce = string_of_nat (k + n)\<rparr> \<and> verifyGeneralInvitePow h r d (Some p)"
  proof (cases "verifyGeneralInvitePow h r d (Some \<lparr>pp_nonce = string_of_nat k\<rparr>)")
    case True
    with run show ?thesis by (intro exI [of _ 0]) (simp add: Let_def)
  next
    case False
    with run have "mine h r d (Suc k) = Some p" by (simp add: Let_def)
    from IH [OF this] obtain n where "p = \<lparr>pp_nonce = string_of_nat (Suc k + n)\<rparr>" "verifyGeneralInvitePow h r d (Some p)"
      by (elim exE conjE)
    then show ?thesis by (intro exI [of _ "Suc n"]) simp
  qed
qed

text \<open>
  Mining finds the least nonce: for an admissible difficulty the loop returns a proof exactly when
  some nonce verifies, and the proof it returns is the least such nonce; it runs on for ever
  only when there is none.
\<close>

lemma mining_finds_least_nonce:
  assumes "isGeneralInvitePowDifficulty d"
  shows "mineGeneralInvitePow h r d =
     (if \<exists>n. verifyGeneralInvitePow h r d (Some \<lparr>pp_nonce = string_of_nat n\<rparr>)
      then Some (Inr \<lparr>pp_nonce = string_of_nat (LEAST n. verifyGeneralInvitePow h r d (Some \<lparr>pp_nonce = string_of_nat n\<rparr>))\<rparr>)
      else None)"
proof (cases "\<exists>n. verifyGeneralInvitePow h r d (Some \<lparr>pp_nonce = string_of_nat n\<rparr>)")
  case True
  let ?n = "LEAST n. verifyGeneralInvitePow h r d (Some \<lparr>pp_nonce = string_of_nat n\<rparr>)"
  have "mine_from h r d 0 = Some \<lparr>pp_nonce = string_of_nat (0 + ?n)\<rparr>"
    by (rule mine_from_finds) (use LeastI_ex [OF True] not_less_Least in auto)
  with True assms show ?thesis by (simp add: mineGeneralInvitePow_def)
next
  case False
  have "mine_from h r d 0 = None"
  proof (cases "mine_from h r d 0")
    case (Some p)
    from mine_from_nonce [OF this] obtain n where "p = \<lparr>pp_nonce = string_of_nat (0 + n)\<rparr>"
      "verifyGeneralInvitePow h r d (Some p)" by (elim exE conjE)
    with False show ?thesis by auto
  qed
  with False assms show ?thesis by (simp add: mineGeneralInvitePow_def)
qed

definition sample_pow_request :: pow_request where
  "sample_pow_request = \<lparr>pw_electionId = ''e1'', pw_requestId = ''r1'', pw_invitedNpub = ''npub1v'',
     pw_blindSigningKeyId = ''k1'', pw_blindedMessage = ''m'', pw_clientNonce = ''c''\<rparr>"

lemma mining_finds_least_nonce_witness:
  "mineGeneralInvitePow (plain_host\<lparr>host_sha256 := (\<lambda>_. ''00'')\<rparr>) sample_pow_request (num_int 3) = Some (Inr \<lparr>pp_nonce = string_of_nat 0\<rparr>)"
proof -
  let ?h = "plain_host\<lparr>host_sha256 := (\<lambda>_. ''00'')\<rparr>"
  have diff: "isGeneralInvitePowDifficulty (num_int 3)" by code_simp
  have "decimal_nonce (string_of_nat 0)" "hasLeadingZeroBits ''00'' 3" by code_simp+
  then have "verifyGeneralInvitePow ?h sample_pow_request (num_int 3) (Some \<lparr>pp_nonce = string_of_nat 0\<rparr>)"
    using diff by (simp add: verifyGeneralInvitePow_def)
  then have "\<exists>n. verifyGeneralInvitePow ?h sample_pow_request (num_int 3) (Some \<lparr>pp_nonce = string_of_nat n\<rparr>)"
    and "(LEAST n. verifyGeneralInvitePow ?h sample_pow_request (num_int 3) (Some \<lparr>pp_nonce = string_of_nat n\<rparr>)) = 0"
    by (blast, simp add: Least_equality)
  with mining_finds_least_nonce [OF diff, of ?h sample_pow_request] show ?thesis by simp
qed

text \<open>
  The hashed text binds everything: two preimages are equal only for the same request and nonce,
  so work done for one request serves no other.
\<close>

lemma pow_preimage_binds:
  "generalInvitePowPreimage r n = generalInvitePowPreimage r' n' \<longleftrightarrow> r = r' \<and> n = n'"
  by (rule generalInvitePowPreimage_inject)

section \<open>Paper ballots\<close>

lemma build_sheet_admissions:
  "build_sheet h rnd el ex codes i ns = Some sheet \<Longrightarrow> p \<in> set sheet \<Longrightarrow>
     pa_registryKey (pr_admission p) = hashPaperBallotAdmissionKey h el (pr_masterlistNumber p) (pr_code p)
     \<and> pa_state (pr_admission p) = Available \<and> pa_electionId (pr_admission p) = el"
proof (induction h rnd el ex codes i ns arbitrary: sheet rule: build_sheet.induct)
  case (2 h rnd el ex codes i n ns)
  from "2.prems"(1) obtain code j rest where d: "draw_fresh rnd codes i = Some (code, j)"
    and rest: "build_sheet h rnd el ex (code # codes) j ns = Some rest"
    and sheet: "tl sheet = rest" "sheet \<noteq> []"
      "pr_admission (hd sheet) = \<lparr>pa_electionId = el,
          pa_registryKey = hashPaperBallotAdmissionKey h el (pr_masterlistNumber (hd sheet)) (pr_code (hd sheet)),
          pa_expiresAt = ex, pa_state = Available, pa_redeemedAt = None, pa_redeemedRequestId = None,
          pa_redeemedIssuanceId = None, pa_redeemedNpub = None, pa_further = []\<rparr>"
    by (auto split: option.splits)
  show ?case
  proof (cases "p = hd sheet")
    case True
    with sheet(3) show ?thesis by simp
  next
    case False
    with "2.prems"(2) sheet(1,2) have "p \<in> set rest" by (cases sheet) auto
    with "2.IH" [OF d refl rest] show ?thesis by blast
  qed
qed simp

text \<open>
  A printed sheet has no code twice: whatever the source of randomness yields, the sheet lists
  every master-list number once, with pairwise different codes over the unambiguous alphabet, and every
  entry is registered under the key that its own number and code hash to.
\<close>

lemma sheet_codes_distinct:
  assumes "createPaperBallotAdmissionSheet h now rnd election masterlist expiry = Some sheet"
  shows "distinct (map pr_code sheet) \<and> distinct (map pr_masterlistNumber sheet)
     \<and> list_all (\<lambda>p. paper_ballot_code_pattern (pr_code p) \<and> pa_state (pr_admission p) = Available
          \<and> pa_registryKey (pr_admission p)
              = hashPaperBallotAdmissionKey h (js_trim election) (pr_masterlistNumber p) (pr_code p)) sheet"
proof (cases "sheet = []")
  case False
  define ns where "ns = js_set (filter (\<lambda>n. n \<noteq> [])
      (map (\<lambda>n. normalisePaperBallotMasterlistNumber (Some n)) masterlist))"
  have ns: "distinct ns" by (simp add: ns_def)
  from assms False have b: "build_sheet h rnd (js_trim election) (js_trim expiry) [] 0 ns = Some sheet"
    by (auto simp: createPaperBallotAdmissionSheet_def Let_def ns_def split: if_splits)
  from build_sheet_codes [OF b] build_sheet_admissions [OF b] ns show ?thesis
    by (simp add: list_all_iff)
qed simp

lemma sheet_codes_distinct_witness:
  "\<exists>sheet. createPaperBallotAdmissionSheet plain_host (num_int 1) (\<lambda>i. [i]) ''e1'' [''a1'', ''a2'', ''A1''] ''9'' = Some sheet
     \<and> length sheet = 2 \<and> distinct (map pr_code sheet)"
proof -
  let ?s = "createPaperBallotAdmissionSheet plain_host (num_int 1) (\<lambda>i. [i]) ''e1'' [''a1'', ''a2'', ''A1''] ''9''"
  have ns: "js_set (filter (\<lambda>n. n \<noteq> []) (map (\<lambda>n. normalisePaperBallotMasterlistNumber (Some n)) [''a1'', ''a2'', ''A1'']))
      = [''A1'', ''A2'']" by code_simp
  have guards: "js_trim ''e1'' = ''e1''" "js_trim ''9'' = ''9''" "num_isFinite (host_dateParse plain_host ''9'')"
    "\<not> num_le (host_dateParse plain_host ''9'') (num_int 1)" by code_simp+
  have "createPaperBallotCode [1] \<notin> set [createPaperBallotCode [0]]" by code_simp
  then have "draw_fresh (\<lambda>i. [i]) [] 0 = Some (createPaperBallotCode [0], Suc 0)"
    "draw_fresh (\<lambda>i. [i]) [createPaperBallotCode [0]] (Suc 0) = Some (createPaperBallotCode [1], 2)"
    by (subst draw_fresh.simps, simp add: Let_def)+
  note draws = this
  have "?s = build_sheet plain_host (\<lambda>i. [i]) ''e1'' ''9'' [] 0 [''A1'', ''A2'']"
    unfolding createPaperBallotAdmissionSheet_def Let_def ns guards(1,2) using guards(3,4) by simp
  with draws obtain sheet where sheet: "?s = Some sheet" "length sheet = 2" by simp
  with sheet_codes_distinct [OF sheet(1)] show ?thesis by blast
qed

lemma hex64_normal: "is_hex64 k \<Longrightarrow> js_lower (js_trim k) = k"
proof -
  assume hex: "is_hex64 k"
  have "list_all (\<lambda>c. js_lower_char c = c \<and> \<not> js_ws c) ''0123456789abcdef''" by code_simp
  with hex have all: "\<forall>c\<in>set k. js_lower_char c = c \<and> \<not> js_ws c"
    unfolding is_hex64_def list_all_iff by blast
  then have "js_trim k = k" by (intro js_trim_no_ws) blast
  with all show ?thesis by (simp add: js_lower_def map_idI)
qed

text \<open>
  C36: a code admits one voter: after a redemption, which only an available entry allows, every further
  attempt is refused as unavailable, except that the same voter with the same election and key is told of the
  earlier one, and no attempt changes the entry again.
\<close>

theorem redemption_single_use:
  assumes "redeemPaperBallotAdmission h (Some e) el key request npub now = Inr (False, e')" and "npub \<noteq> []"
  shows "pa_state e = Available
     \<and> redeemPaperBallotAdmission h (Some e') el' key' request' npub' now'
        = (if npub' = npub \<and> el' = el \<and> js_lower (js_trim key') = js_lower (js_trim key)
           then Inr (True, e') else Inl Unavailable)"
proof -
  note r = redeem_ok_iff [OF assms(1)]
  with assms(2) redeemed_only_replays [of e' h el' key' request' npub' now'] show ?thesis by auto
qed

definition available_entry :: admission_entry where
  "available_entry = \<lparr>pa_electionId = ''e1'', pa_registryKey = replicate 64 CHR ''a'', pa_expiresAt = ''9'',
     pa_state = Available, pa_redeemedAt = None, pa_redeemedRequestId = None, pa_redeemedIssuanceId = None,
     pa_redeemedNpub = None, pa_further = []\<rparr>"

lemma redemption_single_use_witness:
  "\<exists>e'. redeemPaperBallotAdmission plain_host (Some available_entry) ''e1'' (replicate 64 CHR ''a'') ''r1'' ''npub1v'' ''5''
       = Inr (False, e')
     \<and> redeemPaperBallotAdmission plain_host (Some e') ''e1'' (replicate 64 CHR ''a'') ''r2'' ''npub1w'' ''6'' = Inl Unavailable"
proof -
  let ?e' = "available_entry\<lparr>pa_state := Redeemed, pa_redeemedAt := Some ''5'', pa_redeemedRequestId := Some ''r1'',
     pa_redeemedNpub := Some ''npub1v''\<rparr>"
  have run: "redeemPaperBallotAdmission plain_host (Some available_entry) ''e1'' (replicate 64 CHR ''a'') ''r1'' ''npub1v'' ''5''
       = Inr (False, ?e')"
  proof -
    have key: "js_lower (js_trim (replicate 64 CHR ''a'')) = replicate 64 CHR ''a''"
      by (rule hex64_normal) (simp add: is_hex64_def list_all_iff)
    have dates: "host_dateParse plain_host ''9'' = num_int 9" "host_dateParse plain_host ''5'' = num_int 5"
      by code_simp+
    show ?thesis
      by (simp add: redeemPaperBallotAdmission_def validatePaperBallotAdmission_def available_entry_def key dates num_le_def
          num_int_def)
  qed
  with redemption_single_use [OF run, of "''e1''" "replicate 64 CHR ''a''" "''r2''" "''npub1w''" "''6''"]
  show ?thesis by (intro exI [of _ ?e']) simp
qed

text \<open>
  What is saved is loaded: a valid admission saved into any registry, even one that holds
  invalid entries, is found under its key, as far as the sanitiser keeps its fields.
\<close>

lemma saved_admission_loads:
  assumes "isPaperBallotAdmissionEntry h e" and "js_trim (pa_electionId e) \<noteq> []"
  shows "loadPaperBallotAdmission h (pa_registryKey e) (savePaperBallotAdmission h e stored)
     = Some (admission_fields (e\<lparr>pa_electionId := js_trim (pa_electionId e)\<rparr>))"
proof -
  let ?k = "pa_registryKey e" and ?san = "sanitisePaperBallotAdmissions h stored"
  let ?e = "admission_fields (e\<lparr>pa_electionId := js_trim (pa_electionId e)\<rparr>)"
  have hex: "is_hex64 ?k" using assms(1) by (simp add: isPaperBallotAdmissionEntry_def)
  note key = hex64_normal [OF hex]
  have upd: "e\<lparr>pa_electionId := js_trim (pa_electionId e), pa_registryKey := ?k\<rparr>
      = e\<lparr>pa_electionId := js_trim (pa_electionId e)\<rparr>" by (cases e) simp
  have saved: "savePaperBallotAdmission h e stored = Some (obj_set ?k ?e ?san)"
    using assms by (simp add: savePaperBallotAdmission_def Let_def key readPaperBallotAdmissionRegistry_def upd)
  have "admissible h ?k (e\<lparr>pa_electionId := js_trim (pa_electionId e)\<rparr>)"
    using assms(1) hex by (simp add: admissible_def isPaperBallotAdmissionEntry_def)
  then have adm: "admissible h ?k ?e" by (rule admissible_fields)
  have "distinct (map fst (obj_set ?k ?e ?san))" by (simp add: distinct_update)
  from sanitisePaperBallotAdmissions_get [OF this, of h ?k] adm
  have "obj_get (sanitisePaperBallotAdmissions h (Some (obj_set ?k ?e ?san))) ?k = Some ?e" by simp
  with hex show ?thesis
    by (simp add: saved loadPaperBallotAdmission_def Let_def key readPaperBallotAdmissionRegistry_def)
qed

lemma saved_admission_loads_witness:
  "loadPaperBallotAdmission plain_host (pa_registryKey available_entry)
     (savePaperBallotAdmission plain_host available_entry (Some [(''old'', available_entry)]))
   = Some (admission_fields (available_entry\<lparr>pa_electionId := js_trim (pa_electionId available_entry)\<rparr>))"
proof -
  have "isPaperBallotAdmissionEntry plain_host available_entry" "js_trim (pa_electionId available_entry) \<noteq> []"
    by code_simp+
  then show ?thesis by (rule saved_admission_loads)
qed

end
