(* ===== verification/Csv.thy ===== *)
theory Csv
  imports Prelude
begin

text \<open>
  The CSV side of the delivery of admission codes (\<open>web/src/otpDelivery/csv.ts\<close>): escaping a field,
  the name and code table, the scanner of a line, which \<open>web/src/residentRegister.ts\<close> repeats word
  for word, and the reader of a results table.  A printed row is proved to scan back to its fields.
\<close>

abbreviation dquote :: char where "dquote \<equiv> CHR 0x22"

record name_code_pair =
  nc_name :: string
  nc_code :: string

record delivery_result_row =
  dr_mastersListNumber :: string
  dr_ok :: bool
  dr_detail :: string
  dr_ref :: "string option"

definition escapeCsvField :: "string \<Rightarrow> string" where
  "escapeCsvField value =
     (if list_ex (\<lambda>c. c \<in> {dquote, CHR '','', CHR 0x0A, CHR 0x0D}) value
      then [dquote] @ concat (map (\<lambda>c. if c = dquote then [dquote, dquote] else [c]) value) @ [dquote]
      else value)"

definition buildNameCodeCsv :: "name_code_pair list \<Rightarrow> string" where
  "buildNameCodeCsv pairs = js_join [CHR 0x0A]
     (''name,code'' # map (\<lambda>pair. escapeCsvField (nc_name pair) @ '','' @ escapeCsvField (nc_code pair)) pairs)"

text \<open>
  The loop of \<open>parseCsvLine\<close>: whether a quoted part is open, the current field, and the fields so
  far.  Two quotes inside a quoted part stand for one; a quote elsewhere opens a part.
\<close>

fun csv_scan :: "bool \<Rightarrow> string \<Rightarrow> string list \<Rightarrow> string \<Rightarrow> string list" where
  "csv_scan inQuotes current cells [] = cells @ [current]"
| "csv_scan True current cells (ch # rest) =
     (if ch = dquote then
        (case rest of
           d # rest' \<Rightarrow> if d = dquote then csv_scan True (current @ [dquote]) cells rest'
                       else csv_scan False current cells rest
         | [] \<Rightarrow> csv_scan False current cells rest)
      else csv_scan True (current @ [ch]) cells rest)"
| "csv_scan False current cells (ch # rest) =
     (if ch = dquote then csv_scan True current cells rest
      else if ch = CHR '','' then csv_scan False [] (cells @ [current]) rest
      else csv_scan False (current @ [ch]) cells rest)"

definition parseCsvLine :: "string \<Rightarrow> string list" where
  "parseCsvLine line = csv_scan False [] [] line"

text \<open>\<open>content.split(/\r?\n/)\<close>, with the line read so far.\<close>

fun split_lines :: "string \<Rightarrow> string \<Rightarrow> string list" where
  "split_lines current [] = [current]"
| "split_lines current (c # s) =
     (if c = CHR 0x0A then current # split_lines [] s
      else if c = CHR 0x0D \<and> s \<noteq> [] \<and> hd s = CHR 0x0A then current # split_lines [] (tl s)
      else split_lines (current @ [c]) s)"

definition non_empty_lines :: "string \<Rightarrow> string list" where
  "non_empty_lines content = filter (\<lambda>line. js_trim line \<noteq> []) (split_lines [] content)"

text \<open>\<open>cells[i]?.trim()\<close>; an empty text is what the callers make of a missing field.\<close>

definition csv_field :: "string list \<Rightarrow> nat \<Rightarrow> string" where
  "csv_field cells i = (if i < length cells then js_trim (cells ! i) else [])"

definition or_undefined :: "string \<Rightarrow> string option" where
  "or_undefined s = (if s = [] then None else Some s)"

definition result_row :: "string list \<Rightarrow> delivery_result_row option" where
  "result_row cells = (if csv_field cells 0 = [] then None else Some
     \<lparr>dr_mastersListNumber = csv_field cells 0, dr_ok = (js_lower (csv_field cells 1) = ''true''),
      dr_detail = csv_field cells 2, dr_ref = or_undefined (csv_field cells 3)\<rparr>)"

definition parseResultsCsv :: "string \<Rightarrow> delivery_result_row list" where
  "parseResultsCsv csvContent =
     (if js_trim csvContent = [] then []
      else List.map_filter (\<lambda>line. result_row (parseCsvLine line)) (tl (non_empty_lines csvContent)))"

section \<open>Scanning a printed row\<close>

abbreviation csv_quoted :: "string \<Rightarrow> string" where
  "csv_quoted s \<equiv> concat (map (\<lambda>c. if c = dquote then [dquote, dquote] else [c]) s)"

lemma scan_plain:
  "list_all (\<lambda>c. c \<noteq> dquote \<and> c \<noteq> CHR '','') s \<Longrightarrow>
   csv_scan False current cells (s @ rest) = csv_scan False (current @ s) cells rest"
  by (induction s arbitrary: current) auto

lemma scan_quoted:
  "rest = [] \<or> hd rest \<noteq> dquote \<Longrightarrow>
   csv_scan True current cells (csv_quoted s @ dquote # rest) = csv_scan False (current @ s) cells rest"
  by (induction s arbitrary: current) (auto split: list.splits)

lemma scan_field:
  assumes "rest = [] \<or> hd rest \<noteq> dquote"
  shows "csv_scan False [] cells (escapeCsvField s @ rest) = csv_scan False s cells rest"
proof (cases "list_ex (\<lambda>c. c \<in> {dquote, CHR '','', CHR 0x0A, CHR 0x0D}) s")
  case True
  then have "escapeCsvField s @ rest = dquote # csv_quoted s @ dquote # rest" by (simp add: escapeCsvField_def)
  then show ?thesis using scan_quoted [OF assms, of "[]" cells s] by simp
next
  case False
  then have plain: "list_all (\<lambda>c. c \<noteq> dquote \<and> c \<noteq> CHR '','') s" by (auto simp: list_all_iff list_ex_iff)
  from False have "escapeCsvField s = s" by (auto simp: escapeCsvField_def)
  with scan_plain [OF plain, of "[]" cells rest] show ?thesis by simp
qed

lemma scan_row:
  "row \<noteq> [] \<Longrightarrow> csv_scan False [] cells (js_join '','' (map escapeCsvField row)) = cells @ row"
proof (induction row arbitrary: cells)
  case Nil
  then show ?case by simp
next
  case (Cons s row)
  show ?case
  proof (cases row)
    case Nil
    with scan_field [of "[]" cells s] show ?thesis by simp
  next
    case (Cons t ts)
    then have "js_join '','' (map escapeCsvField (s # row)) = escapeCsvField s @ CHR '','' # js_join '','' (map escapeCsvField row)"
      by simp
    then show ?thesis
      using scan_field [of "CHR '','' # js_join '','' (map escapeCsvField row)" cells s]
        Cons.IH [of "cells @ [s]"] Cons by simp
  qed
qed

lemma parse_row: "row \<noteq> [] \<Longrightarrow> parseCsvLine (js_join '','' (map escapeCsvField row)) = row"
  using scan_row [of row "[]"] by (simp add: parseCsvLine_def)

section \<open>Lines\<close>

abbreviation one_line :: "string \<Rightarrow> bool" where
  "one_line s \<equiv> list_all (\<lambda>c. c \<noteq> CHR 0x0A \<and> c \<noteq> CHR 0x0D) s"

lemma split_one_line: "one_line s \<Longrightarrow> split_lines current s = [current @ s]"
  by (induction s arbitrary: current) auto

lemma split_first_line: "one_line s \<Longrightarrow> split_lines current (s @ CHR 0x0A # rest) = (current @ s) # split_lines [] rest"
  by (induction s arbitrary: current) auto

lemma split_joined:
  "list_all one_line ls \<Longrightarrow> ls \<noteq> [] \<Longrightarrow> split_lines [] (js_join [CHR 0x0A] ls) = ls"
proof (induction ls)
  case Nil
  then show ?case by simp
next
  case (Cons l ls)
  then show ?case by (cases ls) (simp_all add: split_one_line split_first_line)
qed

lemma one_line_append: "one_line (s @ t) \<longleftrightarrow> one_line s \<and> one_line t"
  by simp

lemma one_line_escape: "one_line s \<Longrightarrow> one_line (escapeCsvField s)"
  by (auto simp: escapeCsvField_def list_all_iff)

lemma js_trim_eq_Nil: "js_trim s = [] \<longleftrightarrow> list_all js_ws s"
proof (cases "dropWhile js_ws s")
  case Nil
  then show ?thesis unfolding js_trim_def Nil using Nil by (simp add: dropWhile_eq_Nil_conv list_all_iff)
next
  case (Cons c cs)
  then have "\<not> js_ws c" by (metis hd_dropWhile list.distinct(1) list.sel(1))
  moreover have "c \<in> set s" using Cons by (metis list.set_intros(1) set_dropWhileD)
  ultimately have "\<not> list_all js_ws s" by (auto simp: list_all_iff)
  moreover have "js_trim s \<noteq> []"
    using \<open>\<not> js_ws c\<close> Cons by (auto simp: js_trim_def dropWhile_eq_Nil_conv)
  ultimately show ?thesis by blast
qed

lemma comma_not_blank: "js_trim (s @ CHR '','' # t) \<noteq> []"
  by (simp add: js_trim_eq_Nil js_ws_def)

lemma name_code_lines:
  assumes "list_all (\<lambda>p. one_line (nc_name p) \<and> one_line (nc_code p)) pairs"
  shows "map parseCsvLine (tl (non_empty_lines (buildNameCodeCsv pairs))) = map (\<lambda>p. [nc_name p, nc_code p]) pairs"
proof -
  let ?row = "\<lambda>p. escapeCsvField (nc_name p) @ '','' @ escapeCsvField (nc_code p)"
  have lines: "list_all one_line (''name,code'' # map ?row pairs)"
    using assms by (induction pairs) (simp_all add: one_line_escape)
  have "\<forall>l\<in>set (''name,code'' # map ?row pairs). js_trim l \<noteq> []"
    using comma_not_blank [of "''name''" "''code''"] by (auto simp: comma_not_blank)
  then have "non_empty_lines (buildNameCodeCsv pairs) = ''name,code'' # map ?row pairs"
    unfolding non_empty_lines_def buildNameCodeCsv_def split_joined [OF lines, simplified]
    by (subst split_joined [OF lines]) (simp_all only: filter_True list.distinct not_False_eq_True)
  moreover have "parseCsvLine (?row p) = [nc_name p, nc_code p]" for p :: name_code_pair
    using parse_row [of "[nc_name p, nc_code p]"] by simp
  ultimately show ?thesis by simp
qed

end
