(* ===== verification/Resident_Register.thy ===== *)
theory Resident_Register
  imports Csv
begin

text \<open>
  The two importers of residents (\<open>web/src/residentRegister.ts\<close>): the integer mode
  (\<open>parseResidentCsv\<close>) and the interop master list (\<open>parseMasterlistCsv\<close>), with the neutralising of
  spreadsheet formulas.  Each row of a table either fails with one error or is accepted; a table is
  imported only when no row failed.

  \<open>Number(text)\<close> is exact here for texts of at most 15 digits; every other text is left to the
  parameter \<open>to_number\<close>.
\<close>

record resident_entry =
  re_mastersListNumber :: jsnum
  re_email :: string
  re_phone :: "string option"
  re_name :: "string option"

record masterlist_entry =
  me_masterlistNo :: string
  me_email :: "string option"
  me_phone :: "string option"
  me_dob :: "string option"
  me_country :: "string option"

definition FORMULA_PREFIXES :: "char set" where
  "FORMULA_PREFIXES = {CHR ''='', CHR ''+'', CHR ''-'', CHR ''@''}"

text \<open>\<open>/\p{Cf}/u\<close> on the code units 0 to 255: only the soft hyphen.\<close>

definition invisible_prefix :: "char \<Rightarrow> bool" where
  "invisible_prefix c = (c = CHR 0xAD)"

definition neutralizeCsvFormula :: "string option \<Rightarrow> string option" where
  "neutralizeCsvFormula value = (case value of
     None \<Rightarrow> None
   | Some s \<Rightarrow> if s = [] then Some []
       else case dropWhile invisible_prefix s of
         [] \<Rightarrow> None
       | c # cs \<Rightarrow> Some (if c \<in> FORMULA_PREFIXES then CHR 0x27 # c # cs else c # cs))"

definition js_Number :: "(string \<Rightarrow> jsnum) \<Rightarrow> string \<Rightarrow> jsnum" where
  "js_Number to_number s =
     (if s \<noteq> [] \<and> length s \<le> 15 \<and> list_all is_digit s then num_int (int (nat_of_digits s)) else to_number s)"

definition positive_integer :: "jsnum \<Rightarrow> bool" where
  "positive_integer n = (num_isInteger n \<and> \<not> num_le n (num_int 0) \<and> n \<noteq> NaN)"

text \<open>\<open>/^[^\s@]+@[^\s@]+\.[^\s@]+$/\<close>\<close>

definition email_char :: "char \<Rightarrow> bool" where
  "email_char c = (\<not> js_ws c \<and> c \<noteq> CHR ''@'')"

definition isValidEmail :: "string \<Rightarrow> bool" where
  "isValidEmail email =
     (let user = takeWhile (\<lambda>c. c \<noteq> CHR ''@'') email; domain = drop (Suc (length user)) email
      in user \<noteq> [] \<and> length user < length email \<and> list_all email_char user \<and> list_all email_char domain
         \<and> list_ex (\<lambda>i. domain ! i = CHR ''.'') [1..<length domain - 1])"

text \<open>\<open>/^[A-Za-z0-9_-]{1,32}$/\<close>\<close>

definition masterlist_no_char :: "char \<Rightarrow> bool" where
  "masterlist_no_char c = (is_lower_alnum c \<or> c \<in> set ''ABCDEFGHIJKLMNOPQRSTUVWXYZ_-'')"

definition masterlist_no_pattern :: "string \<Rightarrow> bool" where
  "masterlist_no_pattern s = (1 \<le> length s \<and> length s \<le> 32 \<and> list_all masterlist_no_char s)"

definition row_error :: "nat \<Rightarrow> string \<Rightarrow> string" where
  "row_error i message = ''Row '' @ string_of_nat i @ '': '' @ message"

definition quoted :: "string \<Rightarrow> string" where
  "quoted s = [dquote] @ s @ [dquote]"

section \<open>The integer mode\<close>

definition resident_header :: "string list \<Rightarrow> bool" where
  "resident_header cells = (4 \<le> length cells
     \<and> map (\<lambda>i. js_lower (csv_field cells i)) [0..<4] = [''masters_list_number'', ''email'', ''phone'', ''name''])"

text \<open>One row: the error, or the resident, given the numbers already taken.\<close>

definition resident_row ::
  "host \<Rightarrow> (string \<Rightarrow> jsnum) \<Rightarrow> jsnum list \<Rightarrow> nat \<Rightarrow> string list \<Rightarrow> string + resident_entry" where
  "resident_row h to_number seenNumbers i cells =
     (if length cells < 2 then Inl (row_error i ''insufficient fields'')
      else
        let numberText = csv_field cells 0;
            email = (case neutralizeCsvFormula (Some (csv_field cells 1)) of None \<Rightarrow> [] | Some e \<Rightarrow> e);
            phone = neutralizeCsvFormula (or_undefined (csv_field cells 2));
            name = neutralizeCsvFormula (or_undefined (csv_field cells 3));
            number = js_Number to_number numberText
        in if numberText = [] then Inl (row_error i ''missing masters_list_number'')
           else if \<not> positive_integer number
             then Inl (row_error i (''masters_list_number must be a positive integer, got '' @ quoted numberText))
           else if number \<in> set seenNumbers
             then Inl (row_error i (''duplicate masters_list_number '' @ quoted (string_of_num h number)))
           else if email = [] then Inl (row_error i ''email is required'')
           else if \<not> isValidEmail email then Inl (row_error i (''invalid email '' @ quoted email))
           else Inr \<lparr>re_mastersListNumber = number, re_email = email, re_phone = phone, re_name = name\<rparr>)"

fun resident_rows ::
  "host \<Rightarrow> (string \<Rightarrow> jsnum) \<Rightarrow> jsnum list \<Rightarrow> nat \<Rightarrow> string list \<Rightarrow> string list \<times> resident_entry list" where
  "resident_rows h to_number seenNumbers i [] = ([], [])"
| "resident_rows h to_number seenNumbers i (line # rows) =
     (case resident_row h to_number seenNumbers i (parseCsvLine line) of
        Inl e \<Rightarrow> (case resident_rows h to_number seenNumbers (Suc i) rows of (errors, entries) \<Rightarrow> (e # errors, entries))
      | Inr entry \<Rightarrow>
          (case resident_rows h to_number (re_mastersListNumber entry # seenNumbers) (Suc i) rows of
             (errors, entries) \<Rightarrow> (errors, entry # entries)))"

definition parseResidentCsv :: "host \<Rightarrow> (string \<Rightarrow> jsnum) \<Rightarrow> string \<Rightarrow> resident_entry list \<times> string list" where
  "parseResidentCsv h to_number csvContent =
     (case (if js_trim csvContent = [] then [] else non_empty_lines csvContent) of
        [] \<Rightarrow> ([], [''CSV content is empty''])
      | header # rows \<Rightarrow>
          if \<not> resident_header (parseCsvLine header)
          then ([], [''CSV must have a header row: masters_list_number,email,phone,name''])
          else if rows = [] then ([], [''CSV has no data rows''])
          else case resident_rows h to_number [] 1 rows of
            (errors, entries) \<Rightarrow> if errors \<noteq> [] then ([], errors) else (entries, []))"

section \<open>The interop master list\<close>

text \<open>The dash of the last message lies outside the modelled code units; it is written as a hyphen.\<close>

definition MASTERLIST_EXPECTED_HEADER :: "string list" where
  "MASTERLIST_EXPECTED_HEADER =
     [''id'', ''masterlist_no'', ''email'', ''phone'', ''dob'', ''country'', ''status'']"

definition masterlist_header_errors :: "string list \<Rightarrow> string list" where
  "masterlist_header_errors cells =
     (if length cells \<noteq> length MASTERLIST_EXPECTED_HEADER
      then [''CSV must have exactly 7 header columns: '' @ js_join '','' MASTERLIST_EXPECTED_HEADER]
      else List.map_filter (\<lambda>i. if cells ! i = MASTERLIST_EXPECTED_HEADER ! i then None else Some
             (''CSV header column '' @ string_of_nat (i + 1) @ '' must be '' @ quoted (MASTERLIST_EXPECTED_HEADER ! i)
              @ '', got '' @ quoted (cells ! i))) [0..<7])"

text \<open>One row: the error, or the number and the entry of an active row.\<close>

definition masterlist_row ::
  "(string \<Rightarrow> jsnum) \<Rightarrow> string list \<Rightarrow> nat \<Rightarrow> string list \<Rightarrow> string + (masterlist_entry \<times> bool)" where
  "masterlist_row to_number seenMasterlistNos i cells =
     (if length cells < 7
      then Inl (row_error i (''insufficient fields (got '' @ string_of_nat (length cells) @ '')''))
      else
        let idText = csv_field cells 0;
            masterlistNo = csv_field cells 1;
            email = neutralizeCsvFormula (or_undefined (csv_field cells 2));
            status = js_lower (csv_field cells 6)
        in if idText = [] then Inl (row_error i ''missing id'')
           else if \<not> positive_integer (js_Number to_number idText)
             then Inl (row_error i (''id must be a positive integer, got '' @ quoted idText))
           else if masterlistNo = [] then Inl (row_error i ''missing masterlist_no'')
           else if \<not> masterlist_no_pattern masterlistNo
             then Inl (row_error i (''masterlist_no '' @ quoted masterlistNo
                    @ '' contains unsafe characters (allowed: A-Za-z0-9_- 1-32 chars)''))
           else if masterlistNo \<in> set seenMasterlistNos
             then Inl (row_error i (''duplicate masterlist_no '' @ quoted masterlistNo))
           else if status \<noteq> ''active'' \<and> status \<noteq> ''inactive''
             then Inl (row_error i (''status must be '' @ quoted ''active'' @ '' or '' @ quoted ''inactive''
                    @ '', got '' @ quoted status))
           else if (case email of None \<Rightarrow> False | Some e \<Rightarrow> e \<noteq> [] \<and> \<not> isValidEmail e)
             then Inl (row_error i (''invalid email '' @ quoted (case email of None \<Rightarrow> [] | Some e \<Rightarrow> e)))
           else Inr (\<lparr>me_masterlistNo = masterlistNo, me_email = email,
                      me_phone = neutralizeCsvFormula (or_undefined (csv_field cells 3)),
                      me_dob = neutralizeCsvFormula (or_undefined (csv_field cells 4)),
                      me_country = neutralizeCsvFormula (or_undefined (csv_field cells 5))\<rparr>,
                     status = ''active''))"

fun masterlist_rows ::
  "(string \<Rightarrow> jsnum) \<Rightarrow> string list \<Rightarrow> nat \<Rightarrow> string list \<Rightarrow> string list \<times> masterlist_entry list" where
  "masterlist_rows to_number seenMasterlistNos i [] = ([], [])"
| "masterlist_rows to_number seenMasterlistNos i (line # rows) =
     (case masterlist_row to_number seenMasterlistNos i (parseCsvLine line) of
        Inl e \<Rightarrow> (case masterlist_rows to_number seenMasterlistNos (Suc i) rows of
                   (errors, entries) \<Rightarrow> (e # errors, entries))
      | Inr (entry, active) \<Rightarrow>
          (case masterlist_rows to_number (me_masterlistNo entry # seenMasterlistNos) (Suc i) rows of
             (errors, entries) \<Rightarrow> (errors, if active then entry # entries else entries)))"

definition parseMasterlistCsv :: "(string \<Rightarrow> jsnum) \<Rightarrow> string \<Rightarrow> masterlist_entry list \<times> string list" where
  "parseMasterlistCsv to_number csvContent =
     (case (if js_trim csvContent = [] then [] else non_empty_lines csvContent) of
        [] \<Rightarrow> ([], [''CSV content is empty''])
      | header # rows \<Rightarrow>
          let headerErrors = masterlist_header_errors (map (\<lambda>f. js_lower (js_trim f)) (parseCsvLine header))
          in if headerErrors \<noteq> [] then ([], headerErrors)
             else if rows = [] then ([], [''CSV has no data rows''])
             else case masterlist_rows to_number [] 1 rows of
               (errors, entries) \<Rightarrow>
                 if errors \<noteq> [] then ([], errors)
                 else if entries = [] then ([], [''No eligible rows - all rows are inactive or empty''])
                 else (entries, []))"

section \<open>What an import holds\<close>

text \<open>A text that no spreadsheet reads as a formula.\<close>

definition inert_text :: "string \<Rightarrow> bool" where
  "inert_text s = (s = [] \<or> hd s \<notin> FORMULA_PREFIXES \<and> \<not> invisible_prefix (hd s))"

abbreviation inert_option :: "string option \<Rightarrow> bool" where
  "inert_option v \<equiv> (case v of None \<Rightarrow> True | Some s \<Rightarrow> s \<noteq> [] \<and> inert_text s)"

lemma neutral_inert: "neutralizeCsvFormula v = Some s \<Longrightarrow> inert_text s"
proof -
  assume *: "neutralizeCsvFormula v = Some s"
  then obtain r where v: "v = Some r" by (cases v) (simp_all add: neutralizeCsvFormula_def)
  show ?thesis
  proof (cases "dropWhile invisible_prefix r")
    case Nil
    show ?thesis using * unfolding neutralizeCsvFormula_def v option.case Nil
      by (auto simp: inert_text_def split: if_splits)
  next
    case (Cons c cs)
    then have "\<not> invisible_prefix c" by (metis hd_dropWhile list.distinct(1) list.sel(1))
    with * show ?thesis unfolding neutralizeCsvFormula_def v option.case Cons
      by (auto simp: inert_text_def FORMULA_PREFIXES_def invisible_prefix_def split: if_splits)
  qed
qed

lemma neutral_nonempty: "neutralizeCsvFormula (or_undefined r) = Some s \<Longrightarrow> s \<noteq> []"
  by (auto simp: neutralizeCsvFormula_def or_undefined_def split: if_splits list.splits)

lemma neutral_option: "inert_option (neutralizeCsvFormula (or_undefined r))"
  using neutral_inert neutral_nonempty by (auto split: option.split)

lemma neutral_text: "inert_text (case neutralizeCsvFormula v of None \<Rightarrow> [] | Some e \<Rightarrow> e)"
  using neutral_inert by (auto simp: inert_text_def split: option.split)

definition sound_resident :: "resident_entry \<Rightarrow> bool" where
  "sound_resident r = (positive_integer (re_mastersListNumber r) \<and> isValidEmail (re_email r) \<and> inert_text (re_email r)
     \<and> inert_option (re_phone r) \<and> inert_option (re_name r))"

definition sound_masterlist_entry :: "masterlist_entry \<Rightarrow> bool" where
  "sound_masterlist_entry r = (masterlist_no_pattern (me_masterlistNo r)
     \<and> (case me_email r of None \<Rightarrow> True | Some e \<Rightarrow> isValidEmail e)
     \<and> inert_option (me_email r) \<and> inert_option (me_phone r) \<and> inert_option (me_dob r) \<and> inert_option (me_country r))"

lemma resident_row_sound:
  assumes "resident_row h tn seen i cells = Inr r"
  shows "sound_resident r \<and> re_mastersListNumber r \<notin> set seen"
  using assms by (auto simp: resident_row_def sound_resident_def Let_def neutral_option neutral_text split: if_splits)

lemma resident_rows_sound:
  "resident_rows h tn seen i rows = ([], entries) \<Longrightarrow>
   length entries = length rows \<and> distinct (map re_mastersListNumber entries)
   \<and> re_mastersListNumber ` set entries \<inter> set seen = {} \<and> list_all sound_resident entries"
proof (induction rows arbitrary: seen i entries)
  case Nil
  then show ?case by simp
next
  case (Cons line rows)
  then obtain r rest where r: "resident_row h tn seen i (parseCsvLine line) = Inr r"
    and rest: "resident_rows h tn (re_mastersListNumber r # seen) (Suc i) rows = ([], rest)" "entries = r # rest"
    by (auto split: sum.splits prod.splits)
  from Cons.IH [OF rest(1)] resident_row_sound [OF r] rest(2) show ?case by auto
qed

lemma masterlist_row_sound:
  assumes "masterlist_row tn seen i cells = Inr (r, active)"
  shows "sound_masterlist_entry r \<and> me_masterlistNo r \<notin> set seen"
proof -
  have "inert_option (me_email r)" "inert_option (me_phone r)" "inert_option (me_dob r)" "inert_option (me_country r)"
    using assms by (auto simp: masterlist_row_def Let_def neutral_option split: if_splits)
  with assms show ?thesis
    by (auto simp: masterlist_row_def sound_masterlist_entry_def Let_def split: if_splits option.splits)
qed

lemma masterlist_rows_sound:
  "masterlist_rows tn seen i rows = ([], entries) \<Longrightarrow>
   length entries \<le> length rows \<and> distinct (map me_masterlistNo entries)
   \<and> me_masterlistNo ` set entries \<inter> set seen = {} \<and> list_all sound_masterlist_entry entries"
proof (induction rows arbitrary: seen i entries)
  case Nil
  then show ?case by simp
next
  case (Cons line rows)
  then obtain r active rest where r: "masterlist_row tn seen i (parseCsvLine line) = Inr (r, active)"
    and rest: "masterlist_rows tn (me_masterlistNo r # seen) (Suc i) rows = ([], rest)"
      "entries = (if active then r # rest else rest)"
    by (auto split: sum.splits prod.splits)
  from Cons.IH [OF rest(1)] masterlist_row_sound [OF r] rest(2) show ?case by (auto split: if_splits)
qed

lemma parse_residents_cases:
  obtains (refused) "fst (parseResidentCsv h tn content) = []" "snd (parseResidentCsv h tn content) \<noteq> []"
  | (imported) rows entries where "parseResidentCsv h tn content = (entries, [])"
      "resident_rows h tn [] 1 rows = ([], entries)" "rows = tl (non_empty_lines content)" "rows \<noteq> []"
proof (cases "if js_trim content = [] then [] else non_empty_lines content")
  case Nil
  then show thesis by (intro refused) (simp_all add: parseResidentCsv_def)
next
  case (Cons header rows)
  then have ls: "non_empty_lines content = header # rows" by (simp split: if_splits)
  show thesis
  proof (cases "resident_header (parseCsvLine header) \<and> rows \<noteq> [] \<and> fst (resident_rows h tn [] 1 rows) = []")
    case True
    then obtain entries where "resident_rows h tn [] 1 rows = ([], entries)" by (metis prod.collapse)
    with True Cons ls show thesis by (intro imported [of entries rows]) (simp_all add: parseResidentCsv_def)
  next
    case False
    with Cons show thesis by (intro refused) (auto simp: parseResidentCsv_def split: prod.splits)
  qed
qed

lemma parse_masterlist_cases:
  obtains (refused) "fst (parseMasterlistCsv tn content) = []" "snd (parseMasterlistCsv tn content) \<noteq> []"
  | (imported) rows entries where "parseMasterlistCsv tn content = (entries, [])"
      "masterlist_rows tn [] 1 rows = ([], entries)" "rows = tl (non_empty_lines content)" "entries \<noteq> []"
proof (cases "if js_trim content = [] then [] else non_empty_lines content")
  case Nil
  then show thesis by (intro refused) (simp_all add: parseMasterlistCsv_def)
next
  case (Cons header rows)
  then have ls: "non_empty_lines content = header # rows" by (simp split: if_splits)
  obtain errors entries where run: "masterlist_rows tn [] 1 rows = (errors, entries)" by (metis prod.collapse)
  let ?head = "masterlist_header_errors (map (\<lambda>f. js_lower (js_trim f)) (parseCsvLine header))"
  show thesis
  proof (cases "?head = [] \<and> rows \<noteq> [] \<and> errors = [] \<and> entries \<noteq> []")
    case True
    with Cons ls run show thesis by (intro imported [of entries rows]) (simp_all add: parseMasterlistCsv_def)
  next
    case False
    with Cons run show thesis by (intro refused) (auto simp: parseMasterlistCsv_def Let_def)
  qed
qed

text \<open>The alphabet of the master list admits a leading hyphen, which is one of the formula prefixes.\<close>

lemma masterlist_no_may_start_with_hyphen: "masterlist_no_pattern ''-1'' \<and> CHR ''-'' \<in> FORMULA_PREFIXES"
  by (simp add: masterlist_no_pattern_def masterlist_no_char_def FORMULA_PREFIXES_def is_lower_alnum_def)

end
