(* ===== verification/Otp.thy ===== *)
theory Otp
  imports Pow "HOL-Library.Word"
begin

text \<open>
  The one-time passwords of the residents' admission (\<open>web/src/otpService.ts\<close>): salted hashes, the
  comparison in constant time, and the verifier with its counter of failed attempts.  Bytes are
  \<open>8 word\<close>, the bitwise comparison works on 32-bit integers as JavaScript's does.  The digest
  (\<open>crypto.subtle\<close>) is a parameter from bytes to bytes.

  \<open>verifyOtp\<close> suspends while the digest is computed: it is split into what happens before
  (\<open>verify_start\<close>) and after (\<open>verify_finish\<close>), so that calls can overlap as they do in the
  program; \<open>verifyOtp\<close> itself is a call that nothing interrupts.
\<close>

type_synonym bytes = "8 word list"
type_synonym attempt_tracker = "nat obj"

definition OTP_TTL_MS :: int where "OTP_TTL_MS = 10 * 60 * 1000"

definition ADMISSION_TTL_MS :: int where "ADMISSION_TTL_MS = 24 * 60 * 60 * 1000"

definition MAX_OTP_ATTEMPTS :: nat where "MAX_OTP_ATTEMPTS = 5"

definition MAX_TRACKER_ENTRIES :: nat where "MAX_TRACKER_ENTRIES = 10000"

definition SALT_BYTES :: nat where "SALT_BYTES = 16"

definition resetOtpAttempts :: "string option \<Rightarrow> attempt_tracker \<Rightarrow> attempt_tracker" where
  "resetOtpAttempts storedHash attemptTracker = (case storedHash of
     None \<Rightarrow> [] | Some hash \<Rightarrow> AList.delete hash attemptTracker)"

definition byte_hex :: "8 word \<Rightarrow> string" where
  "byte_hex b = [hex_digit (unat b div 16), hex_digit (unat b mod 16)]"

definition toHex :: "bytes \<Rightarrow> string" where
  "toHex bs = concat (map byte_hex bs)"

text \<open>\<open>(buffer[0] % 1_000_000).toString().padStart(6, "0")\<close>\<close>

definition generateOtp :: "32 word \<Rightarrow> string" where
  "generateOtp random = (let digits = string_of_nat (unat random mod 1000000)
     in replicate (6 - length digits) CHR ''0'' @ digits)"

text \<open>\<open>TextEncoder\<close> on the code units 0 to 255.\<close>

definition utf8 :: "string \<Rightarrow> bytes" where
  "utf8 s = concat (map (\<lambda>c. let n = of_char c :: nat in
     if n < 128 then [word_of_nat n] else [word_of_nat (192 + n div 64), word_of_nat (128 + n mod 64)]) s)"

definition hashOtp :: "(bytes \<Rightarrow> bytes) \<Rightarrow> bytes \<Rightarrow> string \<Rightarrow> string" where
  "hashOtp digest salt otp = toHex salt @ '':'' @ toHex (digest (salt @ utf8 otp))"

text \<open>\<open>a.charCodeAt(i) || 0\<close>\<close>

definition char_code :: "string \<Rightarrow> nat \<Rightarrow> 32 word" where
  "char_code s i = (if i < length s then word_of_nat (of_char (s ! i)) else 0)"

definition constantTimeEqual :: "string \<Rightarrow> string \<Rightarrow> bool" where
  "constantTimeEqual a b =
     (fold (\<lambda>i result. or result (xor (char_code a i) (char_code b i))) [0..<max (length a) (length b)]
        (xor (word_of_nat (length a)) (word_of_nat (length b))) = (0 :: 32 word))"

text \<open>
  \<open>parseInt(s, 16)\<close>: leading white space, a sign and \<open>0x\<close> are skipped, then the longest run of
  digits counts; without one the result is \<open>NaN\<close>, which a byte array stores as 0.
\<close>

definition strip_sign :: "string \<Rightarrow> bool \<times> string" where
  "strip_sign s = (case s of [] \<Rightarrow> (False, [])
     | c # cs \<Rightarrow> if c = CHR ''-'' then (True, cs) else if c = CHR ''+'' then (False, cs) else (False, s))"

definition strip_0x :: "string \<Rightarrow> string" where
  "strip_0x s = (if take 2 s \<in> {''0x'', ''0X''} then drop 2 s else s)"

definition parse_int16 :: "string \<Rightarrow> int" where
  "parse_int16 s =
     (let (negative, rest) = strip_sign (dropWhile js_ws s);
          digits = takeWhile (\<lambda>c. parse_nibble c \<noteq> None) (strip_0x rest);
          value = foldl (\<lambda>n c. 16 * n + int (the (parse_nibble c))) 0 digits
      in if negative then - value else value)"

text \<open>\<open>s.match(/.{2}/g)\<close>: pairs of characters, neither of them a line break.\<close>

fun hex_pairs :: "string \<Rightarrow> string list" where
  "hex_pairs (c # d # s) =
     (if c \<in> {CHR 0x0A, CHR 0x0D} \<or> d \<in> {CHR 0x0A, CHR 0x0D} then hex_pairs (d # s) else [c, d] # hex_pairs s)"
| "hex_pairs _ = []"

definition salt_bytes :: "string \<Rightarrow> bytes" where
  "salt_bytes saltHex = map (\<lambda>hex. word_of_int (parse_int16 hex)) (hex_pairs saltHex)"

section \<open>Verifying\<close>

record otp_call =
  oc_otp :: string
  oc_storedHash :: string
  oc_attempts :: nat

datatype otp_start = Refused_at_once | Hashing otp_call

definition verify_start :: "attempt_tracker \<Rightarrow> string \<Rightarrow> string \<Rightarrow> otp_start" where
  "verify_start attemptTracker otp storedHash =
     (let attempts = (case obj_get attemptTracker storedHash of None \<Rightarrow> 0 | Some n \<Rightarrow> n)
      in if attempts \<ge> MAX_OTP_ATTEMPTS then Refused_at_once
         else if CHR '':'' \<notin> set storedHash then Refused_at_once
         else Hashing \<lparr>oc_otp = otp, oc_storedHash = storedHash, oc_attempts = attempts\<rparr>)"

definition otp_matches :: "(bytes \<Rightarrow> bytes) \<Rightarrow> string \<Rightarrow> string \<Rightarrow> bool" where
  "otp_matches digest otp storedHash =
     (let saltHex = takeWhile (\<lambda>c. c \<noteq> CHR '':'') storedHash;
          expectedHashHex = drop (Suc (length saltHex)) storedHash
      in constantTimeEqual (toHex (digest (salt_bytes saltHex @ utf8 otp))) expectedHashHex)"

definition evict_oldest :: "attempt_tracker \<Rightarrow> attempt_tracker" where
  "evict_oldest attemptTracker =
     (if length attemptTracker > MAX_TRACKER_ENTRIES then tl attemptTracker else attemptTracker)"

definition verify_finish :: "(bytes \<Rightarrow> bytes) \<Rightarrow> otp_call \<Rightarrow> attempt_tracker \<Rightarrow> bool \<times> attempt_tracker" where
  "verify_finish digest call attemptTracker =
     (if otp_matches digest (oc_otp call) (oc_storedHash call)
      then (True, AList.delete (oc_storedHash call) attemptTracker)
      else (False, evict_oldest (obj_set (oc_storedHash call) (oc_attempts call + 1) attemptTracker)))"

definition verifyOtp :: "(bytes \<Rightarrow> bytes) \<Rightarrow> attempt_tracker \<Rightarrow> string \<Rightarrow> string \<Rightarrow> bool \<times> attempt_tracker" where
  "verifyOtp digest attemptTracker otp storedHash = (case verify_start attemptTracker otp storedHash of
     Refused_at_once \<Rightarrow> (False, attemptTracker)
   | Hashing call \<Rightarrow> verify_finish digest call attemptTracker)"

fun num_add :: "jsnum \<Rightarrow> jsnum \<Rightarrow> jsnum" where
  "num_add (Fin a) (Fin b) = Fin (a + b)"
| "num_add NaN _ = NaN"
| "num_add _ NaN = NaN"
| "num_add PosInf NegInf = NaN"
| "num_add NegInf PosInf = NaN"
| "num_add PosInf _ = PosInf"
| "num_add _ PosInf = PosInf"
| "num_add NegInf _ = NegInf"
| "num_add _ NegInf = NegInf"

definition isOtpExpired :: "jsnum \<Rightarrow> jsnum \<Rightarrow> jsnum option \<Rightarrow> bool" where
  "isOtpExpired now issuedAt ttlMs =
     num_lt (num_add issuedAt (case ttlMs of None \<Rightarrow> num_int OTP_TTL_MS | Some t \<Rightarrow> t)) now"

section \<open>Hexadecimal text\<close>

lemma of_char_hex_digit: "n < 16 \<Longrightarrow> (of_char (hex_digit n) :: nat) = (if n < 10 then 48 + n else 87 + n)"
  by (simp add: hex_digit_def)

lemma hex_digit_not:
  assumes "n < 16" and "(of_char c :: nat) < 48 \<or> (57 < (of_char c :: nat) \<and> (of_char c :: nat) < 97) \<or> 102 < (of_char c :: nat)"
  shows "hex_digit n \<noteq> c"
  using assms of_char_hex_digit [OF assms(1)] by (auto split: if_splits)

lemma hex_digit_facts:
  assumes "n < 16"
  shows "parse_nibble (hex_digit n) = Some n" and "\<not> js_ws (hex_digit n)"
    and "hex_digit n \<notin> set ''+-xX:''" and "hex_digit n \<noteq> CHR 0x0A" and "hex_digit n \<noteq> CHR 0x0D"
proof -
  show "parse_nibble (hex_digit n) = Some n"
    using assms by (simp add: parse_nibble_def Let_def of_char_hex_digit)
qed (use hex_digit_not [OF assms] in \<open>simp_all add: js_ws_def\<close>)

lemma hex_pair_value: "n < 256 \<Longrightarrow> parse_int16 [hex_digit (n div 16), hex_digit (n mod 16)] = int n"
proof -
  assume "n < 256"
  then have hi: "n div 16 < 16" by simp
  have lo: "n mod 16 < 16" by simp
  have "parse_int16 [hex_digit (n div 16), hex_digit (n mod 16)] = 16 * int (n div 16) + int (n mod 16)"
    using hex_digit_facts [OF hi] hex_digit_facts [OF lo]
    by (simp add: parse_int16_def strip_sign_def strip_0x_def)
  also have "\<dots> = int (16 * (n div 16) + n mod 16)" by (simp only: of_nat_add of_nat_mult of_nat_numeral)
  finally show ?thesis by (simp only: mult_div_mod_eq)
qed

lemma unat_byte [simp]: "unat (b :: 8 word) < 256"
  using unsigned_less [of b] by simp

lemma byte_hex_plain: "c \<in> set (byte_hex b) \<Longrightarrow> c \<notin> {CHR 0x0A, CHR 0x0D, CHR '':''}"
proof -
  have hi: "unat b div 16 < 16" using unat_byte [of b] by (simp add: less_mult_imp_div_less)
  have lo: "unat b mod 16 < 16" by simp
  assume "c \<in> set (byte_hex b)"
  with hex_digit_facts [OF hi] hex_digit_facts [OF lo] show ?thesis by (auto simp: byte_hex_def)
qed

lemma salt_round_trip [simp]: "salt_bytes (toHex bs) = bs"
proof (induction bs)
  case Nil
  then show ?case by (simp add: salt_bytes_def toHex_def)
next
  case (Cons b bs)
  have "hex_pairs (byte_hex b @ s) = byte_hex b # hex_pairs s" for s
    using byte_hex_plain [of _ b] by (simp add: byte_hex_def)
  moreover have "word_of_int (parse_int16 (byte_hex b)) = b"
    by (simp add: byte_hex_def hex_pair_value)
  ultimately show ?case using Cons by (simp add: salt_bytes_def toHex_def)
qed

lemma toHex_plain: "CHR '':'' \<notin> set (toHex bs)"
  using byte_hex_plain by (auto simp: toHex_def)

lemma toHex_inject [simp]: "toHex as = toHex bs \<longleftrightarrow> as = bs"
  by (metis salt_round_trip)

lemma length_toHex [simp]: "length (toHex bs) = 2 * length bs"
  by (induction bs) (simp_all add: toHex_def byte_hex_def)

end
