(* ===== verification/Otp_Safety.thy ===== *)
theory Otp_Safety
  imports Otp
begin

text \<open>
  What the verifier of \<open>Otp\<close> guarantees.  The comparison decides equality; a hash accepts the
  password it was made from; uninterrupted calls evaluate at most five wrong guesses of one hash.
  The step relation \<open>otp_step\<close> lets calls overlap, as the suspended calls of the program do.
\<close>

section \<open>The comparison\<close>

lemma xor_zero_iff: "xor a b = (0 :: 32 word) \<longleftrightarrow> a = b"
  by (metis bit.xor_left_self xor.right_neutral bit.xor_self)

lemma fold_or_zero:
  "fold (\<lambda>i result. or result (f i)) xs r = (0 :: 32 word) \<longleftrightarrow> r = 0 \<and> (\<forall>i\<in>set xs. f i = 0)"
  by (induction xs arbitrary: r) (auto simp: or_eq_0_iff)

lemma char_code_inject:
  assumes "i < length a" "i < length b"
  shows "char_code a i = char_code b i \<longleftrightarrow> a ! i = b ! i"
proof -
  have small: "unat (word_of_nat (of_char c) :: 32 word) = of_char c" for c :: char
  proof -
    have "of_char c < (256 :: nat)" by simp
    then have "of_char c < (4294967296 :: nat)" by linarith
    then show ?thesis by (simp add: unat_of_nat)
  qed
  have "char_code a i = char_code b i \<longleftrightarrow> (of_char (a ! i) :: nat) = of_char (b ! i)"
    unfolding char_code_def using assms by (simp add: word_unat_eq_iff small)
  then show ?thesis by (simp add: of_char_eq_iff)
qed

lemma constantTimeEqual_iff:
  assumes "length a < 2 ^ 32" "length b < 2 ^ 32"
  shows "constantTimeEqual a b \<longleftrightarrow> a = b"
proof -
  have len: "(word_of_nat (length a) :: 32 word) = word_of_nat (length b) \<longleftrightarrow> length a = length b"
    using assms by (simp add: word_unat_eq_iff unat_of_nat)
  have "constantTimeEqual a b \<longleftrightarrow> length a = length b
      \<and> (\<forall>i<max (length a) (length b). char_code a i = char_code b i)"
    by (auto simp: constantTimeEqual_def fold_or_zero xor_zero_iff len)
  also have "\<dots> \<longleftrightarrow> a = b"
    using char_code_inject [of _ a b] by (auto simp: list_eq_iff_nth_eq)
  finally show ?thesis .
qed

section \<open>A hash accepts its password\<close>

lemma hash_parts:
  "takeWhile (\<lambda>c. c \<noteq> CHR '':'') (toHex salt @ '':'' @ rest) = toHex salt"
  using toHex_plain [of salt] by (induction "toHex salt" arbitrary: salt rule: rev_induct)
    (auto simp: takeWhile_append)

lemma matches_own_hash:
  assumes "\<And>m. length (digest m) = 32"
  shows "otp_matches digest otp' (hashOtp digest salt otp) \<longleftrightarrow> digest (salt @ utf8 otp') = digest (salt @ utf8 otp)"
proof -
  have "otp_matches digest otp' (hashOtp digest salt otp)
      \<longleftrightarrow> constantTimeEqual (toHex (digest (salt @ utf8 otp'))) (toHex (digest (salt @ utf8 otp)))"
    using hash_parts [of salt "toHex (digest (salt @ utf8 otp))"] by (simp add: otp_matches_def hashOtp_def)
  also have "\<dots> \<longleftrightarrow> digest (salt @ utf8 otp') = digest (salt @ utf8 otp)"
    by (subst constantTimeEqual_iff) (simp_all add: assms)
  finally show ?thesis .
qed

lemma own_hash_colon: "CHR '':'' \<in> set (hashOtp digest salt otp)"
  by (simp add: hashOtp_def)

lemma fst_verifyOtp:
  "fst (verifyOtp digest t otp hash) \<longleftrightarrow>
     (case obj_get t hash of None \<Rightarrow> True | Some n \<Rightarrow> n < MAX_OTP_ATTEMPTS)
     \<and> CHR '':'' \<in> set hash \<and> otp_matches digest otp hash"
  by (auto simp: verifyOtp_def verify_start_def verify_finish_def Let_def MAX_OTP_ATTEMPTS_def
      split: option.splits if_splits)

section \<open>Uninterrupted calls\<close>

text \<open>What a call comes to: refused without a look at the password, or looked at.\<close>

datatype otp_outcome = Refused | Matched | Mismatched

datatype otp_op = Verify string string | Reset "string option"

fun otp_verdict :: "(bytes \<Rightarrow> bytes) \<Rightarrow> attempt_tracker \<Rightarrow> otp_op \<Rightarrow> otp_outcome option" where
  "otp_verdict digest t (Verify otp hash) = Some (case verify_start t otp hash of
     Refused_at_once \<Rightarrow> Refused
   | Hashing call \<Rightarrow> if otp_matches digest otp hash then Matched else Mismatched)"
| "otp_verdict digest t (Reset hash) = None"

fun otp_apply :: "(bytes \<Rightarrow> bytes) \<Rightarrow> otp_op \<Rightarrow> attempt_tracker \<Rightarrow> attempt_tracker" where
  "otp_apply digest (Verify otp hash) t = snd (verifyOtp digest t otp hash)"
| "otp_apply digest (Reset hash) t = resetOtpAttempts hash t"

fun otp_run :: "(bytes \<Rightarrow> bytes) \<Rightarrow> otp_op list \<Rightarrow> attempt_tracker \<Rightarrow> attempt_tracker" where
  "otp_run digest [] t = t"
| "otp_run digest (op # ops) t = otp_run digest ops (otp_apply digest op t)"

text \<open>The wrong guesses of one hash that were evaluated since it last matched or was reset.\<close>

fun wrong_guesses :: "(bytes \<Rightarrow> bytes) \<Rightarrow> string \<Rightarrow> otp_op list \<Rightarrow> attempt_tracker \<Rightarrow> nat \<Rightarrow> nat" where
  "wrong_guesses digest hash [] t n = n"
| "wrong_guesses digest hash (op # ops) t n = wrong_guesses digest hash ops (otp_apply digest op t)
     (case op of
        Verify otp hash' \<Rightarrow> (if hash' \<noteq> hash then n else case otp_verdict digest t op of
           Some Matched \<Rightarrow> 0 | Some Mismatched \<Rightarrow> Suc n | _ \<Rightarrow> n)
      | Reset None \<Rightarrow> 0
      | Reset (Some hash') \<Rightarrow> if hash' = hash then 0 else n)"

fun op_hashes :: "otp_op list \<Rightarrow> string set" where
  "op_hashes [] = {}"
| "op_hashes (Verify otp hash # ops) = insert hash (op_hashes ops)"
| "op_hashes (Reset hash # ops) = op_hashes ops"

definition attempts_of :: "attempt_tracker \<Rightarrow> string \<Rightarrow> nat" where
  "attempts_of t hash = (case obj_get t hash of None \<Rightarrow> 0 | Some n \<Rightarrow> n)"

text \<open>The tracker within its capacity: no entry is evicted.\<close>

definition tracker_ok :: "string set \<Rightarrow> attempt_tracker \<Rightarrow> bool" where
  "tracker_ok hashes t \<longleftrightarrow> distinct (map fst t) \<and> fst ` set t \<subseteq> hashes
     \<and> (\<forall>hash. attempts_of t hash \<le> MAX_OTP_ATTEMPTS)"

lemma finite_op_hashes [simp]: "finite (op_hashes ops)"
  by (induction ops rule: op_hashes.induct) auto

lemma attempts_of_simps [simp]:
  "attempts_of (obj_set k n t) hash = (if hash = k then n else attempts_of t hash)"
  "attempts_of (AList.delete k t) hash = (if hash = k then 0 else attempts_of t hash)"
  "attempts_of [] hash = 0"
  by (auto simp: attempts_of_def delete_conv')

lemma set_obj_set: "fst ` set (obj_set k v t) = insert k (fst ` set t)"
  by (auto simp: update_keys simp flip: set_map)

lemma within_capacity:
  assumes "distinct (map fst t)" "fst ` set t \<subseteq> hashes" "finite hashes" "card hashes \<le> MAX_TRACKER_ENTRIES"
  shows "evict_oldest t = t"
proof -
  have "length t = card (fst ` set t)" using assms(1) by (metis distinct_card length_map list.set_map)
  also have "\<dots> \<le> card hashes" using assms by (simp add: card_mono)
  finally show ?thesis using assms(4) by (simp add: evict_oldest_def)
qed

lemma verify_cases:
  assumes ok: "tracker_ok hashes t" and cap: "finite hashes" "card hashes \<le> MAX_TRACKER_ENTRIES" "hash \<in> hashes"
  shows "tracker_ok hashes (snd (verifyOtp digest t otp hash))"
    and "attempts_of (snd (verifyOtp digest t otp hash)) hash' =
      (if hash' \<noteq> hash then attempts_of t hash' else case otp_verdict digest t (Verify otp hash) of
         Some Matched \<Rightarrow> 0 | Some Mismatched \<Rightarrow> Suc (attempts_of t hash) | _ \<Rightarrow> attempts_of t hash)"
proof -
  have set: "evict_oldest (obj_set hash n t) = obj_set hash n t" for n
  proof (rule within_capacity)
    show "distinct (map fst (obj_set hash n t))" using ok by (simp add: tracker_ok_def distinct_obj_set)
    show "fst ` set (obj_set hash n t) \<subseteq> hashes" using ok cap(3) by (auto simp: tracker_ok_def set_obj_set)
  qed (use cap in simp_all)
  consider (refused) "verify_start t otp hash = Refused_at_once"
    | (hashing) "verify_start t otp hash = Hashing \<lparr>oc_otp = otp, oc_storedHash = hash, oc_attempts = attempts_of t hash\<rparr>"
        "attempts_of t hash < MAX_OTP_ATTEMPTS"
    unfolding verify_start_def attempts_of_def [symmetric] Let_def
    by (cases "MAX_OTP_ATTEMPTS \<le> attempts_of t hash"; cases "CHR '':'' \<in> set hash") auto
  then have "tracker_ok hashes (snd (verifyOtp digest t otp hash))
      \<and> attempts_of (snd (verifyOtp digest t otp hash)) hash' =
      (if hash' \<noteq> hash then attempts_of t hash' else case otp_verdict digest t (Verify otp hash) of
         Some Matched \<Rightarrow> 0 | Some Mismatched \<Rightarrow> Suc (attempts_of t hash) | _ \<Rightarrow> attempts_of t hash)"
  proof cases
    case refused
    with ok show ?thesis by (simp add: verifyOtp_def)
  next
    case hashing
    have del: "tracker_ok hashes (AList.delete hash t)"
      using ok dom_delete_subset [of hash t] by (auto simp: tracker_ok_def distinct_delete)
    have upd: "tracker_ok hashes (obj_set hash (Suc (attempts_of t hash)) t)"
      using ok cap(3) hashing(2) by (auto simp: tracker_ok_def distinct_obj_set set_obj_set)
    show ?thesis
      using hashing(1) del upd by (simp add: verifyOtp_def verify_finish_def set)
  qed
  then show "tracker_ok hashes (snd (verifyOtp digest t otp hash))"
    and "attempts_of (snd (verifyOtp digest t otp hash)) hash' =
      (if hash' \<noteq> hash then attempts_of t hash' else case otp_verdict digest t (Verify otp hash) of
         Some Matched \<Rightarrow> 0 | Some Mismatched \<Rightarrow> Suc (attempts_of t hash) | _ \<Rightarrow> attempts_of t hash)"
    by blast+
qed

lemma reset_ok: "tracker_ok hashes t \<Longrightarrow> tracker_ok hashes (resetOtpAttempts hash t)"
proof (cases hash)
  case (Some k)
  assume "tracker_ok hashes t"
  with Some dom_delete_subset [of k t] show ?thesis by (auto simp: resetOtpAttempts_def tracker_ok_def distinct_delete)
qed (simp add: resetOtpAttempts_def tracker_ok_def)

lemma attempts_reset: "attempts_of (resetOtpAttempts hash' t) hash
    = (case hash' of None \<Rightarrow> 0 | Some k \<Rightarrow> if k = hash then 0 else attempts_of t hash)"
  by (auto simp: resetOtpAttempts_def split: option.split)

lemma otp_run_counts:
  assumes "tracker_ok hashes t" "finite hashes" "card hashes \<le> MAX_TRACKER_ENTRIES" "op_hashes ops \<subseteq> hashes"
  shows "tracker_ok hashes (otp_run digest ops t)
     \<and> attempts_of (otp_run digest ops t) hash = wrong_guesses digest hash ops t (attempts_of t hash)"
  using assms(1,4)
proof (induction ops arbitrary: t)
  case Nil
  then show ?case by simp
next
  case (Cons op ops)
  show ?case
  proof (cases op)
    case (Verify otp hash')
    with Cons.prems have "hash' \<in> hashes" "op_hashes ops \<subseteq> hashes" by simp_all
    with Cons.IH [of "otp_apply digest op t"] verify_cases [OF Cons.prems(1) assms(2,3), of hash' digest otp] Verify
    show ?thesis by (auto split: option.splits otp_outcome.splits)
  next
    case (Reset hash')
    with Cons.IH [of "otp_apply digest op t"] reset_ok [OF Cons.prems(1), of hash'] Cons.prems(2)
    show ?thesis by (auto simp: attempts_reset split: option.splits)
  qed
qed

lemma tracker_ok_empty: "tracker_ok hashes []"
  by (simp add: tracker_ok_def)

text \<open>A full tracker forgets its oldest entry, exhausted or not.\<close>

lemma full_tracker_forgets:
  assumes "t = (hash, n) # rest" "length t = MAX_TRACKER_ENTRIES" "distinct (map fst t)" "hash' \<notin> fst ` set t"
    "CHR '':'' \<in> set hash'" "\<not> otp_matches digest otp hash'"
  shows "attempts_of (snd (verifyOtp digest t otp hash')) hash = 0"
proof -
  have get: "obj_get t hash' = None" using assms(4) by (metis map_of_eq_None_iff)
  have new: "length (obj_set hash' v t) = Suc (length t)" for v
    using assms(4) by (induction t) (auto split: if_splits)
  have upd: "obj_set hash' (Suc 0) t = (hash, n) # obj_set hash' (Suc 0) rest" using assms(1,4) by auto
  have "hash \<notin> fst ` set (obj_set hash' (Suc 0) rest)" using assms(1,3,4) by (auto simp: set_obj_set)
  then have gone: "obj_get (obj_set hash' (Suc 0) rest) hash = None" unfolding map_of_eq_None_iff .
  have "snd (verifyOtp digest t otp hash') = evict_oldest (obj_set hash' (Suc 0) t)"
    using assms(5,6) get by (simp add: verifyOtp_def verify_start_def verify_finish_def MAX_OTP_ATTEMPTS_def)
  also have "\<dots> = obj_set hash' (Suc 0) rest"
    using new [of "Suc 0"] assms(2) unfolding evict_oldest_def upd by simp
  finally show ?thesis using gone by (simp add: attempts_of_def)
qed

section \<open>Overlapping calls\<close>

record otp_system =
  os_tracker :: attempt_tracker
  os_pending :: "otp_call list"
  os_outcomes :: "(otp_call \<times> bool) list"

inductive otp_step :: "(bytes \<Rightarrow> bytes) \<Rightarrow> otp_system \<Rightarrow> otp_system \<Rightarrow> bool" for digest where
  begin_call: "verify_start (os_tracker s) otp hash = Hashing call
     \<Longrightarrow> otp_step digest s (s\<lparr>os_pending := os_pending s @ [call]\<rparr>)"
| end_call: "os_pending s = before @ call # after \<Longrightarrow> verify_finish digest call (os_tracker s) = (ok, t)
     \<Longrightarrow> otp_step digest s (s\<lparr>os_tracker := t, os_pending := before @ after, os_outcomes := os_outcomes s @ [(call, ok)]\<rparr>)"

abbreviation otp_steps :: "(bytes \<Rightarrow> bytes) \<Rightarrow> otp_system \<Rightarrow> otp_system \<Rightarrow> bool" where
  "otp_steps digest \<equiv> (otp_step digest)\<^sup>*\<^sup>*"

definition fresh_call :: "string \<Rightarrow> string \<Rightarrow> otp_call" where
  "fresh_call hash otp = \<lparr>oc_otp = otp, oc_storedHash = hash, oc_attempts = 0\<rparr>"

definition otp_idle :: otp_system where
  "otp_idle = \<lparr>os_tracker = [], os_pending = [], os_outcomes = []\<rparr>"

lemma begin_all:
  assumes "CHR '':'' \<in> set hash"
  shows "otp_steps digest \<lparr>os_tracker = [], os_pending = ps, os_outcomes = os\<rparr>
     \<lparr>os_tracker = [], os_pending = ps @ map (fresh_call hash) guesses, os_outcomes = os\<rparr>"
proof (induction guesses arbitrary: ps)
  case Nil
  then show ?case by simp
next
  case (Cons otp guesses)
  have "verify_start [] otp hash = Hashing (fresh_call hash otp)"
    using assms by (simp add: verify_start_def fresh_call_def MAX_OTP_ATTEMPTS_def)
  then have "otp_step digest \<lparr>os_tracker = [], os_pending = ps, os_outcomes = os\<rparr>
      \<lparr>os_tracker = [], os_pending = ps @ [fresh_call hash otp], os_outcomes = os\<rparr>"
    using otp_step.begin_call [of "\<lparr>os_tracker = [], os_pending = ps, os_outcomes = os\<rparr>"] by simp
  with Cons.IH [of "ps @ [fresh_call hash otp]"] show ?case by (simp add: converse_rtranclp_into_rtranclp)
qed

lemma end_all:
  assumes "list_all (\<lambda>otp. \<not> otp_matches digest otp hash) guesses" "t = [] \<or> t = [(hash, 1)]"
  shows "otp_steps digest \<lparr>os_tracker = t, os_pending = map (fresh_call hash) guesses, os_outcomes = os\<rparr>
     \<lparr>os_tracker = (if guesses = [] then t else [(hash, 1)]), os_pending = [],
      os_outcomes = os @ map (\<lambda>otp. (fresh_call hash otp, False)) guesses\<rparr>"
  using assms
proof (induction guesses arbitrary: t os)
  case Nil
  then show ?case by simp
next
  case (Cons otp guesses)
  have "verify_finish digest (fresh_call hash otp) t = (False, [(hash, 1)])"
    using Cons.prems by (auto simp: verify_finish_def fresh_call_def evict_oldest_def MAX_TRACKER_ENTRIES_def)
  then have "otp_step digest \<lparr>os_tracker = t, os_pending = map (fresh_call hash) (otp # guesses), os_outcomes = os\<rparr>
      \<lparr>os_tracker = [(hash, 1)], os_pending = map (fresh_call hash) guesses, os_outcomes = os @ [(fresh_call hash otp, False)]\<rparr>"
    using otp_step.end_call [of "\<lparr>os_tracker = t, os_pending = map (fresh_call hash) (otp # guesses), os_outcomes = os\<rparr>"
        "[]" "fresh_call hash otp" "map (fresh_call hash) guesses"] by simp
  with Cons.IH [of "[(hash, 1)]" "os @ [(fresh_call hash otp, False)]"] Cons.prems
  show ?case by (simp add: converse_rtranclp_into_rtranclp split: if_splits)
qed

lemma overlapping_guesses:
  assumes "CHR '':'' \<in> set hash" "list_all (\<lambda>otp. \<not> otp_matches digest otp hash) guesses" "guesses \<noteq> []"
  shows "otp_steps digest otp_idle \<lparr>os_tracker = [(hash, 1)], os_pending = [],
     os_outcomes = map (\<lambda>otp. (fresh_call hash otp, False)) guesses\<rparr>"
  using rtranclp_trans [OF begin_all [OF assms(1), of digest "[]" "[]" guesses, unfolded append_Nil]
      end_all [OF assms(2), of "[]" "[]"]] assms(3)
  by (simp add: otp_idle_def)

end
