(* ===== verification/Worker_Delegation.thy ===== *)
theory Worker_Delegation
  imports OptionA_Types
begin

text \<open>
  Delegating work to a helper process (\<open>web/src/questionnaireWorkerDelegation.ts\<close> and
  \<open>web/src/questionnaireWorkerRouting.ts\<close>): the stored delegation of an election, which certificate
  is used, the version numbers of its configuration, and the routing of blind-token requests.  The
  store in \<open>localStorage\<close> is the dictionary it holds, an argument and a result of the operations;
  the clock is an argument, in milliseconds and as ISO text.  Version numbers come from the clock and
  from counting, they are integers.
\<close>

datatype worker_capability =
    IssueBlindTokens | VerifyPublicSubmissions | PublishSubmissionDecisions | CloseQuestionnaire
  | PublishResultSummary | QueuePrivateSubmissions | ReportPrivateProgress | ReleaseSubmissionBatches

record delegation_certificate =
  wd_delegationId :: string
  wd_electionId :: string
  wd_coordinatorNpub :: string
  wd_workerNpub :: string
  wd_capabilities :: "worker_capability list"
  wd_controlRelays :: "string list"
  wd_dmRelays :: "string list option"
  wd_issuedAt :: string
  wd_expiresAt :: string

record delegation_revocation =
  wv_delegationId :: string
  wv_electionId :: string
  wv_coordinatorNpub :: string
  wv_workerNpub :: string
  wv_revokedAt :: string
  wv_reason :: "string option"

datatype worker_mode = BrowserOnly | DelegatedWorker

record stored_delegation =
  sd_electionId :: string
  sd_mode :: worker_mode
  sd_activeDelegation :: "delegation_certificate option"
  sd_lastRevocation :: "delegation_revocation option"
  sd_lastUpdatedAt :: string
  sd_lastConfigVersion :: "int option"
  sd_lastConfigSyncKey :: "string option"

type_synonym delegation_store = "stored_delegation obj"

text \<open>\<open>x?.activeDelegation?.delegationId\<close> and \<open>x?.lastRevocation?.delegationId\<close>.\<close>

definition active_id :: "stored_delegation option \<Rightarrow> string option" where
  "active_id stored = map_option wd_delegationId (Option.bind stored sd_activeDelegation)"

definition revoked_id :: "stored_delegation option \<Rightarrow> string option" where
  "revoked_id stored = map_option wv_delegationId (Option.bind stored sd_lastRevocation)"

definition loadStoredWorkerDelegation :: "delegation_store \<Rightarrow> string \<Rightarrow> stored_delegation option" where
  "loadStoredWorkerDelegation store electionId =
     (if js_trim electionId = [] then None else obj_get store (js_trim electionId))"

definition delegation_valid ::
  "host \<Rightarrow> string \<Rightarrow> stored_delegation option \<Rightarrow> jsnum \<Rightarrow> delegation_certificate \<Rightarrow> bool" where
  "delegation_valid h electionId stored nowMs delegation =
     (wd_electionId delegation = electionId
      \<and> num_isFinite (host_dateParse h (wd_expiresAt delegation))
      \<and> num_lt nowMs (host_dateParse h (wd_expiresAt delegation))
      \<and> revoked_id stored \<noteq> Some (wd_delegationId delegation))"

definition filter_opt :: "('a \<Rightarrow> bool) \<Rightarrow> 'a option \<Rightarrow> 'a option" where
  "filter_opt P v = (case v of Some x \<Rightarrow> if P x then Some x else None | None \<Rightarrow> None)"

definition selectWorkerDelegationForConfig ::
  "host \<Rightarrow> string \<Rightarrow> delegation_certificate option \<Rightarrow> stored_delegation option \<Rightarrow> jsnum
     \<Rightarrow> delegation_certificate option" where
  "selectWorkerDelegationForConfig h electionIdText selectedDelegation stored nowMs =
     (let electionId = js_trim electionIdText;
          valid = delegation_valid h electionId stored nowMs;
          storedActive = (case stored of
             Some st \<Rightarrow> if sd_mode st = DelegatedWorker then filter_opt valid (sd_activeDelegation st) else None
           | None \<Rightarrow> None);
          selected = filter_opt valid selectedDelegation
      in if storedActive \<noteq> None \<and> map_option wd_delegationId selected \<noteq> map_option wd_delegationId storedActive
         then storedActive else coalesce selected storedActive)"

text \<open>The stored entry keeps its active certificate when the update has none and does not revoke it.\<close>

definition preserves_active :: "stored_delegation option \<Rightarrow> stored_delegation \<Rightarrow> bool" where
  "preserves_active existing update =
     (active_id existing \<noteq> None \<and> sd_activeDelegation update = None \<and> revoked_id (Some update) \<noteq> active_id existing)"

definition older_certificate :: "host \<Rightarrow> stored_delegation option \<Rightarrow> stored_delegation \<Rightarrow> bool" where
  "older_certificate h existing update = (case (Option.bind existing sd_activeDelegation, sd_activeDelegation update) of
     (Some old, Some new) \<Rightarrow>
        wd_delegationId old \<noteq> wd_delegationId new
        \<and> num_isFinite (host_dateParse h (wd_issuedAt old)) \<and> num_isFinite (host_dateParse h (wd_issuedAt new))
        \<and> num_lt (host_dateParse h (wd_issuedAt new)) (host_dateParse h (wd_issuedAt old))
   | _ \<Rightarrow> False)"

definition upsertStoredWorkerDelegation ::
  "host \<Rightarrow> string \<Rightarrow> stored_delegation \<Rightarrow> delegation_store \<Rightarrow> stored_delegation option \<times> delegation_store" where
  "upsertStoredWorkerDelegation h nowIso update store =
     (let electionId = js_trim (sd_electionId update);
          existing = obj_get store electionId;
          updatedAt = (if sd_lastUpdatedAt update = [] then nowIso else sd_lastUpdatedAt update)
      in if electionId = [] then (None, store)
         else if preserves_active existing update then
           let old = the existing;
               next = update\<lparr>sd_electionId := electionId, sd_mode := sd_mode old,
                 sd_activeDelegation := sd_activeDelegation old, sd_lastUpdatedAt := updatedAt,
                 sd_lastConfigSyncKey := sd_lastConfigSyncKey old, sd_lastConfigVersion := sd_lastConfigVersion old\<rparr>
           in (Some next, obj_set electionId next store)
         else if older_certificate h existing update then (existing, store)
         else
           let same = (active_id existing = active_id (Some update));
               next = update\<lparr>sd_electionId := electionId, sd_lastUpdatedAt := updatedAt,
                 sd_lastConfigSyncKey := coalesce (sd_lastConfigSyncKey update)
                   (if same then Option.bind existing sd_lastConfigSyncKey else None),
                 sd_lastConfigVersion := (if same then Option.bind existing sd_lastConfigVersion else None)\<rparr>
           in (Some next, obj_set electionId next store))"

text \<open>The entry rebuilt from the certificate at hand when the store has lost it.\<close>

definition recovered_delegation ::
  "int \<Rightarrow> string \<Rightarrow> string \<Rightarrow> string \<Rightarrow> delegation_certificate option \<Rightarrow> stored_delegation option
     \<Rightarrow> stored_delegation option" where
  "recovered_delegation nowMs nowIso electionId delegationId recovery current = (case recovery of
     None \<Rightarrow> current
   | Some certificate \<Rightarrow>
       if active_id current = None \<and> wd_electionId certificate = electionId \<and> wd_delegationId certificate = delegationId
          \<and> revoked_id current \<noteq> Some delegationId
       then Some \<lparr>sd_electionId = electionId, sd_mode = DelegatedWorker, sd_activeDelegation = Some certificate,
              sd_lastRevocation = Option.bind current sd_lastRevocation, sd_lastUpdatedAt = nowIso,
              sd_lastConfigVersion = Some (max nowMs (case Option.bind current sd_lastConfigVersion of
                 None \<Rightarrow> 0 | Some v \<Rightarrow> v)),
              sd_lastConfigSyncKey = None\<rparr>
       else current)"

definition nextWorkerElectionConfigVersion ::
  "int \<Rightarrow> string \<Rightarrow> string \<Rightarrow> string \<Rightarrow> delegation_certificate option \<Rightarrow> delegation_store
     \<Rightarrow> int option \<times> delegation_store" where
  "nextWorkerElectionConfigVersion nowMs nowIso electionIdText delegationIdText recovery store =
     (let electionId = js_trim electionIdText;
          delegationId = js_trim delegationIdText;
          current = recovered_delegation nowMs nowIso electionId delegationId recovery (obj_get store electionId)
      in if electionId = [] \<or> delegationId = [] then (None, store)
         else case current of
           None \<Rightarrow> (None, store)
         | Some entry \<Rightarrow>
             if active_id (Some entry) \<noteq> Some delegationId then (None, store)
             else
               let nextVersion = max 0 (case sd_lastConfigVersion entry of None \<Rightarrow> 0 | Some v \<Rightarrow> v) + 1
               in (Some nextVersion, obj_set electionId (entry\<lparr>sd_lastConfigVersion := Some nextVersion\<rparr>) store))"

definition isDelegatedWorkerCapabilityEnabled ::
  "host \<Rightarrow> delegation_store \<Rightarrow> string \<Rightarrow> worker_capability \<Rightarrow> jsnum \<Rightarrow> bool" where
  "isDelegatedWorkerCapabilityEnabled h store electionId capability nowMs =
     (case loadStoredWorkerDelegation store electionId of
        None \<Rightarrow> False
      | Some state \<Rightarrow>
          (case sd_activeDelegation state of
             None \<Rightarrow> False
           | Some active \<Rightarrow>
               sd_mode state = DelegatedWorker
               \<and> num_isFinite (host_dateParse h (wd_expiresAt active))
               \<and> \<not> num_le (host_dateParse h (wd_expiresAt active)) nowMs
               \<and> revoked_id (Some state) \<noteq> Some (wd_delegationId active)
               \<and> capability \<in> set (wd_capabilities active)))"

text \<open>The random part is \<open>crypto.randomUUID()\<close>, or the clock and a random number, as text.\<close>

definition createWorkerDelegationCertificate ::
  "string \<Rightarrow> string \<Rightarrow> string \<Rightarrow> string \<Rightarrow> string \<Rightarrow> worker_capability list \<Rightarrow> string list \<Rightarrow> string list option
     \<Rightarrow> string \<Rightarrow> delegation_certificate" where
  "createWorkerDelegationCertificate random nowIso electionId coordinatorNpub workerNpub capabilities controlRelays
     dmRelays expiresAt =
     \<lparr>wd_delegationId = ''delegation_'' @ take 24 (filter (\<lambda>c. c \<noteq> CHR ''-'') random),
      wd_electionId = js_trim electionId, wd_coordinatorNpub = js_trim coordinatorNpub,
      wd_workerNpub = js_trim workerNpub, wd_capabilities = js_set capabilities,
      wd_controlRelays = normalizeRelaysRust controlRelays,
      wd_dmRelays = Some (normalizeRelaysRust (case dmRelays of None \<Rightarrow> [] | Some rs \<Rightarrow> rs)),
      wd_issuedAt = nowIso, wd_expiresAt = expiresAt\<rparr>"

definition createWorkerDelegationRevocation ::
  "string \<Rightarrow> string \<Rightarrow> string \<Rightarrow> string \<Rightarrow> string \<Rightarrow> string option \<Rightarrow> delegation_revocation" where
  "createWorkerDelegationRevocation nowIso delegationId electionId coordinatorNpub workerNpub reason =
     \<lparr>wv_delegationId = js_trim delegationId, wv_electionId = js_trim electionId,
      wv_coordinatorNpub = js_trim coordinatorNpub, wv_workerNpub = js_trim workerNpub, wv_revokedAt = nowIso,
      wv_reason = (case reason of None \<Rightarrow> None | Some r \<Rightarrow> if js_trim r = [] then None else Some (js_trim r))\<rparr>"

section \<open>Reading events\<close>

definition OPTIONA_WORKER_DELEGATION_KIND :: int where "OPTIONA_WORKER_DELEGATION_KIND = 31994"

definition OPTIONA_WORKER_DELEGATION_REVOCATION_KIND :: int where
  "OPTIONA_WORKER_DELEGATION_REVOCATION_KIND = 31995"

text \<open>\<open>parsed?.key\<close> of a value that \<open>JSON.parse\<close> returned.\<close>

definition json_prop :: "string \<Rightarrow> jsval \<Rightarrow> jsval" where
  "json_prop key v = (case v of JObj es \<Rightarrow> (case map_of es key of None \<Rightarrow> JUndefined | Some x \<Rightarrow> x) | _ \<Rightarrow> JUndefined)"

text \<open>The parsers: the content is the parsed text, \<open>None\<close> when it does not parse.\<close>

definition parseWorkerDelegationEvent :: "int \<Rightarrow> jsval option \<Rightarrow> jsval option" where
  "parseWorkerDelegationEvent kind content =
     (if kind \<noteq> OPTIONA_WORKER_DELEGATION_KIND then None
      else case content of None \<Rightarrow> None
      | Some parsed \<Rightarrow>
          if json_prop ''type'' parsed \<noteq> JStr ''worker_delegation''
             \<or> json_prop ''schemaVersion'' parsed \<noteq> JNum (num_int 1)
             \<or> \<not> list_all (\<lambda>k. is_JStr (json_prop k parsed)) [''delegationId'', ''electionId'', ''coordinatorNpub'', ''workerNpub'']
             \<or> \<not> list_all (\<lambda>k. is_JArr (json_prop k parsed)) [''capabilities'', ''controlRelays'']
             \<or> \<not> list_all (\<lambda>k. is_JStr (json_prop k parsed)) [''issuedAt'', ''expiresAt'']
          then None else Some parsed)"

definition parseWorkerDelegationRevocationEvent :: "int \<Rightarrow> jsval option \<Rightarrow> jsval option" where
  "parseWorkerDelegationRevocationEvent kind content =
     (if kind \<noteq> OPTIONA_WORKER_DELEGATION_REVOCATION_KIND then None
      else case content of None \<Rightarrow> None
      | Some parsed \<Rightarrow>
          if json_prop ''type'' parsed \<noteq> JStr ''worker_delegation_revocation''
             \<or> json_prop ''schemaVersion'' parsed \<noteq> JNum (num_int 1)
             \<or> \<not> list_all (\<lambda>k. is_JStr (json_prop k parsed))
                  [''delegationId'', ''electionId'', ''coordinatorNpub'', ''workerNpub'', ''revokedAt'']
          then None else Some parsed)"

section \<open>Routing\<close>

definition buildIssueBlindTokensWorkerRouting ::
  "string \<Rightarrow> string \<Rightarrow> string list option \<Rightarrow> string list option \<Rightarrow> string option \<Rightarrow> worker_routing" where
  "buildIssueBlindTokensWorkerRouting delegationId workerNpub controlRelays dmRelays expiresAt =
     \<lparr>wr_delegationId = js_trim delegationId, wr_workerNpub = js_trim workerNpub,
      wr_controlRelays = Some (normalizeRelaysRust (case controlRelays of None \<Rightarrow> [] | Some rs \<Rightarrow> rs)),
      wr_dmRelays = Some (normalizeRelaysRust (case dmRelays of None \<Rightarrow> [] | Some rs \<Rightarrow> rs)),
      wr_expiresAt = (case expiresAt of None \<Rightarrow> None | Some e \<Rightarrow> if js_trim e = [] then None else Some (js_trim e))\<rparr>"

definition isIssueBlindTokensWorkerRoutingActive :: "host \<Rightarrow> jsnum \<Rightarrow> worker_routing option \<Rightarrow> bool" where
  "isIssueBlindTokensWorkerRoutingActive h nowMs routing = (case routing of
     None \<Rightarrow> False
   | Some r \<Rightarrow>
       if js_trim (wr_workerNpub r) = [] then False
       else let expiresAtMs = host_dateParse h (case wr_expiresAt r of None \<Rightarrow> [] | Some e \<Rightarrow> e)
            in \<not> num_isFinite expiresAtMs \<or> num_lt nowMs expiresAtMs)"

definition selectIssueBlindTokensWorkerRouting ::
  "host \<Rightarrow> jsnum \<Rightarrow> invite_message option \<Rightarrow> election_summary option \<Rightarrow> worker_routing option" where
  "selectIssueBlindTokensWorkerRouting h nowMs invite summary =
     (let inviteRouting = Option.bind invite im_issueBlindTokensWorker;
          summaryRouting = Option.bind summary es_issueBlindTokensWorker
      in if isIssueBlindTokensWorkerRoutingActive h nowMs inviteRouting then inviteRouting
         else if isIssueBlindTokensWorkerRoutingActive h nowMs summaryRouting then summaryRouting else None)"

definition mergeBlindRequestRoutingRelays :: "string list \<Rightarrow> worker_routing option \<Rightarrow> string list" where
  "mergeBlindRequestRoutingRelays baseRelays routing =
     normalizeRelaysRust ((case Option.bind routing wr_dmRelays of None \<Rightarrow> [] | Some rs \<Rightarrow> rs) @ baseRelays)"

end
