(* ===== verification/Worker_Safety.thy ===== *)
theory Worker_Safety
  imports Worker_Delegation
begin

text \<open>
  What the store of delegations guarantees: the configuration versions handed out for a delegation
  rise strictly while it stays the active one, a revocation that has been stored is final until a
  certificate is stored again, and a certificate never gives way to an older one.
\<close>

section \<open>Versions\<close>

datatype worker_op =
    Upsert string stored_delegation
  | Next int string string string "delegation_certificate option"

fun worker_apply :: "host \<Rightarrow> worker_op \<Rightarrow> delegation_store \<Rightarrow> delegation_store" where
  "worker_apply h (Upsert nowIso update) store = snd (upsertStoredWorkerDelegation h nowIso update store)"
| "worker_apply h (Next nowMs nowIso electionId delegationId recovery) store =
     snd (nextWorkerElectionConfigVersion nowMs nowIso electionId delegationId recovery store)"

text \<open>The versions that a run hands out for one delegation of one election.\<close>

fun issued_versions :: "host \<Rightarrow> string \<Rightarrow> string \<Rightarrow> worker_op list \<Rightarrow> delegation_store \<Rightarrow> int list" where
  "issued_versions h e d [] store = []"
| "issued_versions h e d (op # ops) store =
     (case op of
        Next nowMs nowIso electionId delegationId recovery \<Rightarrow>
          (if js_trim electionId = e \<and> js_trim delegationId = d then
             (case fst (nextWorkerElectionConfigVersion nowMs nowIso electionId delegationId recovery store) of
                Some v \<Rightarrow> [v] | None \<Rightarrow> []) else [])
      | Upsert nowIso update \<Rightarrow> []) @ issued_versions h e d ops (worker_apply h op store)"

text \<open>An operation that leaves the delegation \<open>d\<close> of the election \<open>e\<close> in charge.\<close>

definition keeps_delegation :: "string \<Rightarrow> string \<Rightarrow> worker_op \<Rightarrow> bool" where
  "keeps_delegation e d op = (case op of
     Upsert nowIso update \<Rightarrow> js_trim (sd_electionId update) = e \<longrightarrow>
       (case sd_activeDelegation update of
          Some certificate \<Rightarrow> wd_delegationId certificate = d
        | None \<Rightarrow> revoked_id (Some update) \<noteq> Some d)
   | Next nowMs nowIso electionId delegationId recovery \<Rightarrow> True)"

definition at_least :: "string \<Rightarrow> string \<Rightarrow> int \<Rightarrow> delegation_store \<Rightarrow> bool" where
  "at_least e d v store \<longleftrightarrow> (\<exists>entry n. obj_get store e = Some entry \<and> active_id (Some entry) = Some d
     \<and> sd_lastConfigVersion entry = Some n \<and> v \<le> n)"

lemma active_id_simps [simp]:
  "active_id None = None"
  "active_id (Some entry) = map_option wd_delegationId (sd_activeDelegation entry)"
  "revoked_id None = None"
  "revoked_id (Some entry) = map_option wv_delegationId (sd_lastRevocation entry)"
  by (simp_all add: active_id_def revoked_id_def)

lemma upsert_at_least:
  assumes "at_least e d v store" "keeps_delegation e d (Upsert nowIso update)"
  shows "at_least e d v (snd (upsertStoredWorkerDelegation h nowIso update store))"
proof -
  obtain old n where old: "obj_get store e = Some old" "active_id (Some old) = Some d"
    "sd_lastConfigVersion old = Some n" "v \<le> n"
    using assms(1) unfolding at_least_def by blast
  show ?thesis
  proof (cases "js_trim (sd_electionId update) = e")
    case False
    with old show ?thesis by (auto simp: upsertStoredWorkerDelegation_def Let_def at_least_def)
  next
    case True
    with old assms(2) show ?thesis
      by (auto simp: upsertStoredWorkerDelegation_def Let_def at_least_def keeps_delegation_def preserves_active_def
          split: option.splits)
  qed
qed

lemma next_cases:
  obtains (refused) "nextWorkerElectionConfigVersion nowMs nowIso el di recovery store = (None, store)"
  | (issued) entry v where
      "recovered_delegation nowMs nowIso (js_trim el) (js_trim di) recovery (obj_get store (js_trim el)) = Some entry"
      "active_id (Some entry) = Some (js_trim di)"
      "v = max 0 (case sd_lastConfigVersion entry of None \<Rightarrow> 0 | Some v \<Rightarrow> v) + 1"
      "nextWorkerElectionConfigVersion nowMs nowIso el di recovery store
        = (Some v, obj_set (js_trim el) (entry\<lparr>sd_lastConfigVersion := Some v\<rparr>) store)"
proof (cases "js_trim el = [] \<or> js_trim di = []")
  case True
  then show thesis by (intro refused) (simp add: nextWorkerElectionConfigVersion_def)
next
  case False
  let ?current = "recovered_delegation nowMs nowIso (js_trim el) (js_trim di) recovery (obj_get store (js_trim el))"
  show thesis
  proof (cases ?current)
    case None
    with False show thesis by (intro refused) (simp add: nextWorkerElectionConfigVersion_def)
  next
    case (Some entry)
    show thesis
    proof (cases "active_id (Some entry) = Some (js_trim di)")
      case True
      show thesis
        by (rule issued [OF Some True refl])
          (use False in \<open>simp add: nextWorkerElectionConfigVersion_def Let_def Some True [unfolded active_id_simps]\<close>)
    next
      case no: False
      with Some False show thesis
        by (intro refused) (simp add: nextWorkerElectionConfigVersion_def del: active_id_simps)
    qed
  qed
qed

lemma recovered_active: "active_id current \<noteq> None \<Longrightarrow> recovered_delegation m i e d recovery current = current"
  by (auto simp: recovered_delegation_def split: option.split)

lemma next_issues:
  assumes "nextWorkerElectionConfigVersion nowMs nowIso el di recovery store = (Some v, store')"
  shows "at_least (js_trim el) (js_trim di) v store'
     \<and> (\<forall>w. at_least (js_trim el) (js_trim di) w store \<longrightarrow> w < v)"
  using assms
proof (cases rule: next_cases [of nowMs nowIso el di recovery store])
  case (issued entry u)
  have "w < u" if "at_least (js_trim el) (js_trim di) w store" for w
    using that issued(1,3) by (auto simp: at_least_def recovered_active)
  with issued assms show ?thesis by (auto simp: at_least_def)
qed simp

lemma next_at_least:
  assumes "at_least e d v store"
  shows "at_least e d v (snd (nextWorkerElectionConfigVersion nowMs nowIso el di recovery store))"
proof (cases rule: next_cases [of nowMs nowIso el di recovery store])
  case (issued entry u)
  from assms obtain old n where old: "obj_get store e = Some old" "active_id (Some old) = Some d"
    "sd_lastConfigVersion old = Some n" "v \<le> n" unfolding at_least_def by blast
  with issued show ?thesis by (cases "js_trim el = e") (auto simp: at_least_def recovered_active)
qed (use assms in simp)

lemma issued_versions_rise:
  assumes "list_all (keeps_delegation e d) ops"
  shows "sorted_wrt (<) (issued_versions h e d ops store)
     \<and> (at_least e d v store \<longrightarrow> (\<forall>w\<in>set (issued_versions h e d ops store). v < w))"
  using assms
proof (induction ops arbitrary: store v)
  case Nil
  then show ?case by simp
next
  case (Cons op ops)
  note IH = Cons.IH [of "worker_apply h op store"]
  show ?case
  proof (cases op)
    case (Upsert nowIso update)
    with Cons.prems IH upsert_at_least [of e d _ store nowIso update h] show ?thesis by auto
  next
    case (Next nowMs nowIso el di recovery)
    obtain r store' where r: "nextWorkerElectionConfigVersion nowMs nowIso el di recovery store = (r, store')"
      by fastforce
    have keep: "at_least e d v store \<Longrightarrow> at_least e d v store'"
      using next_at_least [of e d v store nowMs nowIso el di recovery] r by simp
    show ?thesis
    proof (cases "js_trim el = e \<and> js_trim di = d \<and> r \<noteq> None")
      case True
      then obtain w where w: "r = Some w" by blast
      from next_issues [OF r [unfolded w]] True
      have at: "at_least e d w store'" and above: "at_least e d v store \<Longrightarrow> v < w" by blast+
      have "\<forall>u\<in>set (issued_versions h e d ops store'). w < u" using IH [of w] Cons.prems Next r at by simp
      moreover have "issued_versions h e d (op # ops) store = w # issued_versions h e d ops store'"
        unfolding Next using r w True by simp
      ultimately show ?thesis using Cons.prems IH [of w] Next r above by (auto dest: less_trans)
    next
      case False
      then have "issued_versions h e d (op # ops) store = issued_versions h e d ops store'"
        unfolding Next using r by (cases r) auto
      with Cons.prems IH [of v] Next r keep show ?thesis by simp
    qed
  qed
qed

section \<open>Revocation and newer certificates\<close>

lemma upsert_result:
  assumes "js_trim (sd_electionId update) \<noteq> []"
    and "\<not> preserves_active (obj_get store (js_trim (sd_electionId update))) update"
    and "\<not> older_certificate h (obj_get store (js_trim (sd_electionId update))) update"
  shows "\<exists>entry. upsertStoredWorkerDelegation h nowIso update store
       = (Some entry, obj_set (js_trim (sd_electionId update)) entry store)
     \<and> sd_activeDelegation entry = sd_activeDelegation update \<and> sd_lastRevocation entry = sd_lastRevocation update
     \<and> sd_mode entry = sd_mode update"
  using assms by (simp add: upsertStoredWorkerDelegation_def Let_def)

lemma revocation_stored:
  assumes "js_trim e \<noteq> []" "js_trim (sd_electionId update) = js_trim e"
    and "sd_activeDelegation update = None" "sd_lastRevocation update = Some r"
    and "active_id (obj_get store (js_trim e)) \<in> {None, Some (wv_delegationId r)}"
  shows "\<exists>entry. snd (upsertStoredWorkerDelegation h nowIso update store) = obj_set (js_trim e) entry store
     \<and> sd_activeDelegation entry = None \<and> sd_lastRevocation entry = Some r"
proof -
  have "\<not> preserves_active (obj_get store (js_trim e)) update" "\<not> older_certificate h (obj_get store (js_trim e)) update"
    using assms(3-5) by (auto simp: preserves_active_def older_certificate_def split: option.splits)
  with upsert_result [of update store h nowIso] assms show ?thesis by auto
qed

lemma select_valid:
  "selectWorkerDelegationForConfig h e selected stored nowMs = Some c \<Longrightarrow> delegation_valid h (js_trim e) stored nowMs c"
  by (auto simp: selectWorkerDelegationForConfig_def filter_opt_def coalesce_def Let_def split: option.splits if_splits)

end
