(* ===== verification/Relay_Backoff.thy ===== *)
theory Relay_Backoff
  imports Definition_Check
begin

text \<open>
  Backing off from failing relays (\<open>web/src/relayBackoff.ts\<close>).  The module's map from relays to
  their health is an explicit state; the clock is an argument in whole milliseconds.  The jitter
  works on 32-bit integers (\<open>| 0\<close> is \<open>signed_take_bit 31\<close>); its ratio is computed in rationals, which
  agrees with the doubles of the source: the exact products are multiples of 1/5, so they stay away
  from the halves at which rounding could differ.
\<close>

record relay_health =
  rh_cooldownUntil :: int
  rh_consecutiveFailures :: nat
  rh_lastError :: "string option"
  rh_lastSuccessAt :: "int option"

type_synonym relay_state = "relay_health obj"

definition RELAY_MAX_PENALTY_MS :: int where "RELAY_MAX_PENALTY_MS = 30 * 60000"

definition RELAY_FAILURES_BEFORE_COOLDOWN :: nat where "RELAY_FAILURES_BEFORE_COOLDOWN = 2"

definition normalizeRelay :: "string \<Rightarrow> string" where
  "normalizeRelay relay = (case normalizeRelaysRust [relay] of r # _ \<Rightarrow> r | [] \<Rightarrow> js_trim relay)"

definition penaltyMsForError :: "string option \<Rightarrow> int" where
  "penaltyMsForError error =
     (let normalized = js_lower (case error of None \<Rightarrow> [] | Some e \<Rightarrow> e);
          includes = js_includes normalized
      in if normalized = [] then 60000
         else if includes ''rate-limited'' \<or> includes ''too much'' then 3 * 60000
         else if includes ''pow'' then 10 * 60000
         else if includes ''blocked'' \<or> includes ''spam'' \<or> includes ''policy violated'' \<or> includes ''web of trust''
           then 20 * 60000
         else if includes ''initialized but not ready'' \<or> includes ''not ready'' then 2 * 60000
         else if includes ''insufficient resources'' then 3 * 60000
         else if includes ''timed out'' \<or> includes ''timeout'' then 90000
         else if includes ''websocket connection'' \<or> includes ''network'' \<or> includes ''failed'' \<or> includes ''closed''
           then 2 * 60000
         else 2 * 60000)"

definition jitter_seed :: "string \<Rightarrow> nat \<Rightarrow> int" where
  "jitter_seed relay failures =
     \<bar>foldl (\<lambda>acc c. signed_take_bit 31 (acc * 31 + of_char c)) (int failures * 97) relay\<bar>"

definition jitterPenaltyMs :: "int \<Rightarrow> string \<Rightarrow> nat \<Rightarrow> int" where
  "jitterPenaltyMs ms relay failures =
     (let ratio = 4 / 5 + of_int (jitter_seed relay failures mod 10000) / 10000 * (2 / 5) :: rat
      in max 1000 \<lfloor>of_int ms * ratio + 1 / 2\<rfloor>)"

text \<open>\<open>value.match(/wss?:\/\/[^\s'"]+/i)\<close>: the first position with a scheme and a non-empty rest.\<close>

definition relay_at :: "string \<Rightarrow> string option" where
  "relay_at s =
     (let n = (if js_lower (take 5 s) = ''ws://'' then 5 else if js_lower (take 6 s) = ''wss://'' then 6 else 0);
          rest = takeWhile (\<lambda>c. \<not> js_ws c \<and> c \<noteq> CHR 0x27 \<and> c \<noteq> CHR 0x22) (drop n s)
      in if n = 0 \<or> rest = [] then None else Some (take n s @ rest))"

fun relay_match :: "string \<Rightarrow> string option" where
  "relay_match [] = None"
| "relay_match (c # s) = (case relay_at (c # s) of Some r \<Rightarrow> Some r | None \<Rightarrow> relay_match s)"

definition extractRelayFromText :: "string \<Rightarrow> string option" where
  "extractRelayFromText value = map_option normalizeRelay (relay_match value)"

definition scaled_penalty :: "string option \<Rightarrow> nat \<Rightarrow> int" where
  "scaled_penalty error consecutiveFailures =
     min RELAY_MAX_PENALTY_MS (penaltyMsForError error * min 8 (2 ^ (consecutiveFailures - 1)))"

definition recordRelayOutcome :: "int \<Rightarrow> string \<Rightarrow> bool \<Rightarrow> string option \<Rightarrow> relay_state \<Rightarrow> relay_state" where
  "recordRelayOutcome now relay success error relayHealth =
     (let normalizedRelay = normalizeRelay relay;
          previous = obj_get relayHealth normalizedRelay;
          consecutiveFailures = (case previous of None \<Rightarrow> 0 | Some p \<Rightarrow> rh_consecutiveFailures p) + 1
      in if normalizedRelay = [] then relayHealth
         else if success then obj_set normalizedRelay
           \<lparr>rh_cooldownUntil = 0, rh_consecutiveFailures = 0, rh_lastError = None, rh_lastSuccessAt = Some now\<rparr> relayHealth
         else obj_set normalizedRelay
           \<lparr>rh_cooldownUntil = (if consecutiveFailures \<ge> RELAY_FAILURES_BEFORE_COOLDOWN
               then now + jitterPenaltyMs (scaled_penalty error consecutiveFailures) normalizedRelay consecutiveFailures
               else 0),
            rh_consecutiveFailures = consecutiveFailures, rh_lastError = error,
            rh_lastSuccessAt = Option.bind previous rh_lastSuccessAt\<rparr> relayHealth)"

definition recordRelayCloseReasons :: "int \<Rightarrow> string list \<Rightarrow> relay_state \<Rightarrow> relay_state" where
  "recordRelayCloseReasons now reasons = fold (\<lambda>reason relayHealth. case extractRelayFromText reason of
     None \<Rightarrow> relayHealth
   | Some relay \<Rightarrow> if relay = [] then relayHealth else recordRelayOutcome now relay False (Some reason) relayHealth) reasons"

text \<open>The task has ended with an error message or a result.\<close>

definition withRelayOutcomes :: "int \<Rightarrow> string list \<Rightarrow> string + 'a \<Rightarrow> relay_state \<Rightarrow> (string + 'a) \<times> relay_state" where
  "withRelayOutcomes now relays task relayHealth =
     (task, fold (\<lambda>relay. case task of Inl message \<Rightarrow> recordRelayOutcome now relay False (Some message)
                                | Inr _ \<Rightarrow> recordRelayOutcome now relay True None) relays relayHealth)"

definition cooldown_of :: "relay_state \<Rightarrow> string \<Rightarrow> int option" where
  "cooldown_of relayHealth relay = map_option rh_cooldownUntil (obj_get relayHealth relay)"

definition relay_healthy :: "int \<Rightarrow> relay_state \<Rightarrow> string \<Rightarrow> bool" where
  "relay_healthy now relayHealth relay = (case cooldown_of relayHealth relay of None \<Rightarrow> True | Some t \<Rightarrow> t \<le> now)"

definition by_cooldown :: "relay_state \<Rightarrow> string \<Rightarrow> string \<Rightarrow> int" where
  "by_cooldown relayHealth left right =
     (case cooldown_of relayHealth left of None \<Rightarrow> 0 | Some t \<Rightarrow> t)
     - (case cooldown_of relayHealth right of None \<Rightarrow> 0 | Some t \<Rightarrow> t)"

definition rankRelaysByBackoff :: "int \<Rightarrow> relay_state \<Rightarrow> string list \<Rightarrow> string list" where
  "rankRelaysByBackoff now relayHealth relays =
     (let normalized = normalizeRelaysRust relays
      in filter (relay_healthy now relayHealth) normalized
         @ js_sort (by_cooldown relayHealth) (filter (\<lambda>r. \<not> relay_healthy now relayHealth r) normalized))"

text \<open>The clock is read once for the ranking and once more for the choice.\<close>

definition selectRelaysWithBackoff :: "int \<Rightarrow> int \<Rightarrow> relay_state \<Rightarrow> string list \<Rightarrow> int \<Rightarrow> string list" where
  "selectRelaysWithBackoff rankNow now relayHealth relays maxRelays =
     (let ranked = rankRelaysByBackoff rankNow relayHealth relays;
          healthy = filter (relay_healthy now relayHealth) ranked;
          source = (if healthy \<noteq> [] then healthy else ranked);
          limit = max 1 (min maxRelays (int (length source)));
          limited = take (nat limit) source
      in if limited \<noteq> [] then limited else take 1 ranked)"

definition relayCooldownRemainingMs :: "int \<Rightarrow> relay_state \<Rightarrow> string \<Rightarrow> int" where
  "relayCooldownRemainingMs now relayHealth relay =
     (case cooldown_of relayHealth (normalizeRelay relay) of None \<Rightarrow> 0 | Some t \<Rightarrow> max 0 (t - now))"

definition relayCanAttempt :: "int \<Rightarrow> relay_state \<Rightarrow> string \<Rightarrow> bool" where
  "relayCanAttempt now relayHealth relay = (relayCooldownRemainingMs now relayHealth relay \<le> 0)"

definition relayHealthSnapshot :: "relay_state \<Rightarrow> string \<Rightarrow> relay_health option" where
  "relayHealthSnapshot relayHealth relay = obj_get relayHealth (normalizeRelay relay)"

section \<open>Ranking and choosing\<close>

text \<open>The comparison of two cooldowns is a total preorder, so the contract of \<open>comparator\<close> applies.\<close>

interpretation cooldowns: comparator "by_cooldown relayHealth" for relayHealth
  by unfold_locales (auto simp: by_cooldown_def)

lemma rank_set: "set (rankRelaysByBackoff now s relays) = set (normalizeRelaysRust relays)"
  and rank_distinct: "distinct (rankRelaysByBackoff now s relays)"
  by (auto simp: rankRelaysByBackoff_def Let_def)

lemma select_properties:
  assumes "normalizeRelaysRust relays \<noteq> []"
    and ch: "chosen = selectRelaysWithBackoff rankNow now s relays n"
  shows "chosen \<noteq> []" and "set chosen \<subseteq> set (normalizeRelaysRust relays)" and "distinct chosen"
    and "int (length chosen) \<le> max 1 n"
    and "\<exists>r\<in>set (normalizeRelaysRust relays). relay_healthy now s r \<Longrightarrow> list_all (relay_healthy now s) chosen"
proof -
  let ?ranked = "rankRelaysByBackoff rankNow s relays"
  let ?healthy = "filter (relay_healthy now s) ?ranked"
  let ?source = "if ?healthy \<noteq> [] then ?healthy else ?ranked"
  have ranked: "?ranked \<noteq> []" using assms(1) rank_set [of rankNow s relays] by (metis set_empty)
  then have source: "?source \<noteq> []" by simp
  have chosen: "chosen = take (nat (max 1 (min n (int (length ?source))))) ?source"
    using source by (simp add: ch selectRelaysWithBackoff_def Let_def)
  show "chosen \<noteq> []" using source by (simp add: chosen)
  show "set chosen \<subseteq> set (normalizeRelaysRust relays)"
  proof -
    have "set chosen \<subseteq> set ?source" unfolding chosen by (rule set_take_subset)
    also have "\<dots> \<subseteq> set ?ranked" by simp
    finally show ?thesis unfolding rank_set .
  qed
  show "distinct chosen" using rank_distinct [of rankNow s relays] by (simp add: chosen)
  show "int (length chosen) \<le> max 1 n" by (simp add: chosen)
  show "list_all (relay_healthy now s) chosen" if "\<exists>r\<in>set (normalizeRelaysRust relays). relay_healthy now s r"
  proof -
    have "?healthy \<noteq> []" using that rank_set [of rankNow s relays] by (auto simp: filter_empty_conv)
    then show ?thesis by (auto simp: chosen list_all_iff dest: in_set_takeD)
  qed
qed

section \<open>Cooldowns are bounded\<close>

lemma penalty_bounds: "60000 \<le> penaltyMsForError e \<and> penaltyMsForError e \<le> 1200000"
  by (simp add: penaltyMsForError_def Let_def del: js_includes.simps)

lemma scaled_bounds: "60000 \<le> scaled_penalty e n \<and> scaled_penalty e n \<le> 1800000"
proof -
  have "1 \<le> min 8 ((2::int) ^ (n - 1))" by simp
  then have "60000 * 1 \<le> penaltyMsForError e * min 8 (2 ^ (n - 1))"
    by (rule mult_mono [OF conjunct1 [OF penalty_bounds]]) (use penalty_bounds [of e] in auto)
  then show ?thesis by (simp add: scaled_penalty_def RELAY_MAX_PENALTY_MS_def)
qed

lemma jitter_bounds:
  assumes "60000 \<le> ms"
  shows "4 * ms \<le> 5 * jitterPenaltyMs ms relay n + 2" and "5 * jitterPenaltyMs ms relay n \<le> 6 * ms + 3"
proof -
  define k where "k = jitter_seed relay n mod 10000"
  define r :: rat where "r = 4 / 5 + of_int k / 10000 * (2 / 5)"
  have k: "0 \<le> k" "k \<le> 10000" by (simp_all add: k_def less_imp_le)
  then have "of_int k / 10000 \<le> (1 :: rat)" "0 \<le> of_int k / (10000 :: rat)" by simp_all
  then have r: "4 / 5 \<le> r" "r \<le> 6 / 5" by (simp_all add: r_def)
  have pos: "0 \<le> (of_int ms :: rat)" using assms by simp
  have lo: "of_int ms * (4 / 5) \<le> of_int ms * r" and hi: "of_int ms * r \<le> of_int ms * (6 / 5)"
    using mult_left_mono [OF r(1) pos] mult_left_mono [OF r(2) pos] by simp_all
  have j: "jitterPenaltyMs ms relay n = max 1000 \<lfloor>of_int ms * r + 1 / 2\<rfloor>"
    by (simp add: jitterPenaltyMs_def r_def k_def Let_def)
  define m where "m = \<lfloor>of_int ms * r + 1 / 2\<rfloor>"
  have f1: "of_int m \<le> of_int ms * r + 1 / 2" and f2: "of_int ms * r + 1 / 2 < of_int m + 1"
    unfolding m_def by linarith+
  have "5 * (of_int m :: rat) \<le> 6 * of_int ms + 3" using f1 hi by linarith
  then have "(of_int (5 * m) :: rat) \<le> of_int (6 * ms + 3)" by simp
  then have up: "5 * m \<le> 6 * ms + 3" by (simp only: of_int_le_iff)
  have "4 * (of_int ms :: rat) < 5 * of_int m + 3" using f2 lo by linarith
  then have "(of_int (4 * ms) :: rat) < of_int (5 * m + 3)" by simp
  then have down: "4 * ms < 5 * m + 3" by (simp only: of_int_less_iff)
  show "5 * jitterPenaltyMs ms relay n \<le> 6 * ms + 3" using up assms by (simp add: j m_def)
  show "4 * ms \<le> 5 * jitterPenaltyMs ms relay n + 2" using down assms by (simp add: j m_def)
qed

text \<open>The longest cooldown: 30 minutes and a fifth more.\<close>

definition MAX_COOLDOWN_MS :: int where "MAX_COOLDOWN_MS = 2160000"

lemma cooldown_bounds:
  "jitterPenaltyMs (scaled_penalty e n) relay n \<le> MAX_COOLDOWN_MS \<and> 0 < jitterPenaltyMs (scaled_penalty e n) relay n"
  using jitter_bounds [of "scaled_penalty e n" relay n] scaled_bounds [of e n] by (simp add: MAX_COOLDOWN_MS_def)

record relay_report =
  rp_at :: int
  rp_relay :: string
  rp_success :: bool
  rp_error :: "string option"

definition relay_history :: "relay_report list \<Rightarrow> relay_state \<Rightarrow> relay_state" where
  "relay_history reports = fold (\<lambda>r. recordRelayOutcome (rp_at r) (rp_relay r) (rp_success r) (rp_error r)) reports"

text \<open>The failures of a relay since its last success.\<close>

definition failures_in_a_row :: "string \<Rightarrow> relay_report list \<Rightarrow> nat" where
  "failures_in_a_row relay reports = length (takeWhile (\<lambda>r. \<not> rp_success r)
     (filter (\<lambda>r. normalizeRelay (rp_relay r) = normalizeRelay relay) (rev reports)))"

lemma record_get:
  assumes "normalizeRelay relay \<noteq> []"
  shows "obj_get (recordRelayOutcome now other success e s) (normalizeRelay relay) =
     (if normalizeRelay other \<noteq> normalizeRelay relay then obj_get s (normalizeRelay relay)
      else obj_get (recordRelayOutcome now relay success e s) (normalizeRelay relay))"
  using assms by (auto simp: recordRelayOutcome_def Let_def)

lemma history_counts:
  assumes "normalizeRelay relay \<noteq> []"
  shows "(case obj_get (relay_history reports []) (normalizeRelay relay) of None \<Rightarrow> 0 | Some p \<Rightarrow> rh_consecutiveFailures p)
       = failures_in_a_row relay reports
     \<and> (\<forall>p. obj_get (relay_history reports []) (normalizeRelay relay) = Some p \<longrightarrow>
          (if rh_consecutiveFailures p < RELAY_FAILURES_BEFORE_COOLDOWN then rh_cooldownUntil p = 0
           else \<exists>r\<in>set reports. rh_cooldownUntil p \<le> rp_at r + MAX_COOLDOWN_MS \<and> rp_at r < rh_cooldownUntil p))"
    (is "?count reports \<and> ?cool reports")
proof (induction reports rule: rev_induct)
  case Nil
  then show ?case by (simp add: relay_history_def failures_in_a_row_def)
next
  case (snoc r reports)
  let ?s = "relay_history reports []"
  have step: "relay_history (reports @ [r]) [] = recordRelayOutcome (rp_at r) (rp_relay r) (rp_success r) (rp_error r) ?s"
    by (simp add: relay_history_def)
  show ?case
  proof (cases "normalizeRelay (rp_relay r) = normalizeRelay relay")
    case False
    with snoc show ?thesis by (auto simp: step record_get [OF assms, of _ "rp_relay r"] failures_in_a_row_def)
  next
    case True
    define n where "n = failures_in_a_row relay reports"
    have n: "(case obj_get ?s (normalizeRelay relay) of None \<Rightarrow> 0 | Some p \<Rightarrow> rh_consecutiveFailures p) = n"
      using snoc by (simp add: n_def)
    show ?thesis
    proof (cases "rp_success r")
      case True
      with \<open>normalizeRelay (rp_relay r) = _\<close> assms show ?thesis
        by (simp add: step recordRelayOutcome_def Let_def failures_in_a_row_def RELAY_FAILURES_BEFORE_COOLDOWN_def)
    next
      case False
      let ?delay = "jitterPenaltyMs (scaled_penalty (rp_error r) (n + 1)) (normalizeRelay relay) (n + 1)"
      have "failures_in_a_row relay (reports @ [r]) = Suc n"
        using True False by (simp add: failures_in_a_row_def n_def)
      moreover obtain p where "obj_get (relay_history (reports @ [r]) []) (normalizeRelay relay) = Some p"
        "rh_consecutiveFailures p = Suc n"
        "rh_cooldownUntil p = (if RELAY_FAILURES_BEFORE_COOLDOWN \<le> Suc n then rp_at r + ?delay else 0)"
        using True False assms n by (simp add: step recordRelayOutcome_def Let_def)
      ultimately show ?thesis using cooldown_bounds [of "rp_error r" "n + 1" "normalizeRelay relay"] by auto
    qed
  qed
qed

end
