(* ===== verification/Service_Properties.thy ===== *)
theory Service_Properties
  imports Resident_Register Otp_Safety Worker_Safety Relay_Backoff Samples
begin

text \<open>
  The properties of the services around an election: the resident tables, the one-time passwords,
  the delegation of work and the choice of relays.
\<close>

section \<open>Tables of residents\<close>

text \<open>
  A printed table of names and codes reads back: when no name or code holds a line break, splitting
  the text into lines and scanning each line gives every name and code again, whatever quotes, commas
  and spaces they contain.
\<close>

lemma name_code_round_trip:
  assumes "list_all (\<lambda>p. one_line (nc_name p) \<and> one_line (nc_code p)) pairs"
  shows "map parseCsvLine (tl (non_empty_lines (buildNameCodeCsv pairs))) = map (\<lambda>p. [nc_name p, nc_code p]) pairs"
  using assms by (rule name_code_lines)

lemma name_code_round_trip_witness:
  "map parseCsvLine (tl (non_empty_lines (buildNameCodeCsv
     [\<lparr>nc_name = ''Ann, O'' @ [dquote] @ ''x'' @ [dquote], nc_code = ''12 ''\<rparr>, \<lparr>nc_name = [], nc_code = []\<rparr>])))
   = [[''Ann, O'' @ [dquote] @ ''x'' @ [dquote], ''12 ''], [[], []]]"
proof -
  have "list_all (\<lambda>p. one_line (nc_name p) \<and> one_line (nc_code p))
     [\<lparr>nc_name = ''Ann, O'' @ [dquote] @ ''x'' @ [dquote], nc_code = ''12 ''\<rparr>, \<lparr>nc_name = [], nc_code = []\<rparr>]"
    by simp
  from name_code_round_trip [OF this] show ?thesis by simp
qed

text \<open>
  Residents are imported whole or not at all: either there are errors and no resident, or every data
  row became a resident with a positive number of its own, a valid e-mail address, and no text that a
  spreadsheet takes for a formula.
\<close>

lemma resident_import:
  "if snd (parseResidentCsv h to_number content) \<noteq> [] then fst (parseResidentCsv h to_number content) = []
   else length (fst (parseResidentCsv h to_number content)) = length (tl (non_empty_lines content))
     \<and> fst (parseResidentCsv h to_number content) \<noteq> []
     \<and> distinct (map re_mastersListNumber (fst (parseResidentCsv h to_number content)))
     \<and> list_all sound_resident (fst (parseResidentCsv h to_number content))"
proof (cases rule: parse_residents_cases [of h to_number content])
  case refused
  then show ?thesis by simp
next
  case (imported rows entries)
  note sound = resident_rows_sound [OF imported(2)]
  then have "entries \<noteq> []" using imported(4) by auto
  with imported(1,3) sound show ?thesis by simp
qed

text \<open>
  The master list is imported whole or not at all: either there are errors and no entry, or the
  active rows became entries with different numbers of the safe alphabet, valid e-mail addresses where
  there are any, and no text that a spreadsheet takes for a formula.
\<close>

lemma masterlist_import:
  "if snd (parseMasterlistCsv to_number content) \<noteq> [] then fst (parseMasterlistCsv to_number content) = []
   else fst (parseMasterlistCsv to_number content) \<noteq> []
     \<and> length (fst (parseMasterlistCsv to_number content)) \<le> length (tl (non_empty_lines content))
     \<and> distinct (map me_masterlistNo (fst (parseMasterlistCsv to_number content)))
     \<and> list_all sound_masterlist_entry (fst (parseMasterlistCsv to_number content))"
proof (cases rule: parse_masterlist_cases [of to_number content])
  case refused
  then show ?thesis by simp
next
  case (imported rows entries)
  with masterlist_rows_sound [OF imported(2)] show ?thesis by auto
qed

section \<open>One-time passwords\<close>

text \<open>
  A stored hash accepts the password it was made from, and any other exactly when the digests
  agree, as long as fewer than five attempts are counted against it.  The digest gives 32 bytes, as
  SHA-256 does.
\<close>

lemma otp_hash_verifies:
  assumes "\<And>m. length (digest m) = 32"
  shows "fst (verifyOtp digest t otp' (hashOtp digest salt otp)) \<longleftrightarrow>
     attempts_of t (hashOtp digest salt otp) < MAX_OTP_ATTEMPTS \<and> digest (salt @ utf8 otp') = digest (salt @ utf8 otp)"
  using matches_own_hash [OF assms] own_hash_colon [of digest salt otp]
  by (auto simp: fst_verifyOtp attempts_of_def MAX_OTP_ATTEMPTS_def split: option.split)

definition sample_digest :: "bytes \<Rightarrow> bytes" where
  "sample_digest m = replicate 32 (fold (+) m 0)"

lemma otp_hash_verifies_witness: "fst (verifyOtp sample_digest [] ''000042'' (hashOtp sample_digest [1, 2] ''000042''))"
proof -
  have "length (sample_digest m) = 32" for m by (simp add: sample_digest_def)
  from otp_hash_verifies [of sample_digest "[]" "''000042''" "[1, 2]" "''000042''", OF this]
  show ?thesis by (simp add: MAX_OTP_ATTEMPTS_def)
qed

text \<open>
  C34: guessing is limited: over any sequence of calls that do not overlap and resets, with at most 10000 hashes in
  use, no more than five wrong guesses of a hash are evaluated between two matches or resets, and once
  five are, the right password is refused too.
\<close>

theorem otp_guesses_limited:
  assumes "card (op_hashes ops) \<le> MAX_TRACKER_ENTRIES"
  shows "wrong_guesses digest hash ops [] 0 \<le> MAX_OTP_ATTEMPTS
     \<and> (fst (verifyOtp digest (otp_run digest ops []) otp hash) \<longleftrightarrow>
          wrong_guesses digest hash ops [] 0 < MAX_OTP_ATTEMPTS \<and> CHR '':'' \<in> set hash \<and> otp_matches digest otp hash)"
proof -
  have run: "tracker_ok (op_hashes ops) (otp_run digest ops [])"
    "attempts_of (otp_run digest ops []) hash = wrong_guesses digest hash ops [] 0"
    using otp_run_counts [OF tracker_ok_empty finite_op_hashes assms order_refl, of digest hash] by simp_all
  then have "wrong_guesses digest hash ops [] 0 \<le> MAX_OTP_ATTEMPTS" by (simp add: tracker_ok_def) metis
  moreover have "(case obj_get (otp_run digest ops []) hash of None \<Rightarrow> True | Some n \<Rightarrow> n < MAX_OTP_ATTEMPTS)
      \<longleftrightarrow> wrong_guesses digest hash ops [] 0 < MAX_OTP_ATTEMPTS"
    using run(2) by (auto simp: attempts_of_def MAX_OTP_ATTEMPTS_def split: option.splits)
  ultimately show ?thesis by (simp add: fst_verifyOtp)
qed

lemma otp_guesses_limited_witness:
  "wrong_guesses sample_digest ''00:ff'' (replicate 7 (Verify ''1'' ''00:ff'')) [] 0 \<le> 5
   \<and> card (op_hashes (replicate 7 (Verify ''1'' ''00:ff''))) = 1"
proof -
  have "card (op_hashes (replicate 7 (Verify ''1'' ''00:ff''))) = 1" by (simp add: numeral_eq_Suc)
  moreover from this have "card (op_hashes (replicate 7 (Verify ''1'' ''00:ff''))) \<le> MAX_TRACKER_ENTRIES"
    by (simp add: MAX_TRACKER_ENTRIES_def)
  from otp_guesses_limited [OF this] have "wrong_guesses sample_digest ''00:ff'' (replicate 7 (Verify ''1'' ''00:ff'')) [] 0 \<le> 5"
    by (simp add: MAX_OTP_ATTEMPTS_def)
  ultimately show ?thesis by blast
qed

text \<open>
  C35: overlapping calls escape the limit: since the counter is read before the digest is awaited and
  written after it, any number of wrong guesses that are begun together are all evaluated, and the
  counter ends at one.
\<close>

theorem overlapping_guesses_escape:
  assumes "CHR '':'' \<in> set hash" "list_all (\<lambda>otp. \<not> otp_matches digest otp hash) guesses" "guesses \<noteq> []"
  shows "\<exists>s. otp_steps digest otp_idle s \<and> length (os_outcomes s) = length guesses
     \<and> map (oc_otp \<circ> fst) (os_outcomes s) = guesses \<and> os_tracker s = [(hash, 1)]"
proof -
  have "map (oc_otp \<circ> fst) (map (\<lambda>otp. (fresh_call hash otp, False)) guesses) = guesses"
    by (simp add: comp_def fresh_call_def)
  with overlapping_guesses [OF assms] show ?thesis by (metis length_map otp_system.select_convs(1,3))
qed

lemma overlapping_guesses_escape_witness:
  "\<exists>s. otp_steps sample_digest otp_idle s \<and> length (os_outcomes s) = 9 \<and> os_tracker s = [(''00:ff'', 1)]"
proof -
  have "\<not> otp_matches sample_digest otp ''00:ff''" for otp
  proof
    let ?text = "toHex (sample_digest (salt_bytes ''00'' @ utf8 otp))"
    assume "otp_matches sample_digest otp ''00:ff''"
    then have "constantTimeEqual ?text ''ff''" by (simp add: otp_matches_def)
    then have "?text = ''ff''" by (subst (asm) constantTimeEqual_iff) (simp_all add: sample_digest_def)
    then have "length ?text = 2" by simp
    then show False by (simp add: sample_digest_def)
  qed
  then have "list_all (\<lambda>otp. \<not> otp_matches sample_digest otp ''00:ff'') (replicate 9 ''1'')" by (simp add: list_all_iff)
  from overlapping_guesses_escape [OF _ this] show ?thesis by auto
qed

section \<open>Delegated work\<close>

text \<open>
  C37: configuration versions rise: over any run of updates and version requests that leaves one
  delegation of an election in charge, the versions handed out for it are strictly increasing, even
  when the stored entry is lost and rebuilt from the certificate.
\<close>

theorem config_versions_rise:
  assumes "list_all (keeps_delegation e d) ops"
  shows "sorted_wrt (<) (issued_versions h e d ops store)"
  using issued_versions_rise [OF assms] by blast

definition sample_certificate :: delegation_certificate where
  "sample_certificate = \<lparr>wd_delegationId = ''d1'', wd_electionId = ''e1'', wd_coordinatorNpub = ''npub1c'',
     wd_workerNpub = ''npub1w'', wd_capabilities = [IssueBlindTokens], wd_controlRelays = [], wd_dmRelays = None,
     wd_issuedAt = ''1'', wd_expiresAt = ''9''\<rparr>"

definition sample_delegation :: "delegation_certificate option \<Rightarrow> delegation_revocation option \<Rightarrow> stored_delegation" where
  "sample_delegation active revocation = \<lparr>sd_electionId = ''e1'', sd_mode = DelegatedWorker, sd_activeDelegation = active,
     sd_lastRevocation = revocation, sd_lastUpdatedAt = ''2'', sd_lastConfigVersion = None, sd_lastConfigSyncKey = None\<rparr>"

definition sample_worker_ops :: "worker_op list" where
  "sample_worker_ops =
     [Upsert ''2'' (sample_delegation (Some sample_certificate) None), Next 7 ''3'' ''e1'' ''d1'' None,
      Upsert ''4'' (sample_delegation None None), Next 9 ''5'' ''e1'' ''d1'' None]"

lemma config_versions_rise_witness:
  "issued_versions plain_host ''e1'' ''d1'' sample_worker_ops [] = [1, 2]
   \<and> sorted_wrt (<) (issued_versions plain_host ''e1'' ''d1'' sample_worker_ops [])"
proof -
  have ops: "list_all (keeps_delegation ''e1'' ''d1'') sample_worker_ops"
    and vs: "issued_versions plain_host ''e1'' ''d1'' sample_worker_ops [] = [1, 2]" by code_simp+
  from config_versions_rise [OF ops] vs show ?thesis by blast
qed

text \<open>
  C38: a stored revocation is final: after an update that revokes the active delegation the worker has
  no capability, gets no configuration version, not even through the recovery certificate, and the
  delegation is not selected, neither as the stored nor as the chosen one.
\<close>

theorem revocation_is_final:
  assumes "js_trim e \<noteq> []" "js_trim (sd_electionId update) = js_trim e"
    and "sd_activeDelegation update = None" "sd_lastRevocation update = Some r"
    and "active_id (obj_get store (js_trim e)) \<in> {None, Some (wv_delegationId r)}"
    and "after = snd (upsertStoredWorkerDelegation h nowIso update store)" "js_trim d = wv_delegationId r"
  shows "\<not> isDelegatedWorkerCapabilityEnabled h after e capability now
     \<and> nextWorkerElectionConfigVersion nowMs nowIso' e d recovery after = (None, after)
     \<and> map_option wd_delegationId (selectWorkerDelegationForConfig h e selected (loadStoredWorkerDelegation after e) now)
         \<noteq> Some (wv_delegationId r)"
proof -
  obtain entry where entry: "after = obj_set (js_trim e) entry store" "sd_activeDelegation entry = None"
    "sd_lastRevocation entry = Some r"
    using revocation_stored [OF assms(1-5), of h nowIso] assms(6) by blast
  then have load: "loadStoredWorkerDelegation after e = Some entry" using assms(1) by (simp add: loadStoredWorkerDelegation_def)
  have "recovered_delegation nowMs nowIso' (js_trim e) (js_trim d) recovery (Some entry) = Some entry"
    using entry(3) assms(7) by (auto simp: recovered_delegation_def split: option.split)
  then have "nextWorkerElectionConfigVersion nowMs nowIso' e d recovery after = (None, after)"
    using entry by (simp add: nextWorkerElectionConfigVersion_def Let_def)
  moreover have "\<not> isDelegatedWorkerCapabilityEnabled h after e capability now"
    using load entry(2) by (simp add: isDelegatedWorkerCapabilityEnabled_def)
  moreover have "wd_delegationId c \<noteq> wv_delegationId r"
    if "selectWorkerDelegationForConfig h e selected (Some entry) now = Some c" for c
    using select_valid [OF that] entry(3) by (auto simp: delegation_valid_def)
  ultimately show ?thesis by (auto simp: load)
qed

definition sample_revocation :: delegation_revocation where
  "sample_revocation = createWorkerDelegationRevocation ''6'' ''d1'' ''e1'' ''npub1c'' ''npub1w'' None"

lemma revocation_is_final_witness:
  "nextWorkerElectionConfigVersion 9 ''9'' ''e1'' ''d1'' (Some sample_certificate)
     (snd (upsertStoredWorkerDelegation plain_host ''6'' (sample_delegation None (Some sample_revocation))
        [(''e1'', sample_delegation (Some sample_certificate) None)]))
   = (None, snd (upsertStoredWorkerDelegation plain_host ''6'' (sample_delegation None (Some sample_revocation))
        [(''e1'', sample_delegation (Some sample_certificate) None)]))"
proof -
  have "js_trim ''e1'' \<noteq> []" "js_trim (sd_electionId (sample_delegation None (Some sample_revocation))) = js_trim ''e1''"
    "sd_activeDelegation (sample_delegation None (Some sample_revocation)) = None"
    "sd_lastRevocation (sample_delegation None (Some sample_revocation)) = Some sample_revocation"
    "active_id (obj_get [(''e1'', sample_delegation (Some sample_certificate) None)] (js_trim ''e1''))
       \<in> {None, Some (wv_delegationId sample_revocation)}"
    "js_trim ''d1'' = wv_delegationId sample_revocation"
    by code_simp+
  from revocation_is_final [OF this(1-5) refl this(6)] show ?thesis by blast
qed

section \<open>Relays\<close>

text \<open>
  The chosen relays: from a list that names any relay at all, the choice is not empty, repeats none, adds
  none, stays within the limit, and takes no cooling relay while a healthy one is listed.
\<close>

lemma chosen_relays:
  assumes "normalizeRelaysRust relays \<noteq> []"
    and "chosen = selectRelaysWithBackoff rankNow now relayHealth relays maxRelays"
  shows "chosen \<noteq> [] \<and> distinct chosen \<and> set chosen \<subseteq> set (normalizeRelaysRust relays)
     \<and> int (length chosen) \<le> max 1 maxRelays
     \<and> (list_ex (relay_healthy now relayHealth) (normalizeRelaysRust relays)
          \<longrightarrow> list_all (relay_healthy now relayHealth) chosen)"
  using select_properties [OF assms] by (auto simp: list_ex_iff)

definition sample_relay_state :: relay_state where
  "sample_relay_state = [(''wss://a'', \<lparr>rh_cooldownUntil = 100, rh_consecutiveFailures = 2, rh_lastError = None,
     rh_lastSuccessAt = None\<rparr>)]"

lemma chosen_relays_witness:
  "list_all (relay_healthy 5 sample_relay_state)
     (selectRelaysWithBackoff 5 5 sample_relay_state [''wss://a'', ''wss://b''] 2)"
proof -
  have "normalizeRelaysRust [''wss://a'', ''wss://b''] \<noteq> []"
    and "list_ex (relay_healthy 5 sample_relay_state) (normalizeRelaysRust [''wss://a'', ''wss://b''])"
    by code_simp+
  with chosen_relays [OF this(1) refl] show ?thesis by blast
qed

text \<open>
  A cooldown fits the history: after any sequence of reports the counter of a relay is the number
  of its failures since its last success; below two the relay is not held back, and otherwise its
  cooldown began with one of the reports and lasts at most 36 minutes.
\<close>

lemma relay_cooldown_fits_history:
  assumes "normalizeRelay relay \<noteq> []"
    and "obj_get (relay_history reports []) (normalizeRelay relay) = Some p"
  shows "rh_consecutiveFailures p = failures_in_a_row relay reports
     \<and> (if rh_consecutiveFailures p < RELAY_FAILURES_BEFORE_COOLDOWN then rh_cooldownUntil p = 0
        else \<exists>r\<in>set reports. rh_cooldownUntil p \<le> rp_at r + MAX_COOLDOWN_MS \<and> rp_at r < rh_cooldownUntil p)"
  using history_counts [OF assms(1), of reports] assms(2) by auto

lemma relay_cooldown_fits_history_witness:
  "\<exists>p. obj_get (relay_history [\<lparr>rp_at = 1, rp_relay = ''wss://a'', rp_success = True, rp_error = None\<rparr>,
       \<lparr>rp_at = 2, rp_relay = ''wss://a'', rp_success = False, rp_error = None\<rparr>] []) (normalizeRelay ''wss://a'') = Some p
     \<and> rh_consecutiveFailures p = 1 \<and> rh_cooldownUntil p = 0"
proof -
  let ?reports = "[\<lparr>rp_at = 1, rp_relay = ''wss://a'', rp_success = True, rp_error = None\<rparr>,
       \<lparr>rp_at = 2, rp_relay = ''wss://a'', rp_success = False, rp_error = None\<rparr>]"
  have name: "normalizeRelay ''wss://a'' \<noteq> []" by code_simp
  then obtain p where p: "obj_get (relay_history ?reports []) (normalizeRelay ''wss://a'') = Some p"
    by (simp add: relay_history_def recordRelayOutcome_def Let_def)
  have "failures_in_a_row ''wss://a'' ?reports = 1" by (simp add: failures_in_a_row_def)
  with relay_cooldown_fits_history [OF name p] p show ?thesis
    by (intro exI [of _ p]) (simp add: RELAY_FAILURES_BEFORE_COOLDOWN_def)
qed

end
