(* ===== verification/Public_Events.thy ===== *)
theory Public_Events
  imports Worker_Delegation Intake Tally
begin

text \<open>
  Reading the public streams of a questionnaire (\<open>web/src/questionnaireTransport.ts\<close>, with the parsers
  of \<open>web/src/questionnaireResponsePublish.ts\<close> and \<open>web/src/questionnaireNostr.ts\<close>): what the fetch
  functions do with the events once the relays have answered.  The events are arguments.  The content
  of an event is the value that \<open>JSON.parse\<close> yields, or \<open>None\<close> when it throws.  Two operations of
  \<open>nostr-tools\<close> are arguments: \<open>verifyEvent\<close>, the check of an event's signature, and \<open>npubHex\<close>, the
  decoding of an npub (\<open>None\<close> when it throws or names something else).
\<close>

section \<open>Events\<close>

record nostr_event =
  ne_id :: string
  ne_pubkey :: string
  ne_kind :: int
  ne_created_at :: int
  ne_content :: "jsval option"

definition str_prop :: "string \<Rightarrow> jsval \<Rightarrow> string" where
  "str_prop key v = (case json_prop key v of JStr s \<Rightarrow> s | _ \<Rightarrow> [])"
  \<comment> \<open>a property the parser has found to be a string\<close>

definition finite_number :: "jsval \<Rightarrow> jsnum option" where
  "finite_number v = (case v of JNum n \<Rightarrow> if num_isFinite n then Some n else None | _ \<Rightarrow> None)"

definition strings_present :: "string list \<Rightarrow> jsval \<Rightarrow> bool" where
  "strings_present keys v = list_all (\<lambda>k. is_JStr (json_prop k v)) keys"

definition schema_1 :: "string \<Rightarrow> jsval \<Rightarrow> bool" where
  "schema_1 eventType parsed = (json_prop ''schemaVersion'' parsed = JNum (num_int 1)
     \<and> json_prop ''eventType'' parsed = JStr eventType)"

definition toHexPubkey :: "(string \<Rightarrow> string option) \<Rightarrow> string option \<Rightarrow> string" where
  "toHexPubkey npubHex value =
     (let trimmed = (case value of None \<Rightarrow> [] | Some v \<Rightarrow> js_trim v)
      in if trimmed = [] then []
         else if js_starts_with trimmed ''npub1'' then (case npubHex trimmed of None \<Rightarrow> [] | Some data \<Rightarrow> data)
         else if is_hex64 (js_lower trimmed) then js_lower trimmed else [])"

section \<open>Blind responses\<close>

text \<open>
  The parser checks the type of some properties only.  Those are fields of the record at their type;
  a proof, a scoped nullifier and the answers stay as they were parsed.
\<close>

record blind_response =
  br_questionnaireId :: string
  br_responseId :: string
  br_submittedAt :: jsval
  br_authorPubkey :: string
  br_tokenNullifier :: string
  br_tokenNullifiers :: "jsval list option"
  br_tokenProof :: jsval
  br_tokenProofs :: "jsval list option"
  br_answers :: jsval

definition proof_shape :: "jsval \<Rightarrow> bool" where
  "proof_shape proof = strings_present [''tokenCommitment'', ''questionnaireId'', ''signature''] proof"

definition optional_array :: "(jsval \<Rightarrow> bool) \<Rightarrow> jsval \<Rightarrow> bool" where
  "optional_array P v = (case v of JUndefined \<Rightarrow> True | JArr vs \<Rightarrow> list_all P vs | _ \<Rightarrow> False)"

definition array_option :: "jsval \<Rightarrow> jsval list option" where
  "array_option v = (case v of JArr vs \<Rightarrow> Some vs | _ \<Rightarrow> None)"

definition parseQuestionnaireBlindResponseEvent :: "jsval option \<Rightarrow> blind_response option" where
  "parseQuestionnaireBlindResponseEvent content = (case content of None \<Rightarrow> None | Some parsed \<Rightarrow>
     if \<not> schema_1 ''questionnaire_response_blind'' parsed
        \<or> \<not> strings_present [''questionnaireId'', ''responseId'', ''authorPubkey'', ''tokenNullifier''] parsed
        \<or> \<not> proof_shape (json_prop ''tokenProof'' parsed)
        \<or> \<not> optional_array proof_shape (json_prop ''tokenProofs'' parsed)
        \<or> \<not> optional_array (strings_present [''tokenNullifier'']) (json_prop ''tokenNullifiers'' parsed)
        \<or> js_truthy (json_prop ''answers'' parsed) = js_truthy (json_prop ''encryptedPayload'' parsed)
     then None
     else Some \<lparr>br_questionnaireId = str_prop ''questionnaireId'' parsed,
            br_responseId = str_prop ''responseId'' parsed, br_submittedAt = json_prop ''submittedAt'' parsed,
            br_authorPubkey = str_prop ''authorPubkey'' parsed,
            br_tokenNullifier = str_prop ''tokenNullifier'' parsed,
            br_tokenNullifiers = array_option (json_prop ''tokenNullifiers'' parsed),
            br_tokenProof = json_prop ''tokenProof'' parsed,
            br_tokenProofs = array_option (json_prop ''tokenProofs'' parsed),
            br_answers = json_prop ''answers'' parsed\<rparr>)"

record response_entry =
  en_event :: nostr_event
  en_response :: blind_response

definition isAuthenticBlindResponseEvent ::
  "(nostr_event \<Rightarrow> bool) \<Rightarrow> (string \<Rightarrow> string option) \<Rightarrow> nostr_event \<Rightarrow> blind_response \<Rightarrow> bool" where
  "isAuthenticBlindResponseEvent verifyEvent npubHex event response =
     (verifyEvent event \<and> js_lower (ne_pubkey event) = toHexPubkey npubHex (Some (br_authorPubkey response)))"

definition accepted_response_entry ::
  "(nostr_event \<Rightarrow> bool) \<Rightarrow> (string \<Rightarrow> string option) \<Rightarrow> string \<Rightarrow> nostr_event \<Rightarrow> response_entry option" where
  "accepted_response_entry verifyEvent npubHex questionnaireId event =
     (case parseQuestionnaireBlindResponseEvent (ne_content event) of
        None \<Rightarrow> None
      | Some response \<Rightarrow>
          if br_questionnaireId response = questionnaireId
             \<and> isAuthenticBlindResponseEvent verifyEvent npubHex event response
          then Some \<lparr>en_event = event, en_response = response\<rparr> else None)"

definition fetchQuestionnaireBlindResponses ::
  "(nostr_event \<Rightarrow> bool) \<Rightarrow> (string \<Rightarrow> string option) \<Rightarrow> string \<Rightarrow> nostr_event list \<Rightarrow> response_entry list" where
  "fetchQuestionnaireBlindResponses verifyEvent npubHex questionnaireId events =
     List.map_filter (accepted_response_entry verifyEvent npubHex questionnaireId) events"

text \<open>
  The subscription: the entries by event id, in the order of their first arrival, and the list handed
  to the callback, \<open>None\<close> when the event is dropped.
\<close>

definition blind_response_onevent ::
  "(nostr_event \<Rightarrow> bool) \<Rightarrow> (string \<Rightarrow> string option) \<Rightarrow> string \<Rightarrow> nostr_event \<Rightarrow> response_entry obj
     \<Rightarrow> response_entry list option \<times> response_entry obj" where
  "blind_response_onevent verifyEvent npubHex questionnaireId event eventsById =
     (case accepted_response_entry verifyEvent npubHex questionnaireId event of
        None \<Rightarrow> (None, eventsById)
      | Some entry \<Rightarrow>
          let updated = obj_set (ne_id event) entry eventsById in (Some (map snd updated), updated))"

section \<open>Submission decisions\<close>

record public_decision =
  pd_questionnaireId :: string
  pd_submissionId :: string
  pd_tokenNullifier :: string
  pd_accepted :: bool
  pd_reason :: string
  pd_decidedAt :: jsnum
  pd_coordinatorPubkey :: string

record decision_entry =
  de_event :: nostr_event
  de_decision :: public_decision

definition parseQuestionnaireSubmissionDecisionEvent :: "jsval option \<Rightarrow> public_decision option" where
  "parseQuestionnaireSubmissionDecisionEvent content = (case content of None \<Rightarrow> None | Some parsed \<Rightarrow>
     if \<not> schema_1 ''questionnaire_submission_decision'' parsed
        \<or> \<not> strings_present [''questionnaireId'', ''submissionId'', ''tokenNullifier''] parsed
        \<or> \<not> strings_present [''reason'', ''coordinatorPubkey''] parsed
     then None
     else (case (json_prop ''accepted'' parsed, json_prop ''decidedAt'' parsed) of
        (JBool accepted, JNum decidedAt) \<Rightarrow>
          Some \<lparr>pd_questionnaireId = str_prop ''questionnaireId'' parsed,
            pd_submissionId = str_prop ''submissionId'' parsed,
            pd_tokenNullifier = str_prop ''tokenNullifier'' parsed, pd_accepted = accepted,
            pd_reason = str_prop ''reason'' parsed, pd_decidedAt = decidedAt,
            pd_coordinatorPubkey = str_prop ''coordinatorPubkey'' parsed\<rparr>
      | _ \<Rightarrow> None))"

definition accepted_decision_entry ::
  "(nostr_event \<Rightarrow> bool) \<Rightarrow> string \<Rightarrow> nostr_event \<Rightarrow> decision_entry option" where
  "accepted_decision_entry verifyEvent questionnaireId event =
     (if \<not> verifyEvent event then None
      else case parseQuestionnaireSubmissionDecisionEvent (ne_content event) of
        None \<Rightarrow> None
      | Some parsed \<Rightarrow>
          if pd_questionnaireId parsed = questionnaireId
          then Some \<lparr>de_event = event, de_decision = parsed\<rparr> else None)"

definition fetchQuestionnaireSubmissionDecisions ::
  "(nostr_event \<Rightarrow> bool) \<Rightarrow> string \<Rightarrow> nostr_event list \<Rightarrow> decision_entry list" where
  "fetchQuestionnaireSubmissionDecisions verifyEvent questionnaireId events =
     List.map_filter (accepted_decision_entry verifyEvent questionnaireId) events"

section \<open>Other streams\<close>

record private_invite_status =
  pi_questionnaireId :: string
  pi_coordinatorPubkey :: string
  pi_codeHash :: string
  pi_state :: string
  pi_createdAt :: jsnum
  pi_redeemedNpubHash :: "string option"
  pi_redemptionCount :: "int option"
  pi_maxRedemptions :: "int option"
  pi_redeemedAt :: "string option"
  pi_revokedAt :: "string option"

definition QUESTIONNAIRE_PRIVATE_INVITE_STATUS_KIND :: int where
  "QUESTIONNAIRE_PRIVATE_INVITE_STATUS_KIND = 6426"

definition string_option :: "jsval \<Rightarrow> string option" where
  "string_option v = (case v of JStr s \<Rightarrow> Some s | _ \<Rightarrow> None)"

text \<open>A \<open>codeHash\<close> without \<open>trim\<close> throws, which the parser turns into \<open>null\<close>.\<close>

definition parseQuestionnairePrivateInviteStatusEvent :: "nostr_event \<Rightarrow> private_invite_status option" where
  "parseQuestionnairePrivateInviteStatusEvent event =
     (if ne_kind event \<noteq> QUESTIONNAIRE_PRIVATE_INVITE_STATUS_KIND then None
      else case ne_content event of None \<Rightarrow> None
      | Some parsed \<Rightarrow>
         (let codeHash = js_lower (js_trim (str_prop ''codeHash'' parsed))
          in if \<not> schema_1 ''questionnaire_private_invite_status'' parsed
                \<or> \<not> strings_present [''questionnaireId'', ''coordinatorPubkey''] parsed
                \<or> \<not> is_hex64 codeHash
                \<or> json_prop ''state'' parsed \<notin> set [JStr ''available'', JStr ''redeemed'', JStr ''revoked'']
             then None
             else case finite_number (json_prop ''createdAt'' parsed) of None \<Rightarrow> None
             | Some createdAt \<Rightarrow>
                 Some \<lparr>pi_questionnaireId = js_trim (str_prop ''questionnaireId'' parsed),
                   pi_coordinatorPubkey = js_trim (str_prop ''coordinatorPubkey'' parsed),
                   pi_codeHash = codeHash, pi_state = str_prop ''state'' parsed, pi_createdAt = createdAt,
                   pi_redeemedNpubHash = (let hash = js_lower (js_trim (str_prop ''redeemedNpubHash'' parsed))
                      in if hash = [] then None else Some hash),
                   pi_redemptionCount = map_option (floor_at_least 0)
                      (finite_number (json_prop ''redemptionCount'' parsed)),
                   pi_maxRedemptions = map_option (\<lambda>n. normaliseQuestionnairePrivateInviteMaxRedemptions (JNum n))
                      (finite_number (json_prop ''maxRedemptions'' parsed)),
                   pi_redeemedAt = string_option (json_prop ''redeemedAt'' parsed),
                   pi_revokedAt = string_option (json_prop ''revokedAt'' parsed)\<rparr>))"

text \<open>The newest status of a code; equal times are ordered by event id, the larger first.\<close>

definition newer_status ::
  "host \<Rightarrow> nostr_event \<times> private_invite_status \<Rightarrow> nostr_event \<times> private_invite_status \<Rightarrow> int" where
  "newer_status h l r =
     (if num_lt (pi_createdAt (snd l)) (pi_createdAt (snd r)) then 1
      else if num_lt (pi_createdAt (snd r)) (pi_createdAt (snd l)) then -1
      else host_localeCompare h (ne_id (fst r)) (ne_id (fst l)))"

definition with_parsed :: "(nostr_event \<Rightarrow> 'a option) \<Rightarrow> nostr_event list \<Rightarrow> (nostr_event \<times> 'a) list" where
  "with_parsed parse events = List.map_filter (\<lambda>e. map_option (Pair e) (parse e)) events"

definition first_of :: "'a list \<Rightarrow> 'a option" where
  "first_of xs = (case xs of [] \<Rightarrow> None | x # _ \<Rightarrow> Some x)"

definition fetchQuestionnairePrivateInviteStatus ::
  "host \<Rightarrow> string \<Rightarrow> nostr_event list \<Rightarrow> (nostr_event \<times> private_invite_status) option" where
  "fetchQuestionnairePrivateInviteStatus h codeHash events =
     (let normalizedCodeHash = js_lower (js_trim codeHash)
      in if normalizedCodeHash = [] then None
         else first_of (js_sort (newer_status h)
           (filter (\<lambda>e. pi_codeHash (snd e) = normalizedCodeHash)
             (with_parsed parseQuestionnairePrivateInviteStatusEvent events))))"

record participant_count =
  pc_questionnaireId :: string
  pc_coordinatorPubkey :: string
  pc_expectedInviteeCount :: int
  pc_createdAt :: jsnum

definition QUESTIONNAIRE_PARTICIPANT_COUNT_KIND :: int where
  "QUESTIONNAIRE_PARTICIPANT_COUNT_KIND = 34506"

definition parseQuestionnaireParticipantCountEvent :: "nostr_event \<Rightarrow> participant_count option" where
  "parseQuestionnaireParticipantCountEvent event =
     (if ne_kind event \<noteq> QUESTIONNAIRE_PARTICIPANT_COUNT_KIND then None
      else case ne_content event of None \<Rightarrow> None
      | Some parsed \<Rightarrow>
          if \<not> schema_1 ''questionnaire_participant_count'' parsed
             \<or> \<not> strings_present [''questionnaireId'', ''coordinatorPubkey''] parsed then None
          else (case (finite_number (json_prop ''expectedInviteeCount'' parsed),
                      finite_number (json_prop ''createdAt'' parsed)) of
            (Some count, Some createdAt) \<Rightarrow>
              if num_lt count (num_int 0) then None
              else Some \<lparr>pc_questionnaireId = str_prop ''questionnaireId'' parsed,
                     pc_coordinatorPubkey = str_prop ''coordinatorPubkey'' parsed,
                     pc_expectedInviteeCount = floor_at_least 0 count, pc_createdAt = createdAt\<rparr>
          | _ \<Rightarrow> None))"

definition fetchQuestionnaireParticipantCount ::
  "nostr_event list \<Rightarrow> (nostr_event \<times> participant_count) list" where
  "fetchQuestionnaireParticipantCount events = with_parsed parseQuestionnaireParticipantCountEvent events"

section \<open>Delegated workers\<close>

definition mergeEventsById :: "nostr_event list list \<Rightarrow> nostr_event list" where
  "mergeEventsById groups = map snd (from_entries (map (\<lambda>e. (ne_id e, e)) (concat groups)))"

definition toEventUnix :: "host \<Rightarrow> nostr_event \<Rightarrow> string \<Rightarrow> int" where
  "toEventUnix h event fallbackIso =
     (if ne_created_at event > 0 then ne_created_at event
      else if fallbackIso = [] then 0
      else floor_at_least 0 (num_scale (1 / 1000) (host_dateParse h fallbackIso)))"

definition parsed_delegation :: "string \<Rightarrow> nostr_event \<Rightarrow> jsval option" where
  "parsed_delegation questionnaireId event = (case parseWorkerDelegationEvent (ne_kind event) (ne_content event) of
     Some d \<Rightarrow> if str_prop ''electionId'' d = questionnaireId then Some d else None | None \<Rightarrow> None)"

definition parsed_revocation :: "string \<Rightarrow> nostr_event \<Rightarrow> jsval option" where
  "parsed_revocation questionnaireId event =
     (case parseWorkerDelegationRevocationEvent (ne_kind event) (ne_content event) of
        Some r \<Rightarrow> if str_prop ''electionId'' r = questionnaireId then Some r else None | None \<Rightarrow> None)"

definition fetchWorkerControlEventsByCoordinator ::
  "(string \<Rightarrow> string option) \<Rightarrow> string \<Rightarrow> int \<Rightarrow> string option \<Rightarrow> nostr_event list \<Rightarrow> nostr_event list" where
  "fetchWorkerControlEventsByCoordinator npubHex questionnaireId kind coordinatorNpub events =
     (if toHexPubkey npubHex coordinatorNpub = [] then []
      else filter (\<lambda>event. kind = ne_kind event
        \<and> (if kind = OPTIONA_WORKER_DELEGATION_KIND then parsed_delegation questionnaireId event \<noteq> None
           else parsed_revocation questionnaireId event \<noteq> None)) events)"

definition delegation_order ::
  "host \<Rightarrow> nostr_event \<times> jsval \<Rightarrow> nostr_event \<times> jsval \<Rightarrow> int" where
  "delegation_order h l r = toEventUnix h (fst r) (str_prop ''issuedAt'' (snd r))
     - toEventUnix h (fst l) (str_prop ''issuedAt'' (snd l))"

definition latest_delegation ::
  "host \<Rightarrow> (nostr_event \<times> jsval) list \<Rightarrow> (nostr_event \<times> jsval) option" where
  "latest_delegation h entries = first_of (js_sort (delegation_order h) entries)"

datatype delegation_state = DelegationActive | DelegationRevoked | DelegationExpired | DelegationNone

record delegation_status =
  dg_state :: delegation_state
  dg_delegationId :: "string option"
  dg_workerNpub :: "string option"
  dg_expiresAt :: "string option"
  dg_updatedAt :: "int option"

text \<open>
  The status shown to the public.  The source keeps the newest revocation of every delegation in a
  map and then asks only whether there is one.
\<close>

definition revocation_table ::
  "host \<Rightarrow> string \<Rightarrow> nostr_event list \<Rightarrow> (nostr_event \<times> jsval) obj" where
  "revocation_table h questionnaireId events =
     foldl (\<lambda>table entry.
         let key = str_prop ''delegationId'' (snd entry)
         in case obj_get table key of
              Some existing \<Rightarrow>
                if toEventUnix h (fst existing) (str_prop ''revokedAt'' (snd existing))
                     \<le> toEventUnix h (fst entry) (str_prop ''revokedAt'' (snd entry))
                then obj_set key entry table else table
            | None \<Rightarrow> obj_set key entry table)
       [] (with_parsed (parsed_revocation questionnaireId) events)"

definition expired_at :: "host \<Rightarrow> jsnum \<Rightarrow> string \<Rightarrow> bool" where
  "expired_at h nowMs expiresAt =
     (num_isFinite (host_dateParse h expiresAt) \<and> num_le (host_dateParse h expiresAt) nowMs)"

definition fetchQuestionnaireWorkerDelegationStatus ::
  "host \<Rightarrow> string \<Rightarrow> jsnum \<Rightarrow> nostr_event list \<Rightarrow> nostr_event list \<Rightarrow> delegation_status" where
  "fetchQuestionnaireWorkerDelegationStatus h questionnaireId nowMs delegationEvents revocationEvents =
     (case latest_delegation h (with_parsed (parsed_delegation questionnaireId) delegationEvents) of
        None \<Rightarrow> \<lparr>dg_state = DelegationNone, dg_delegationId = None, dg_workerNpub = None,
                  dg_expiresAt = None, dg_updatedAt = None\<rparr>
      | Some (event, delegation) \<Rightarrow>
          let delegationRevoked = (obj_get (revocation_table h questionnaireId revocationEvents)
                (str_prop ''delegationId'' delegation) \<noteq> None);
              expiresAt = str_prop ''expiresAt'' delegation
          in \<lparr>dg_state = (if delegationRevoked then DelegationRevoked
                else if expired_at h nowMs expiresAt then DelegationExpired else DelegationActive),
              dg_delegationId = Some (str_prop ''delegationId'' delegation),
              dg_workerNpub = Some (str_prop ''workerNpub'' delegation), dg_expiresAt = Some expiresAt,
              dg_updatedAt = Some (toEventUnix h event (str_prop ''issuedAt'' delegation))\<rparr>)"

text \<open>The delegation a voter's browser sends its request to: signed by the coordinator it declares.\<close>

definition declared_author ::
  "(string \<Rightarrow> string option) \<Rightarrow> string \<Rightarrow> nostr_event \<times> jsval \<Rightarrow> bool" where
  "declared_author npubHex expectedCoordinatorHex entry =
     (let declared = toHexPubkey npubHex (Some (str_prop ''coordinatorNpub'' (snd entry)))
      in declared \<noteq> [] \<and> js_lower (ne_pubkey (fst entry)) = declared
         \<and> (expectedCoordinatorHex = [] \<or> declared = expectedCoordinatorHex))"

definition revoked_ids ::
  "(string \<Rightarrow> string option) \<Rightarrow> string \<Rightarrow> string \<Rightarrow> nostr_event list \<Rightarrow> string list" where
  "revoked_ids npubHex questionnaireId expectedCoordinatorHex events =
     map (\<lambda>entry. str_prop ''delegationId'' (snd entry))
       (filter (declared_author npubHex expectedCoordinatorHex)
         (with_parsed (parsed_revocation questionnaireId) events))"

definition delegation_usable ::
  "host \<Rightarrow> (string \<Rightarrow> string option) \<Rightarrow> string \<Rightarrow> string \<Rightarrow> string list \<Rightarrow> jsnum \<Rightarrow> nostr_event \<times> jsval \<Rightarrow> bool" where
  "delegation_usable h npubHex capability expectedCoordinatorHex revocationIds nowMs entry =
     (declared_author npubHex expectedCoordinatorHex entry
      \<and> JStr capability \<in> set (array_or_empty (json_prop ''capabilities'' (snd entry)))
      \<and> str_prop ''delegationId'' (snd entry) \<notin> set revocationIds
      \<and> \<not> expired_at h nowMs (str_prop ''expiresAt'' (snd entry)))"

definition fetchQuestionnaireActiveWorkerDelegationForCapability ::
  "host \<Rightarrow> (string \<Rightarrow> string option) \<Rightarrow> string \<Rightarrow> string \<Rightarrow> string option \<Rightarrow> jsnum
     \<Rightarrow> nostr_event list list \<Rightarrow> nostr_event list list \<Rightarrow> jsval option" where
  "fetchQuestionnaireActiveWorkerDelegationForCapability h npubHex questionnaireId capability coordinatorNpub
     nowMs delegationEvents revocationEvents =
     (let expectedCoordinatorHex = toHexPubkey npubHex coordinatorNpub;
          named = (case coordinatorNpub of None \<Rightarrow> False | Some npub \<Rightarrow> js_trim npub \<noteq> []);
          revocationIds = revoked_ids npubHex questionnaireId expectedCoordinatorHex (mergeEventsById revocationEvents)
      in if named \<and> expectedCoordinatorHex = [] then None
         else map_option snd (latest_delegation h
           (filter (delegation_usable h npubHex capability expectedCoordinatorHex revocationIds nowMs)
             (with_parsed (parsed_delegation questionnaireId) (mergeEventsById delegationEvents)))))"

end
