(* ===== verification/Blind_Admissions.thy ===== *)
theory Blind_Admissions
  imports Public_Events
begin

text \<open>
  Which public responses count (\<open>web/src/questionnaireTransport.ts\<close>): the responses are put in a
  canonical order, repeated ones are dropped, the token proofs are verified, and one pass over the
  rest accepts a response when its proof is valid and its token is new, unless a submission decision
  settles it.  The coordinator's panel and the auditor's page compute their results with it.
\<close>

section \<open>Order and repetitions\<close>

definition canonicalBlindResponseOrder :: "host \<Rightarrow> response_entry \<Rightarrow> response_entry \<Rightarrow> int" where
  "canonicalBlindResponseOrder h l r =
     (let createdAtDelta = ne_created_at (en_event l) - ne_created_at (en_event r)
      in if createdAtDelta \<noteq> 0 then createdAtDelta
         else host_localeCompare h (ne_id (en_event l)) (ne_id (en_event r)))"

definition or_empty_array :: "jsval list option \<Rightarrow> jsval" where
  "or_empty_array vs = JArr (case vs of None \<Rightarrow> [] | Some xs \<Rightarrow> xs)"

definition fingerprint_value :: "blind_response \<Rightarrow> jsval" where
  "fingerprint_value r = JObj
     [(''schemaVersion'', JNum (num_int 1)), (''eventType'', JStr ''questionnaire_response_blind''),
      (''questionnaireId'', JStr (js_trim (br_questionnaireId r))),
      (''responseId'', JStr (js_trim (br_responseId r))), (''submittedAt'', br_submittedAt r),
      (''authorPubkey'', JStr (js_trim (br_authorPubkey r))),
      (''tokenNullifier'', JStr (js_trim (br_tokenNullifier r))),
      (''tokenNullifiers'', or_empty_array (br_tokenNullifiers r)), (''tokenProof'', br_tokenProof r),
      (''tokenProofs'', or_empty_array (br_tokenProofs r)),
      (''answers'', case br_answers r of JUndefined \<Rightarrow> JArr [] | JNull \<Rightarrow> JArr [] | v \<Rightarrow> v)]"

definition fingerprintBlindResponsePayload :: "host \<Rightarrow> blind_response \<Rightarrow> string" where
  "fingerprintBlindResponsePayload h r = JSON_stringify h (fingerprint_value r)"

definition response_id :: "response_entry \<Rightarrow> string" where
  "response_id entry = js_trim (br_responseId (en_response entry))"

definition event_id :: "response_entry \<Rightarrow> string" where
  "event_id entry = js_trim (ne_id (en_event entry))"

definition logical_payload_key :: "host \<Rightarrow> response_entry \<Rightarrow> string" where
  "logical_payload_key h entry = (if response_id entry = [] then []
     else response_id entry @ '':'' @ fingerprintBlindResponsePayload h (en_response entry))"

definition add_if :: "string \<Rightarrow> string list \<Rightarrow> string list" where
  "add_if x xs = (if x = [] then xs else x # xs)"

fun dedupe_entries :: "host \<Rightarrow> string list \<Rightarrow> string list \<Rightarrow> response_entry list \<Rightarrow> response_entry list" where
  "dedupe_entries h seenEventIds seenLogicalPayloads [] = []"
| "dedupe_entries h seenEventIds seenLogicalPayloads (entry # rest) =
     (let eventId = event_id entry;
          seenIds = add_if eventId seenEventIds;
          key = logical_payload_key h entry
      in if eventId \<noteq> [] \<and> eventId \<in> set seenEventIds
           then dedupe_entries h seenEventIds seenLogicalPayloads rest
         else if key \<noteq> [] \<and> key \<in> set seenLogicalPayloads
           then dedupe_entries h seenIds seenLogicalPayloads rest
         else entry # dedupe_entries h seenIds (add_if key seenLogicalPayloads) rest)"

definition dedupeBlindResponseEntries :: "host \<Rightarrow> response_entry list \<Rightarrow> response_entry list" where
  "dedupeBlindResponseEntries h entries =
     dedupe_entries h [] [] (js_sort (canonicalBlindResponseOrder h) entries)"

section \<open>Tokens of a response\<close>

definition responseNullifiers :: "blind_response \<Rightarrow> string list" where
  "responseNullifiers r =
     (let vals = filter (\<lambda>n. n \<noteq> []) (map (\<lambda>entry. js_trim (str_prop ''tokenNullifier'' entry))
            (case br_tokenNullifiers r of None \<Rightarrow> [] | Some es \<Rightarrow> es));
          legacy = js_trim (br_tokenNullifier r)
      in js_set (if vals \<noteq> [] then vals else filter (\<lambda>n. n \<noteq> []) [legacy]))"

definition responseTokenProofs :: "blind_response \<Rightarrow> jsval list" where
  "responseTokenProofs r = (case br_tokenProofs r of
     Some (p # ps) \<Rightarrow> p # ps | _ \<Rightarrow> [br_tokenProof r])"

definition responseTokenCommitments :: "blind_response \<Rightarrow> string list" where
  "responseTokenCommitments r = filter (\<lambda>c. c \<noteq> [])
     (map (\<lambda>proof. js_trim (str_prop ''tokenCommitment'' proof)) (responseTokenProofs r))"

section \<open>Proof verdicts\<close>

datatype verdict = Valid | Invalid | Unknown

record blind_proof_verdict =
  bv_verdict :: verdict
  bv_reason :: "string option"

definition trimmable :: "jsval \<Rightarrow> bool" where
  "trimmable v = (case v of JStr _ \<Rightarrow> True | JNull \<Rightarrow> True | JUndefined \<Rightarrow> True | _ \<Rightarrow> False)"

definition string_field :: "jsval \<Rightarrow> string field" where
  "string_field v = (case v of JStr s \<Rightarrow> Present s | _ \<Rightarrow> Undefined)"

definition number_field :: "jsval \<Rightarrow> jsnum field" where
  "number_field v = (case v of JNum n \<Rightarrow> Present n | _ \<Rightarrow> Undefined)"

definition array_field :: "jsval \<Rightarrow> jsval list field" where
  "array_field v = (case v of JArr vs \<Rightarrow> Present vs | _ \<Rightarrow> Undefined)"

text \<open>
  The scope that a proof names, as \<open>normaliseBlindTokenScope\<close> reads it: a number that is none, a group
  that is no string and an array that is none count as absent, but a question or slot id that is
  neither a string nor nullish has no \<open>trim\<close>, and the call throws (\<open>None\<close>).
\<close>

definition scope_of_value :: "jsval \<Rightarrow> ballot_scope option option" where
  "scope_of_value v =
     (if \<not> js_truthy v then Some None
      else if \<not> trimmable (json_prop ''questionId'' v) \<or> \<not> trimmable (json_prop ''slotId'' v) then None
      else Some (Some \<lparr>sc_questionId = string_field (json_prop ''questionId'' v),
             sc_slotId = string_field (json_prop ''slotId'' v),
             sc_slotIndex = number_field (json_prop ''slotIndex'' v),
             sc_version = number_field (json_prop ''version'' v),
             sc_credentialIndex = number_field (json_prop ''credentialIndex'' v),
             sc_allowedScopes = array_field (json_prop ''allowedScopes'' v),
             sc_ballotGroup = string_field (json_prop ''ballotGroup'' v)\<rparr>))"

text \<open>\<open>proof.ballotScope ?? (proof.questionId ? { questionId: proof.questionId } : null)\<close>\<close>

definition proof_scope :: "jsval \<Rightarrow> jsval" where
  "proof_scope proof = (case json_prop ''ballotScope'' proof of
     JUndefined \<Rightarrow> if js_truthy (json_prop ''questionId'' proof)
        then JObj [(''questionId'', json_prop ''questionId'' proof)] else JNull
   | JNull \<Rightarrow> if js_truthy (json_prop ''questionId'' proof)
        then JObj [(''questionId'', json_prop ''questionId'' proof)] else JNull
   | v \<Rightarrow> v)"

definition proof_verifies ::
  "host \<Rightarrow> blind_verifier \<Rightarrow> blind_public_key \<Rightarrow> blind_response \<Rightarrow> jsval \<Rightarrow> bool option" where
  "proof_verifies h verify publicKey r proof = (case scope_of_value (proof_scope proof) of
     None \<Rightarrow> None
   | Some scope \<Rightarrow>
       map_option (\<lambda>message. verify publicKey message (str_prop ''signature'' proof))
         (buildQuestionnaireBlindTokenSignedMessage h (br_questionnaireId r)
           (str_prop ''tokenCommitment'' proof) scope))"

definition response_proofs_valid ::
  "host \<Rightarrow> blind_verifier \<Rightarrow> blind_public_key \<Rightarrow> blind_response \<Rightarrow> bool option" where
  "response_proofs_valid h verify publicKey r =
     map_option (list_all (\<lambda>b. b)) (those (map (proof_verifies h verify publicKey r) (responseTokenProofs r)))"

definition checked_verdict :: "bool \<Rightarrow> blind_proof_verdict" where
  "checked_verdict valid = (if valid then \<lparr>bv_verdict = Valid, bv_reason = None\<rparr>
     else \<lparr>bv_verdict = Invalid, bv_reason = Some ''token_proof_signature_invalid''\<rparr>)"

definition unknown_verdict :: blind_proof_verdict where
  "unknown_verdict = \<lparr>bv_verdict = Unknown, bv_reason = Some ''definition_blind_signing_public_key_absent''\<rparr>"

text \<open>
  The verdicts by response id.  The checks of the entries run side by side, and each stores its
  verdict when it ends: \<open>completion\<close> lists the entries in the order in which their checks end.
  \<open>None\<close> is the rejection of the promise, when one check throws.
\<close>

definition verifyQuestionnaireBlindResponseProofVerdicts ::
  "host \<Rightarrow> blind_verifier \<Rightarrow> blind_public_key option \<Rightarrow> response_entry list \<Rightarrow> response_entry list
     \<Rightarrow> blind_proof_verdict obj option" where
  "verifyQuestionnaireBlindResponseProofVerdicts h verify publicKey entries completion =
     (case publicKey of
        None \<Rightarrow> Some (from_entries (map (\<lambda>entry. (response_id entry, unknown_verdict))
                  (filter (\<lambda>entry. response_id entry \<noteq> []) entries)))
      | Some key \<Rightarrow> map_option from_entries (those (map
          (\<lambda>entry. map_option (\<lambda>valid. (response_id entry, checked_verdict valid))
             (response_proofs_valid h verify key (en_response entry)))
          (filter (\<lambda>entry. response_id entry \<noteq> []) completion))))"

section \<open>Decisions\<close>

definition choosePreferredSubmissionDecision :: "decision_entry option \<Rightarrow> decision_entry \<Rightarrow> decision_entry" where
  "choosePreferredSubmissionDecision existing next = (case existing of
     None \<Rightarrow> next
   | Some old \<Rightarrow>
       if pd_accepted (de_decision old) \<noteq> pd_accepted (de_decision next)
       then (if pd_accepted (de_decision old) then old else next)
       else if ne_created_at (de_event old) \<le> ne_created_at (de_event next) then next else old)"

fun latest_decisions :: "decision_entry list \<Rightarrow> decision_entry obj \<Rightarrow> decision_entry obj" where
  "latest_decisions [] table = table"
| "latest_decisions (entry # rest) table =
     (let submissionId = js_trim (pd_submissionId (de_decision entry))
      in if submissionId = [] then latest_decisions rest table
         else latest_decisions rest (obj_set submissionId
           (choosePreferredSubmissionDecision (obj_get table submissionId) entry) table))"

section \<open>Admission\<close>

record blind_admission =
  ad_entry :: response_entry
  ad_accepted :: bool
  ad_rejectionReason :: "string option"
  ad_decidedAt :: "jsnum option"
  ad_decisionEventId :: "string option"

text \<open>What has been accepted so far: the three sets of the source, in insertion order.\<close>

record admitted =
  am_nullifiers :: "string list"
  am_commitments :: "string list"
  am_responseIds :: "string list"

definition nothing_admitted :: admitted where
  "nothing_admitted = \<lparr>am_nullifiers = [], am_commitments = [], am_responseIds = []\<rparr>"

definition add_new :: "string list \<Rightarrow> string list \<Rightarrow> string list" where
  "add_new xs seen = js_set (seen @ xs)"

definition record_admitted :: "response_entry \<Rightarrow> admitted \<Rightarrow> admitted" where
  "record_admitted entry am =
     \<lparr>am_nullifiers = add_new (responseNullifiers (en_response entry)) (am_nullifiers am),
      am_commitments = add_new (responseTokenCommitments (en_response entry)) (am_commitments am),
      am_responseIds = add_new (filter (\<lambda>i. i \<noteq> []) [response_id entry]) (am_responseIds am)\<rparr>"

definition refused :: "response_entry \<Rightarrow> string \<Rightarrow> blind_admission" where
  "refused entry reason = \<lparr>ad_entry = entry, ad_accepted = False, ad_rejectionReason = Some reason,
     ad_decidedAt = None, ad_decisionEventId = None\<rparr>"

definition decided :: "response_entry \<Rightarrow> decision_entry \<Rightarrow> blind_admission" where
  "decided entry d = \<lparr>ad_entry = entry, ad_accepted = pd_accepted (de_decision d),
     ad_rejectionReason = (if pd_accepted (de_decision d) then None else Some (pd_reason (de_decision d))),
     ad_decidedAt = Some (pd_decidedAt (de_decision d)), ad_decisionEventId = Some (ne_id (de_event d))\<rparr>"

definition unproved :: "response_entry \<Rightarrow> bool \<Rightarrow> decision_entry option \<Rightarrow> blind_admission" where
  "unproved entry proofUnknown explicit =
     (let rejecting = (case explicit of Some d \<Rightarrow> if pd_accepted (de_decision d) then None else Some d | None \<Rightarrow> None)
      in \<lparr>ad_entry = entry, ad_accepted = False,
          ad_rejectionReason = Some (if proofUnknown then ''unknown_token_proof'' else ''invalid_token_proof''),
          ad_decidedAt = map_option (\<lambda>d. pd_decidedAt (de_decision d)) rejecting,
          ad_decisionEventId = map_option (\<lambda>d. ne_id (de_event d)) rejecting\<rparr>)"

definition admitted_entry :: "response_entry \<Rightarrow> blind_admission" where
  "admitted_entry entry = \<lparr>ad_entry = entry, ad_accepted = True, ad_rejectionReason = None,
     ad_decidedAt = None, ad_decisionEventId = None\<rparr>"

text \<open>A token of the response has been accepted before.\<close>

definition token_used :: "admitted \<Rightarrow> response_entry \<Rightarrow> bool" where
  "token_used am entry =
     ((\<exists>n\<in>set (responseNullifiers (en_response entry)). n \<in> set (am_nullifiers am))
      \<or> (\<exists>c\<in>set (responseTokenCommitments (en_response entry)). c \<in> set (am_commitments am)))"

text \<open>The decision that settles a response, unless a proof found valid here overrides it.\<close>

definition settling_decision :: "decision_entry option \<Rightarrow> bool \<Rightarrow> decision_entry option" where
  "settling_decision explicit proofValid = (case explicit of
     None \<Rightarrow> None
   | Some d \<Rightarrow> if proofValid \<and> \<not> pd_accepted (de_decision d) \<and> pd_reason (de_decision d) = ''invalid_token_proof''
        then None else Some d)"

definition admit_entry ::
  "bool \<Rightarrow> blind_proof_verdict obj \<Rightarrow> decision_entry obj \<Rightarrow> admitted \<Rightarrow> response_entry
     \<Rightarrow> blind_admission \<times> admitted" where
  "admit_entry requireVerifiedProofs verdicts decisions am entry =
     (let responseId = response_id entry;
          explicit = obj_get decisions responseId;
          proofVerdict = map_option bv_verdict (obj_get verdicts responseId);
          proofValid = (proofVerdict = Some Valid)
      in if requireVerifiedProofs \<and> \<not> proofValid
           then (unproved entry (proofVerdict = Some Unknown) explicit, am)
         else (case settling_decision explicit proofValid of
           Some d \<Rightarrow> (decided entry d, if pd_accepted (de_decision d) then record_admitted entry am else am)
         | None \<Rightarrow>
             if responseId \<noteq> [] \<and> responseId \<in> set (am_responseIds am)
               then (refused entry ''duplicate_response'', am)
             else if token_used am entry then (refused entry ''duplicate_nullifier'', am)
             else (admitted_entry entry, record_admitted entry am)))"

fun admit_entries ::
  "bool \<Rightarrow> blind_proof_verdict obj \<Rightarrow> decision_entry obj \<Rightarrow> admitted \<Rightarrow> response_entry list
     \<Rightarrow> blind_admission list \<times> admitted" where
  "admit_entries required verdicts decisions am [] = ([], am)"
| "admit_entries required verdicts decisions am (entry # rest) =
     (let (admission, am') = admit_entry required verdicts decisions am entry;
          (admissions, am'') = admit_entries required verdicts decisions am' rest
      in (admission # admissions, am''))"

record blind_admissions =
  ba_decisions :: "blind_admission list"
  ba_accepted :: "blind_admission list"
  ba_rejected :: "blind_admission list"
  ba_acceptedCountByNullifier :: "nat obj"

definition evaluateQuestionnaireBlindAdmissions ::
  "host \<Rightarrow> response_entry list \<Rightarrow> decision_entry list \<Rightarrow> (string \<times> blind_proof_verdict) list option \<Rightarrow> bool option
     \<Rightarrow> blind_admissions" where
  "evaluateQuestionnaireBlindAdmissions h entries decisionEntries proofVerdicts requireVerifiedProofs =
     (let ordered = dedupeBlindResponseEntries h entries;
          verdicts = from_entries (case proofVerdicts of None \<Rightarrow> [] | Some vs \<Rightarrow> vs);
          required = (case requireVerifiedProofs of None \<Rightarrow> proofVerdicts \<noteq> None | Some b \<Rightarrow> b);
          (admissions, am) = admit_entries required verdicts (latest_decisions decisionEntries [])
             nothing_admitted ordered
      in \<lparr>ba_decisions = admissions, ba_accepted = filter ad_accepted admissions,
          ba_rejected = filter (\<lambda>a. \<not> ad_accepted a) admissions,
          ba_acceptedCountByNullifier = from_entries (map (\<lambda>n. (n, 1)) (am_nullifiers am))\<rparr>)"

end
