(* ===== verification/Blind_Admission_Safety.thy ===== *)
theory Blind_Admission_Safety
  imports Blind_Admissions
begin

text \<open>
  Facts about the admission of public responses: what the pass has accepted is covered by its three
  sets, so that nothing is admitted again; a canonical order that is total and strict makes the result
  independent of what the relays sent first; the table of decisions keeps an accepting decision; the
  table of verdicts is the last verdict of every response id.
\<close>

section \<open>Conflicts between responses\<close>

text \<open>Two responses that must not both count: a shared nullifier, token commitment or response id.\<close>

definition conflicts :: "response_entry \<Rightarrow> response_entry \<Rightarrow> bool" where
  "conflicts e e' =
     ((\<exists>n\<in>set (responseNullifiers (en_response e)). n \<in> set (responseNullifiers (en_response e')))
      \<or> (\<exists>c\<in>set (responseTokenCommitments (en_response e)). c \<in> set (responseTokenCommitments (en_response e')))
      \<or> (response_id e = response_id e' \<and> response_id e \<noteq> []))"

definition covered :: "admitted \<Rightarrow> response_entry \<Rightarrow> bool" where
  "covered am e =
     (set (responseNullifiers (en_response e)) \<subseteq> set (am_nullifiers am)
      \<and> set (responseTokenCommitments (en_response e)) \<subseteq> set (am_commitments am)
      \<and> (response_id e \<noteq> [] \<longrightarrow> response_id e \<in> set (am_responseIds am)))"

lemma set_add_new [simp]: "set (add_new xs seen) = set seen \<union> set xs"
  by (simp add: add_new_def)

lemma covered_record [simp]: "covered (record_admitted e am) e"
  by (simp add: covered_def record_admitted_def)

lemma covered_record_mono: "covered am e \<Longrightarrow> covered (record_admitted e' am) e"
  by (auto simp: covered_def record_admitted_def)

lemma covered_no_conflict:
  assumes "covered am e" "\<not> token_used am e'" "response_id e' = [] \<or> response_id e' \<notin> set (am_responseIds am)"
  shows "\<not> conflicts e e'"
  using assms by (auto simp: conflicts_def covered_def token_used_def)

section \<open>The pass\<close>

lemma settling_decision_Some: "settling_decision x v = Some d \<Longrightarrow> x = Some d"
  by (auto simp: settling_decision_def split: option.splits if_splits)

lemma admit_entry_entry: "admit_entry r v d am e = (a, am') \<Longrightarrow> ad_entry a = e"
  by (auto simp: admit_entry_def Let_def unproved_def decided_def refused_def admitted_entry_def
      split: option.splits if_splits)

lemma admit_entry_accepted:
  assumes "admit_entry r v d am e = (a, am')"
  shows "am' = (if ad_accepted a then record_admitted e am else am)"
  using assms by (auto simp: admit_entry_def Let_def unproved_def decided_def refused_def admitted_entry_def
      split: option.splits if_splits)

lemma admit_entry_undecided:
  assumes "admit_entry r v d am e = (a, am')" "ad_accepted a" "ad_decisionEventId a = None"
  shows "\<not> token_used am e" "response_id e = [] \<or> response_id e \<notin> set (am_responseIds am)"
  using assms by (auto simp: admit_entry_def Let_def unproved_def decided_def refused_def admitted_entry_def
      split: option.splits if_splits)

lemma admit_entry_verdict:
  assumes "admit_entry True v d am e = (a, am')" "ad_accepted a"
  shows "map_option bv_verdict (obj_get v (response_id e)) = Some Valid"
  using assms by (auto simp: admit_entry_def Let_def unproved_def split: if_splits)

lemma admit_entry_by_decision:
  assumes "\<not> r \<or> map_option bv_verdict (obj_get v (response_id e)) = Some Valid"
    and "obj_get d (response_id e) = Some de" "pd_accepted (de_decision de)"
  shows "ad_accepted (fst (admit_entry r v d am e))"
  using assms by (auto simp: admit_entry_def Let_def settling_decision_def decided_def)

lemma admit_entries_entries: "admit_entries r v d am es = (as, am') \<Longrightarrow> map ad_entry as = es"
  by (induction es arbitrary: am as) (auto simp: Let_def admit_entry_entry split: prod.splits)

lemma admit_entries_covered:
  "admit_entries r v d am es = (as, am') \<Longrightarrow> covered am e \<Longrightarrow> covered am' e"
  by (induction es arbitrary: am as)
     (auto simp: Let_def covered_record_mono dest!: admit_entry_accepted split: prod.splits if_splits)

lemma admit_entries_fresh:
  "admit_entries r v d am es = (as, am') \<Longrightarrow> covered am e \<Longrightarrow>
     b \<in> set as \<Longrightarrow> ad_accepted b \<Longrightarrow> ad_decisionEventId b = None \<Longrightarrow> \<not> conflicts e (ad_entry b)"
proof (induction es arbitrary: am as)
  case Nil
  then show ?case by simp
next
  case (Cons x es)
  obtain a am1 as1 where step: "admit_entry r v d am x = (a, am1)"
    and rest: "admit_entries r v d am1 es = (as1, am')" and as: "as = a # as1"
    using Cons.prems(1) by (auto simp: Let_def split: prod.splits)
  have "covered am1 e"
    using admit_entry_accepted [OF step] Cons.prems(2) by (simp add: covered_record_mono)
  with Cons.IH [OF rest] Cons.prems as show ?case
    using covered_no_conflict [OF Cons.prems(2) admit_entry_undecided [OF step]] admit_entry_entry [OF step]
    by auto
qed

lemma admit_entries_disjoint:
  "admit_entries r v d am es = (as, am') \<Longrightarrow>
     sorted_wrt (\<lambda>a b. ad_accepted a \<longrightarrow> ad_accepted b \<longrightarrow> ad_decisionEventId b = None
       \<longrightarrow> \<not> conflicts (ad_entry a) (ad_entry b)) as"
proof (induction es arbitrary: am as)
  case Nil
  then show ?case by simp
next
  case (Cons x es)
  obtain a am1 as1 where step: "admit_entry r v d am x = (a, am1)"
    and rest: "admit_entries r v d am1 es = (as1, am')" and as: "as = a # as1"
    using Cons.prems by (auto simp: Let_def split: prod.splits)
  have "\<not> conflicts (ad_entry a) (ad_entry b)"
    if "b \<in> set as1" "ad_accepted a" "ad_accepted b" "ad_decisionEventId b = None" for b
  proof -
    have "covered am1 (ad_entry a)"
      using admit_entry_accepted [OF step] admit_entry_entry [OF step] that(2) by simp
    from admit_entries_fresh [OF rest this that(1,3,4)] show ?thesis .
  qed
  with Cons.IH [OF rest] as show ?case by simp
qed

lemma admit_entries_verdict:
  "admit_entries True v d am es = (as, am') \<Longrightarrow> a \<in> set as \<Longrightarrow> ad_accepted a \<Longrightarrow>
     map_option bv_verdict (obj_get v (response_id (ad_entry a))) = Some Valid"
proof (induction es arbitrary: am as)
  case Nil
  then show ?case by simp
next
  case (Cons x es)
  obtain a1 am1 as1 where step: "admit_entry True v d am x = (a1, am1)"
    and rest: "admit_entries True v d am1 es = (as1, am')" and as: "as = a1 # as1"
    using Cons.prems(1) by (auto simp: Let_def split: prod.splits)
  show ?case
  proof (cases "a = a1")
    case True
    then show ?thesis
      using admit_entry_verdict [OF step] admit_entry_entry [OF step] Cons.prems(3) by simp
  next
    case False
    with Cons.IH [OF rest _ Cons.prems(3)] Cons.prems(2) as show ?thesis by simp
  qed
qed

lemma admit_entries_by_decision:
  assumes "\<not> r \<or> map_option bv_verdict (obj_get v (response_id e)) = Some Valid"
    and "obj_get d (response_id e) = Some de" "pd_accepted (de_decision de)"
  shows "admit_entries r v d am es = (as, am') \<Longrightarrow> e \<in> set es \<Longrightarrow> \<exists>a\<in>set as. ad_accepted a \<and> ad_entry a = e"
proof (induction es arbitrary: am as)
  case Nil
  then show ?case by simp
next
  case (Cons x es)
  obtain a am1 as1 where step: "admit_entry r v d am x = (a, am1)"
    and rest: "admit_entries r v d am1 es = (as1, am')" and as: "as = a # as1"
    using Cons.prems(1) by (auto simp: Let_def split: prod.splits)
  show ?case
  proof (cases "x = e")
    case True
    then show ?thesis
      using admit_entry_by_decision [OF assms, of am] step admit_entry_entry [OF step] as by auto
  next
    case False
    with Cons.IH [OF rest] Cons.prems(2) as show ?thesis by auto
  qed
qed

lemma admit_entries_no_decisions:
  "admit_entries r v [] am es = (as, am') \<Longrightarrow> a \<in> set as \<Longrightarrow> ad_decisionEventId a = None"
  by (induction es arbitrary: am as)
     (auto simp: Let_def admit_entry_def unproved_def refused_def admitted_entry_def settling_decision_def
       split: prod.splits if_splits)

section \<open>The table of decisions\<close>

lemma preferred_accepted:
  "pd_accepted (de_decision d) \<or> (\<exists>old. x = Some old \<and> pd_accepted (de_decision old)) \<Longrightarrow>
     pd_accepted (de_decision (choosePreferredSubmissionDecision x d))"
  by (auto simp: choosePreferredSubmissionDecision_def split: option.splits)

lemma latest_decisions_keeps:
  assumes "obj_get table k = Some old" "pd_accepted (de_decision old)"
  shows "\<exists>d. obj_get (latest_decisions ds table) k = Some d \<and> pd_accepted (de_decision d)"
  using assms
proof (induction ds table arbitrary: old rule: latest_decisions.induct)
  case (1 table)
  then show ?case by simp
next
  case (2 entry rest table)
  let ?id = "js_trim (pd_submissionId (de_decision entry))"
  show ?case
  proof (cases "?id = []")
    case True
    with 2 show ?thesis by (simp add: Let_def)
  next
    case False
    let ?next = "choosePreferredSubmissionDecision (obj_get table ?id) entry"
    obtain old' where "obj_get (obj_set ?id ?next table) k = Some old'" "pd_accepted (de_decision old')"
      using "2.prems" preferred_accepted [of entry "obj_get table ?id"] by (cases "k = ?id") auto
    with "2.IH"(2) [OF refl False] False show ?thesis by (simp add: Let_def)
  qed
qed

lemma latest_decisions_accepting:
  assumes "d \<in> set ds" "pd_accepted (de_decision d)" "js_trim (pd_submissionId (de_decision d)) = k" "k \<noteq> []"
  shows "\<exists>d'. obj_get (latest_decisions ds table) k = Some d' \<and> pd_accepted (de_decision d')"
  using assms
proof (induction ds table rule: latest_decisions.induct)
  case (1 table)
  then show ?case by simp
next
  case (2 entry rest table)
  let ?id = "js_trim (pd_submissionId (de_decision entry))"
  let ?table = "if ?id = [] then table
    else obj_set ?id (choosePreferredSubmissionDecision (obj_get table ?id) entry) table"
  have unfold: "latest_decisions (entry # rest) table = latest_decisions rest ?table"
    by (simp add: Let_def)
  show ?case
  proof (cases "d \<in> set rest")
    case True
    with 2 show ?thesis unfolding unfold by (cases "?id = []") (simp_all add: Let_def)
  next
    case False
    with "2.prems" have "d = entry" by simp
    with "2.prems" preferred_accepted [of entry "obj_get table ?id"] show ?thesis
      unfolding unfold by (intro latest_decisions_keeps [where old = "choosePreferredSubmissionDecision (obj_get table ?id) entry"]) auto
  qed
qed

section \<open>The table of verdicts\<close>

lemma those_members: "those (map f xs) = Some ys \<Longrightarrow> y \<in> set ys \<Longrightarrow> \<exists>x\<in>set xs. f x = Some y"
  by (induction xs arbitrary: ys) (auto split: option.splits)

lemma those_eq_None_iff: "those xs = None \<longleftrightarrow> None \<in> set xs"
  by (induction xs) (auto split: option.splits)

lemma from_entries_twice: "obj_get (from_entries (from_entries es)) k = obj_get (from_entries es) k"
proof (cases "obj_get (from_entries es) k")
  case None
  then have "k \<notin> fst ` set (from_entries es)" by (simp add: map_of_eq_None_iff)
  then have "obj_get (from_entries (from_entries es)) k = None"
    unfolding from_entries_def [of "from_entries es"] by (simp add: obj_get_set_all_notin)
  with None show ?thesis by simp
next
  case (Some v)
  then have "(k, v) \<in> set (from_entries es)" by (rule map_of_SomeD)
  then have "obj_get (from_entries (from_entries es)) k = Some v"
    unfolding from_entries_def [of "from_entries es"] by (intro obj_get_set_all_in) simp_all
  with Some show ?thesis by simp
qed

lemma verdict_of_check:
  assumes "verifyQuestionnaireBlindResponseProofVerdicts h verify (Some key) entries completion = Some vs"
    and "obj_get vs k = Some x"
  shows "\<exists>e valid. e \<in> set completion \<and> response_id e = k \<and> k \<noteq> []
     \<and> response_proofs_valid h verify key (en_response e) = Some valid \<and> x = checked_verdict valid"
proof -
  obtain ys where ys: "those (map (\<lambda>entry. map_option (\<lambda>valid. (response_id entry, checked_verdict valid))
        (response_proofs_valid h verify key (en_response entry)))
      (filter (\<lambda>entry. response_id entry \<noteq> []) completion)) = Some ys" and "vs = from_entries ys"
    using assms(1) by (auto simp: verifyQuestionnaireBlindResponseProofVerdicts_def)
  with assms(2) have "(k, x) \<in> set ys"
    by (auto simp: from_entries_def dest: obj_set_all_cases)
  from those_members [OF ys this] show ?thesis by auto
qed

lemma verdict_table_twice:
  assumes "verifyQuestionnaireBlindResponseProofVerdicts h verify (Some key) entries completion = Some vs"
  shows "obj_get (from_entries vs) k = obj_get vs k"
  using assms by (auto simp: verifyQuestionnaireBlindResponseProofVerdicts_def from_entries_twice)

lemma response_proofs_valid_all:
  assumes "response_proofs_valid h verify key r = Some True" "proof \<in> set (responseTokenProofs r)"
  shows "proof_verifies h verify key r proof = Some True"
proof -
  obtain bs where bs: "those (map (proof_verifies h verify key r) (responseTokenProofs r)) = Some bs"
    and all: "list_all (\<lambda>b. b) bs"
    using assms(1) by (auto simp: response_proofs_valid_def)
  have "those (map f xs) = Some bs \<Longrightarrow> x \<in> set xs \<Longrightarrow> list_all (\<lambda>b. b) bs \<Longrightarrow> f x = Some True" for f and xs :: "jsval list" and x bs
    by (induction xs arbitrary: bs) (auto split: option.splits)
  from this [OF bs assms(2) all] show ?thesis .
qed

lemma proof_verifies_None_iff:
  "proof_verifies h verify key r proof = None \<longleftrightarrow> scope_of_value (proof_scope proof) = None"
  using signed_message_exists by (auto simp: proof_verifies_def split: option.splits)

lemma response_proofs_valid_None_iff:
  "response_proofs_valid h verify key r = None
     \<longleftrightarrow> (\<exists>proof. proof \<in> set (responseTokenProofs r) \<and> scope_of_value (proof_scope proof) = None)"
proof -
  have "response_proofs_valid h verify key r = None
      \<longleftrightarrow> None \<in> proof_verifies h verify key r ` set (responseTokenProofs r)"
    by (simp add: response_proofs_valid_def those_eq_None_iff)
  also have "\<dots> \<longleftrightarrow> (\<exists>proof. proof \<in> set (responseTokenProofs r) \<and> proof_verifies h verify key r proof = None)"
    unfolding image_iff by metis
  finally show ?thesis by (simp only: proof_verifies_None_iff)
qed

lemma verification_None_iff:
  "verifyQuestionnaireBlindResponseProofVerdicts h verify (Some key) entries completion = None
     \<longleftrightarrow> (\<exists>e. e \<in> set completion \<and> response_id e \<noteq> []
          \<and> response_proofs_valid h verify key (en_response e) = None)"
proof -
  have "verifyQuestionnaireBlindResponseProofVerdicts h verify (Some key) entries completion = None
      \<longleftrightarrow> None \<in> (\<lambda>entry. map_option (\<lambda>valid. (response_id entry, checked_verdict valid))
          (response_proofs_valid h verify key (en_response entry)))
            ` {e \<in> set completion. response_id e \<noteq> []}"
    by (simp add: verifyQuestionnaireBlindResponseProofVerdicts_def those_eq_None_iff)
  also have "\<dots> \<longleftrightarrow> (\<exists>e. e \<in> set completion \<and> response_id e \<noteq> []
      \<and> response_proofs_valid h verify key (en_response e) = None)"
    by (force simp: image_iff)
  finally show ?thesis .
qed

lemma verification_stops_iff:
  "verifyQuestionnaireBlindResponseProofVerdicts h verify (Some key) entries completion = None
     \<longleftrightarrow> (\<exists>e proof. e \<in> set completion \<and> response_id e \<noteq> []
          \<and> proof \<in> set (responseTokenProofs (en_response e)) \<and> scope_of_value (proof_scope proof) = None)"
  by (auto simp: verification_None_iff response_proofs_valid_None_iff)

section \<open>The canonical order\<close>

lemma canonical_comparator:
  assumes "comparator (host_localeCompare h)"
  shows "comparator (canonicalBlindResponseOrder h)"
proof -
  note lc = comparator.cmp_total [OF assms] comparator.cmp_trans [OF assms]
  show ?thesis
  proof
    show "canonicalBlindResponseOrder h x y \<le> 0 \<or> canonicalBlindResponseOrder h y x \<le> 0" for x y
      using lc(1) [of "ne_id (en_event x)" "ne_id (en_event y)"]
      by (auto simp: canonicalBlindResponseOrder_def Let_def)
    show "canonicalBlindResponseOrder h x z \<le> 0"
      if "canonicalBlindResponseOrder h x y \<le> 0" "canonicalBlindResponseOrder h y z \<le> 0" for x y z
      using that lc(2) [of "ne_id (en_event x)" "ne_id (en_event y)" "ne_id (en_event z)"]
      by (auto simp: canonicalBlindResponseOrder_def Let_def split: if_splits)
  qed
qed

context comparator
begin

lemma in_order_unique_on:
  assumes antisym: "\<And>x y. x \<in> A \<Longrightarrow> y \<in> A \<Longrightarrow> cmp x y \<le> 0 \<Longrightarrow> cmp y x \<le> 0 \<Longrightarrow> x = y"
  shows "set xs \<subseteq> A \<Longrightarrow> in_order xs \<Longrightarrow> in_order ys \<Longrightarrow> distinct xs \<Longrightarrow> distinct ys
     \<Longrightarrow> set xs = set ys \<Longrightarrow> xs = ys"
proof (induction xs arbitrary: ys)
  case Nil
  then show ?case by simp
next
  case (Cons x xs)
  then obtain y ys' where ys: "ys = y # ys'" by (cases ys) auto
  have "x = y"
  proof (rule ccontr)
    assume "x \<noteq> y"
    then have xy: "x \<in> set ys'" "y \<in> set xs" using Cons.prems ys by auto
    then have "cmp y x \<le> 0" "cmp x y \<le> 0" using Cons.prems ys by auto
    with \<open>x \<noteq> y\<close> xy antisym [of x y] Cons.prems(1) show False by auto
  qed
  moreover have "set xs = set ys'"
    using Cons.prems ys \<open>x = y\<close> by auto
  ultimately show ?case using Cons ys by auto
qed

lemma in_order_remdups_adj:
  assumes antisym: "\<And>x y. x \<in> A \<Longrightarrow> y \<in> A \<Longrightarrow> cmp x y \<le> 0 \<Longrightarrow> cmp y x \<le> 0 \<Longrightarrow> x = y"
  shows "set xs \<subseteq> A \<Longrightarrow> in_order xs \<Longrightarrow> in_order (remdups_adj xs) \<and> distinct (remdups_adj xs)"
proof (induction xs rule: remdups_adj.induct)
  case (3 x y xs)
  show ?case
  proof (cases "x = y")
    case True
    with 3 show ?thesis by simp
  next
    case False
    have "x \<notin> set (y # xs)"
    proof
      assume "x \<in> set (y # xs)"
      with False 3 have "cmp y x \<le> 0" "cmp x y \<le> 0" by auto
      with False antisym [of x y] 3 show False by simp
    qed
    with False 3 show ?thesis by simp
  qed
qed simp_all

text \<open>A sort by a strict order without its adjacent repetitions depends only on the set sorted.\<close>

lemma sort_determined:
  assumes antisym: "\<And>x y. x \<in> set xs \<Longrightarrow> y \<in> set xs \<Longrightarrow> cmp x y \<le> 0 \<Longrightarrow> cmp y x \<le> 0 \<Longrightarrow> x = y"
    and "set xs = set ys"
  shows "remdups_adj (js_sort cmp xs) = remdups_adj (js_sort cmp ys)"
proof -
  note o = in_order_remdups_adj [where A = "set xs", OF antisym]
  have "in_order (remdups_adj (js_sort cmp xs)) \<and> distinct (remdups_adj (js_sort cmp xs))"
    by (rule o) (simp_all add: js_sort_in_order)
  moreover have "in_order (remdups_adj (js_sort cmp ys)) \<and> distinct (remdups_adj (js_sort cmp ys))"
    by (rule o) (simp_all add: js_sort_in_order assms(2))
  ultimately show ?thesis
    by (intro in_order_unique_on [where A = "set xs", OF antisym]) (simp_all add: assms(2))
qed

end

lemma dedupe_adjacent: "event_id e \<noteq> [] \<Longrightarrow>
    dedupe_entries h ids keys (e # e # es) = dedupe_entries h ids keys (e # es)"
  by (simp add: Let_def add_if_def)

lemma dedupe_remdups_adj:
  "(\<And>e. e \<in> set es \<Longrightarrow> event_id e \<noteq> []) \<Longrightarrow>
     dedupe_entries h ids keys (remdups_adj es) = dedupe_entries h ids keys es"
proof (induction es arbitrary: ids keys rule: remdups_adj.induct)
  case (3 x y es)
  show ?case
  proof (cases "x = y")
    case True
    with 3 dedupe_adjacent [of x] show ?thesis by simp
  next
    case False
    with 3 show ?thesis by (simp add: Let_def)
  qed
qed simp_all

lemma dedupe_determined:
  assumes "comparator (host_localeCompare h)"
    and "\<And>a b. host_localeCompare h a b \<le> 0 \<Longrightarrow> host_localeCompare h b a \<le> 0 \<Longrightarrow> a = b"
    and "\<And>e. e \<in> set entries \<Longrightarrow> event_id e \<noteq> []"
    and "\<And>e e'. e \<in> set entries \<Longrightarrow> e' \<in> set entries \<Longrightarrow> ne_id (en_event e) = ne_id (en_event e') \<Longrightarrow> e = e'"
    and "set entries = set entries'"
  shows "dedupeBlindResponseEntries h entries = dedupeBlindResponseEntries h entries'"
proof -
  have antisym: "e = e'" if "e \<in> set entries" "e' \<in> set entries"
      "canonicalBlindResponseOrder h e e' \<le> 0" "canonicalBlindResponseOrder h e' e \<le> 0" for e e'
    using that assms(2,4) by (auto simp: canonicalBlindResponseOrder_def Let_def split: if_splits)
  have "remdups_adj (js_sort (canonicalBlindResponseOrder h) entries)
      = remdups_adj (js_sort (canonicalBlindResponseOrder h) entries')"
    by (rule comparator.sort_determined [OF canonical_comparator [OF assms(1)] antisym assms(5)])
  moreover have "dedupe_entries h [] [] (remdups_adj (js_sort (canonicalBlindResponseOrder h) es))
      = dedupeBlindResponseEntries h es" if "set es = set entries" for es
    unfolding dedupeBlindResponseEntries_def by (rule dedupe_remdups_adj) (simp add: that assms(3))
  ultimately show ?thesis using assms(5) by metis
qed

section \<open>Repetitions\<close>

lemma set_dedupe_entries: "set (dedupe_entries h ids keys es) \<subseteq> set es"
proof (induction es arbitrary: ids keys)
  case (Cons e es)
  have "set (dedupe_entries h ids' keys' es) \<subseteq> insert e (set es)" for ids' keys'
    using Cons.IH by blast
  then show ?case by (simp add: Let_def subset_insertI2)
qed simp

lemma set_dedupe: "set (dedupeBlindResponseEntries h es) \<subseteq> set es"
  using set_dedupe_entries by (fastforce simp: dedupeBlindResponseEntries_def)

lemma dedupe_entries_new:
  "e \<in> set (dedupe_entries h ids keys es) \<Longrightarrow>
     (event_id e = [] \<or> event_id e \<notin> set ids) \<and> (logical_payload_key h e = [] \<or> logical_payload_key h e \<notin> set keys)"
proof (induction es arbitrary: ids keys)
  case (Cons x es)
  have "set ids' \<subseteq> set (add_if k ids')" for k ids' by (auto simp: add_if_def)
  with Cons show ?case by (simp add: Let_def split: if_splits) blast+
qed simp

lemma dedupe_entries_apart:
  "sorted_wrt (\<lambda>e e'. (event_id e = [] \<or> event_id e \<noteq> event_id e')
     \<and> (logical_payload_key h e = [] \<or> logical_payload_key h e \<noteq> logical_payload_key h e'))
     (dedupe_entries h ids keys es)"
proof (induction es arbitrary: ids keys)
  case (Cons e es)
  have "(event_id e = [] \<or> event_id e \<noteq> event_id e')
      \<and> (logical_payload_key h e = [] \<or> logical_payload_key h e \<noteq> logical_payload_key h e')"
    if "e' \<in> set (dedupe_entries h (add_if (event_id e) ids) (add_if (logical_payload_key h e) keys) es)" for e'
    using dedupe_entries_new [OF that] by (auto simp: add_if_def)
  with Cons.IH show ?case by (simp add: Let_def)
qed simp

section \<open>The whole evaluation\<close>

lemma evaluate_Some:
  obtains am where
    "admit_entries (case required of None \<Rightarrow> verdicts \<noteq> None | Some b \<Rightarrow> b)
       (from_entries (case verdicts of None \<Rightarrow> [] | Some vs \<Rightarrow> vs)) (latest_decisions decisionEntries [])
       nothing_admitted (dedupeBlindResponseEntries h entries)
     = (ba_decisions (evaluateQuestionnaireBlindAdmissions h entries decisionEntries verdicts required), am)"
  by (cases "admit_entries (case required of None \<Rightarrow> verdicts \<noteq> None | Some b \<Rightarrow> b)
       (from_entries (case verdicts of None \<Rightarrow> [] | Some vs \<Rightarrow> vs)) (latest_decisions decisionEntries [])
       nothing_admitted (dedupeBlindResponseEntries h entries)")
     (simp add: evaluateQuestionnaireBlindAdmissions_def)

lemma evaluate_accepted:
  "ba_accepted (evaluateQuestionnaireBlindAdmissions h entries decisionEntries verdicts required)
     = filter ad_accepted (ba_decisions (evaluateQuestionnaireBlindAdmissions h entries decisionEntries verdicts required))"
  by (simp add: evaluateQuestionnaireBlindAdmissions_def Let_def split: prod.splits)

lemma evaluated_entries:
  "map ad_entry (ba_decisions (evaluateQuestionnaireBlindAdmissions h entries decisionEntries verdicts required))
     = dedupeBlindResponseEntries h entries"
  by (rule evaluate_Some [where required = required and verdicts = verdicts and decisionEntries = decisionEntries and h = h and entries = entries]) (erule admit_entries_entries)

end
