(* ===== verification/Public_Event_Safety.thy ===== *)
theory Public_Event_Safety
  imports Public_Events
begin

text \<open>
  Facts about reading the public streams: which entries survive the filters, what the merged list of
  events holds, and that the delegation chosen is the newest of the usable ones.
\<close>

lemma set_map_filter_iff: "y \<in> set (List.map_filter f xs) \<longleftrightarrow> (\<exists>x\<in>set xs. f x = Some y)"
  by (induction xs) (auto simp: List.map_filter_simps split: option.splits)

lemma set_with_parsed: "(e, v) \<in> set (with_parsed parse es) \<longleftrightarrow> e \<in> set es \<and> parse e = Some v"
  by (auto simp: with_parsed_def set_map_filter_iff)

lemma set_fetched_responses:
  "x \<in> set (fetchQuestionnaireBlindResponses verifyEvent npubHex q events)
     \<longleftrightarrow> (\<exists>event\<in>set events. accepted_response_entry verifyEvent npubHex q event = Some x)"
  by (auto simp: fetchQuestionnaireBlindResponses_def set_map_filter_iff)

lemma set_fetched_decisions:
  "x \<in> set (fetchQuestionnaireSubmissionDecisions verifyEvent q events)
     \<longleftrightarrow> (\<exists>event\<in>set events. accepted_decision_entry verifyEvent q event = Some x)"
  by (auto simp: fetchQuestionnaireSubmissionDecisions_def set_map_filter_iff)

lemma accepted_response_entry_Some:
  assumes "accepted_response_entry verifyEvent npubHex q event = Some x"
  shows "en_event x = event" "parseQuestionnaireBlindResponseEvent (ne_content event) = Some (en_response x)"
    "verifyEvent event" "js_lower (ne_pubkey event) = toHexPubkey npubHex (Some (br_authorPubkey (en_response x)))"
    "br_questionnaireId (en_response x) = q"
  using assms by (auto simp: accepted_response_entry_def isAuthenticBlindResponseEvent_def
      split: option.splits if_splits)

text \<open>The subscription keeps one entry for every event.\<close>

lemma onevent_distinct:
  "distinct (map fst eventsById) \<Longrightarrow>
     distinct (map fst (snd (blind_response_onevent verifyEvent npubHex q event eventsById)))"
  by (auto simp: blind_response_onevent_def Let_def distinct_update split: option.splits)

section \<open>Merged events\<close>

lemma set_mergeEventsById:
  assumes "inj_on ne_id (set (concat groups))"
  shows "set (mergeEventsById groups) = set (concat groups)"
proof -
  let ?es = "map (\<lambda>e. (ne_id e, e)) (concat groups)"
  have sub: "(k, v) \<in> set ?es" if "(k, v) \<in> set (from_entries ?es)" for k v
  proof -
    have "obj_get (from_entries ?es) k = Some v" using that by simp
    then show ?thesis by (auto simp: from_entries_def dest: obj_set_all_cases)
  qed
  have "e \<in> snd ` set (from_entries ?es)" if e: "e \<in> set (concat groups)" for e
  proof -
    have "ne_id e \<in> dom (obj_get (from_entries ?es))"
      unfolding from_entries_def dom_obj_set_all using e by force
    then obtain v where v: "(ne_id e, v) \<in> set (from_entries ?es)"
      by (auto dest: map_of_SomeD)
    from sub [OF this] have "v \<in> set (concat groups)" "ne_id v = ne_id e" by auto
    with e assms have "v = e" by (blast dest: inj_onD)
    with v show ?thesis by force
  qed
  moreover have "snd ` set (from_entries ?es) \<subseteq> set (concat groups)"
    using sub by fastforce
  ultimately show ?thesis unfolding mergeEventsById_def set_map by blast
qed

section \<open>The chosen delegation\<close>

interpretation delegations: comparator "delegation_order h" for h
  by unfold_locales (auto simp: delegation_order_def)

lemma latest_delegation_Some:
  assumes "latest_delegation h entries = Some x"
  shows "x \<in> set entries" and "y \<in> set entries \<Longrightarrow> delegation_order h x y \<le> 0"
proof -
  from assms obtain rest where sorted: "js_sort (delegation_order h) entries = x # rest"
    by (auto simp: latest_delegation_def first_of_def split: list.splits)
  then have members: "set entries = insert x (set rest)"
    by (metis list.simps(15) set_js_sort)
  then show "x \<in> set entries" by simp
  show "delegation_order h x y \<le> 0" if "y \<in> set entries"
    using that members delegations.js_sort_in_order [of h entries] sorted
    by (auto simp: delegation_order_def)
qed

lemma parsed_delegation_Some:
  "parsed_delegation q event = Some d \<longleftrightarrow>
     parseWorkerDelegationEvent (ne_kind event) (ne_content event) = Some d \<and> str_prop ''electionId'' d = q"
  by (auto simp: parsed_delegation_def split: option.splits)

lemma set_revoked_ids:
  "i \<in> set (revoked_ids npubHex q expected events) \<longleftrightarrow>
     (\<exists>event r. event \<in> set events \<and> parsed_revocation q event = Some r
        \<and> declared_author npubHex expected (event, r) \<and> str_prop ''delegationId'' r = i)"
  by (force simp: revoked_ids_def set_with_parsed)

lemma active_delegation:
  assumes "fetchQuestionnaireActiveWorkerDelegationForCapability h npubHex q capability coordinatorNpub nowMs
             delegationEvents revocationEvents = Some d"
    and "inj_on ne_id (set (concat delegationEvents))" "inj_on ne_id (set (concat revocationEvents))"
  shows "\<exists>event. event \<in> set (concat delegationEvents) \<and> parsed_delegation q event = Some d
     \<and> delegation_usable h npubHex capability (toHexPubkey npubHex coordinatorNpub)
          (revoked_ids npubHex q (toHexPubkey npubHex coordinatorNpub) (concat revocationEvents)) nowMs (event, d)
     \<and> (\<forall>event' d'. event' \<in> set (concat delegationEvents) \<longrightarrow> parsed_delegation q event' = Some d'
          \<longrightarrow> delegation_usable h npubHex capability (toHexPubkey npubHex coordinatorNpub)
                (revoked_ids npubHex q (toHexPubkey npubHex coordinatorNpub) (concat revocationEvents)) nowMs (event', d')
          \<longrightarrow> toEventUnix h event' (str_prop ''issuedAt'' d') \<le> toEventUnix h event (str_prop ''issuedAt'' d))"
proof -
  let ?hex = "toHexPubkey npubHex coordinatorNpub"
  let ?usable = "\<lambda>revs. delegation_usable h npubHex capability ?hex (revoked_ids npubHex q ?hex revs) nowMs"
  let ?entries = "filter (?usable (mergeEventsById revocationEvents))
     (with_parsed (parsed_delegation q) (mergeEventsById delegationEvents))"
  have same: "?usable (mergeEventsById revocationEvents) x = ?usable (concat revocationEvents) x" for x
    unfolding delegation_usable_def set_revoked_ids set_mergeEventsById [OF assms(3)] by (rule refl)
  obtain event where latest: "latest_delegation h ?entries = Some (event, d)"
    using assms(1)
    by (auto simp: fetchQuestionnaireActiveWorkerDelegationForCapability_def Let_def split: if_splits)
  have member: "(e, v) \<in> set ?entries \<longleftrightarrow>
      e \<in> set (concat delegationEvents) \<and> parsed_delegation q e = Some v \<and> ?usable (concat revocationEvents) (e, v)" for e v
    unfolding set_filter mem_Collect_eq set_with_parsed set_mergeEventsById [OF assms(2)] same by blast
  show ?thesis
  proof (intro exI conjI allI impI)
    show "event \<in> set (concat delegationEvents)" "parsed_delegation q event = Some d"
        "?usable (concat revocationEvents) (event, d)"
      using latest_delegation_Some(1) [OF latest] unfolding member by blast+
    show "toEventUnix h event' (str_prop ''issuedAt'' d') \<le> toEventUnix h event (str_prop ''issuedAt'' d)"
      if "event' \<in> set (concat delegationEvents)" "parsed_delegation q event' = Some d'"
        "?usable (concat revocationEvents) (event', d')" for event' d'
    proof -
      have "(event', d') \<in> set ?entries" unfolding member using that by blast
      from latest_delegation_Some(2) [OF latest this] show ?thesis by (simp add: delegation_order_def)
    qed
  qed
qed

end
