(* ===== verification/Transport_Properties.thy ===== *)
theory Transport_Properties
  imports Blind_Admission_Safety Public_Event_Safety Samples
begin

text \<open>
  Properties of the public result: which responses the coordinator's panel and the auditor's page
  count, and which delegated worker a voter's browser addresses.
\<close>

section \<open>Sample responses\<close>

text \<open>
  Two responses with one token, a forged response under the response id of the first, and decisions
  that accept them, signed by a stranger.
\<close>

definition sample_proof :: "string \<Rightarrow> string \<Rightarrow> jsval" where
  "sample_proof commitment signature = JObj [(''tokenCommitment'', JStr commitment),
     (''questionnaireId'', JStr ''e1''), (''signature'', JStr signature)]"

definition sample_response :: "string \<Rightarrow> int \<Rightarrow> string \<Rightarrow> string \<Rightarrow> string \<Rightarrow> response_entry" where
  "sample_response eventId createdAt author responseId signature =
     \<lparr>en_event = \<lparr>ne_id = eventId, ne_pubkey = author, ne_kind = 6424, ne_created_at = createdAt, ne_content = None\<rparr>,
      en_response = \<lparr>br_questionnaireId = ''e1'', br_responseId = responseId, br_submittedAt = JNull,
        br_authorPubkey = author, br_tokenNullifier = ''n1'', br_tokenNullifiers = None,
        br_tokenProof = sample_proof ''t1'' signature, br_tokenProofs = None, br_answers = JArr []\<rparr>\<rparr>"

lemma sample_proofs_valid:
  "response_proofs_valid plain_host any_signature key (en_response (sample_response i c a r s)) = Some (s = ''sig'')"
proof -
  obtain m where "buildQuestionnaireBlindTokenSignedMessage plain_host ''e1'' ''t1'' None = Some m"
    using signed_message_exists by blast
  then show ?thesis
    by (simp add: response_proofs_valid_def responseTokenProofs_def sample_response_def sample_proof_def
        proof_verifies_def proof_scope_def json_prop_def js_truthy_def scope_of_value_def str_prop_def any_signature_def)
qed

lemma public_sample_trims: "js_trim ''r1'' = ''r1''" "js_trim ''r2'' = ''r2''" "js_trim ''e1'' = ''e1''" "js_trim ''n1'' = ''n1''"
  "js_trim ''ev1'' = ''ev1''" "js_trim ''ev2'' = ''ev2''" "js_trim ''voter'' = ''voter''" "js_trim ''mallory'' = ''mallory''"
  "js_trim ''t1'' = ''t1''"
  by (simp_all add: js_trim_def js_ws_def)

definition sample_decision :: "string \<Rightarrow> nostr_event" where
  "sample_decision submissionId = \<lparr>ne_id = ''d'' @ submissionId, ne_pubkey = ''mallory'', ne_kind = 6425,
     ne_created_at = 9, ne_content = Some (JObj [(''schemaVersion'', JNum (num_int 1)),
       (''eventType'', JStr ''questionnaire_submission_decision''), (''questionnaireId'', JStr ''e1''),
       (''submissionId'', JStr submissionId), (''tokenNullifier'', JStr ''n1''), (''accepted'', JBool True),
       (''reason'', JStr ''accepted''), (''decidedAt'', JNum (num_int 9)),
       (''coordinatorPubkey'', JStr ''npub1c'')])\<rparr>"

lemma sample_decision_parsed:
  "parseQuestionnaireSubmissionDecisionEvent (ne_content (sample_decision r))
     = Some \<lparr>pd_questionnaireId = ''e1'', pd_submissionId = r, pd_tokenNullifier = ''n1'', pd_accepted = True,
         pd_reason = ''accepted'', pd_decidedAt = num_int 9, pd_coordinatorPubkey = ''npub1c''\<rparr>"
  by (simp add: parseQuestionnaireSubmissionDecisionEvent_def sample_decision_def schema_1_def strings_present_def
      json_prop_def str_prop_def)

abbreviation "first_vote \<equiv> sample_response ''ev1'' 5 ''voter'' ''r1'' ''sig''"
abbreviation "second_vote \<equiv> sample_response ''ev2'' 6 ''voter'' ''r2'' ''sig''"
abbreviation "forged_vote \<equiv> sample_response ''ev2'' 4 ''mallory'' ''r1'' ''forged''"

lemma public_sample_ids:
  "response_id (sample_response i c a r s) = js_trim r" "event_id (sample_response i c a r s) = js_trim i"
  "ne_id (en_event (sample_response i c a r s)) = i" "ne_created_at (en_event (sample_response i c a r s)) = c"
  "responseNullifiers (en_response (sample_response i c a r s)) = [''n1'']"
  "responseTokenProofs (en_response (sample_response i c a r s)) = [sample_proof ''t1'' s]"
  "responseTokenCommitments (en_response (sample_response i c a r s)) = [''t1'']"
  by (simp_all add: sample_response_def response_id_def event_id_def responseNullifiers_def responseTokenCommitments_def
      responseTokenProofs_def public_sample_trims js_set_distinct sample_proof_def str_prop_def json_prop_def)

lemma public_sample_order:
  "dedupeBlindResponseEntries plain_host [first_vote, second_vote] = [first_vote, second_vote]"
  "dedupeBlindResponseEntries plain_host [first_vote] = [first_vote]"
  by (simp_all add: dedupeBlindResponseEntries_def js_sort_Cons canonicalBlindResponseOrder_def Let_def add_if_def
      logical_payload_key_def public_sample_ids public_sample_trims)

lemma sample_conflict: "conflicts first_vote second_vote"
  by (simp add: conflicts_def public_sample_ids)

lemma plain_localeCompare: "host_localeCompare plain_host a b = (if a < b then -1 else if b < a then 1 else 0)"
  by (simp add: plain_host_def)

lemma plain_host_comparator: "comparator (host_localeCompare plain_host)"
  by unfold_locales (auto simp: plain_localeCompare split: if_splits)





section \<open>Counting a token once\<close>

text \<open>
  C21: a token counts once: of two accepted public responses that share a nullifier, a token commitment
  or a response id, the later one in the canonical order was accepted by an explicit submission
  decision; without submission decisions no two accepted responses share one.
\<close>

theorem undecided_admissions_disjoint:
  fixes h :: host
  defines "result \<equiv> evaluateQuestionnaireBlindAdmissions h"
  shows "sorted_wrt (\<lambda>a b. ad_accepted a \<and> ad_accepted b \<and> conflicts (ad_entry a) (ad_entry b)
           \<longrightarrow> ad_decisionEventId b \<noteq> None) (ba_decisions (result entries decisionEntries verdicts required))
     \<and> sorted_wrt (\<lambda>a b. \<not> conflicts (ad_entry a) (ad_entry b)) (ba_accepted (result entries [] verdicts required))"
proof
  let ?decided = "\<lambda>ds. ba_decisions (result entries ds verdicts required)"
  have disjoint: "sorted_wrt (\<lambda>a b. ad_accepted a \<longrightarrow> ad_accepted b \<longrightarrow> ad_decisionEventId b = None
      \<longrightarrow> \<not> conflicts (ad_entry a) (ad_entry b)) (?decided ds)" for ds
    unfolding result_def
    by (rule evaluate_Some [where required = required and verdicts = verdicts and decisionEntries = ds and h = h and entries = entries]) (erule admit_entries_disjoint)
  then show "sorted_wrt (\<lambda>a b. ad_accepted a \<and> ad_accepted b \<and> conflicts (ad_entry a) (ad_entry b)
      \<longrightarrow> ad_decisionEventId b \<noteq> None) (?decided decisionEntries)"
    by (rule sorted_wrt_mono_rel [rotated]) blast
  have "ad_decisionEventId a = None" if "a \<in> set (?decided [])" for a
    using that unfolding result_def
    by - (rule evaluate_Some [where required = required and verdicts = verdicts and decisionEntries = "[]"
        and h = h and entries = entries], auto dest: admit_entries_no_decisions)
  then have "sorted_wrt (\<lambda>a b. \<not> conflicts (ad_entry a) (ad_entry b)) (filter ad_accepted (?decided []))"
    using disjoint [of "[]"]
    by (intro sorted_wrt_mono_rel [rotated, OF sorted_wrt_filter [OF disjoint [of "[]"]]]) auto
  then show "sorted_wrt (\<lambda>a b. \<not> conflicts (ad_entry a) (ad_entry b)) (ba_accepted (result entries [] verdicts required))"
    unfolding result_def evaluate_accepted .
qed

theorem undecided_admissions_disjoint_witness:
  "sorted_wrt (\<lambda>a b. \<not> conflicts (ad_entry a) (ad_entry b))
       (ba_accepted (evaluateQuestionnaireBlindAdmissions plain_host [first_vote, second_vote] [] None None))
   \<and> map ad_entry (ba_accepted (evaluateQuestionnaireBlindAdmissions plain_host [first_vote, second_vote] [] None None))
       = [first_vote]"
  using undecided_admissions_disjoint [of plain_host "[first_vote, second_vote]" "[]" None None]
  by (simp add: evaluateQuestionnaireBlindAdmissions_def public_sample_order admit_entry_def settling_decision_def
      nothing_admitted_def token_used_def admitted_entry_def refused_def record_admitted_def from_entries_def
      public_sample_ids public_sample_trims Let_def add_new_def js_set_distinct)

text \<open>
  C23: the result does not depend on the relays: when the event id names the event and the collation
  is a strict order, two fetches that yield the same events, in any order and any number of times,
  yield the same decisions, the same accepted and rejected responses and the same counts.
\<close>

theorem admissions_ignore_arrival:
  assumes "comparator (host_localeCompare h)"
    and "\<And>a b. host_localeCompare h a b \<le> 0 \<Longrightarrow> host_localeCompare h b a \<le> 0 \<Longrightarrow> a = b"
    and "\<And>e. e \<in> set entries \<Longrightarrow> event_id e \<noteq> []"
    and "\<And>e e'. e \<in> set entries \<Longrightarrow> e' \<in> set entries \<Longrightarrow> ne_id (en_event e) = ne_id (en_event e') \<Longrightarrow> e = e'"
    and "set entries = set entries'"
  shows "evaluateQuestionnaireBlindAdmissions h entries decisionEntries verdicts required
       = evaluateQuestionnaireBlindAdmissions h entries' decisionEntries verdicts required"
proof -
  have "dedupeBlindResponseEntries h entries = dedupeBlindResponseEntries h entries'"
    by (rule dedupe_determined) (use assms in blast)+
  then show ?thesis by (simp add: evaluateQuestionnaireBlindAdmissions_def)
qed

theorem admissions_ignore_arrival_witness:
  "evaluateQuestionnaireBlindAdmissions plain_host [first_vote, second_vote] [] None None
     = evaluateQuestionnaireBlindAdmissions plain_host [second_vote, first_vote, second_vote] [] None None"
  by (rule admissions_ignore_arrival [OF plain_host_comparator])
     (auto simp: plain_localeCompare public_sample_ids public_sample_trims split: if_splits)

text \<open>
  C24: the signer of a submission decision is not checked: whatever key signed it, a decision event of
  the questionnaire that accepts a response id makes a response with a valid proof count, even one
  whose token has been counted before.  In the example two responses with one token both count.
\<close>

theorem any_signer_can_admit:
  assumes "entry \<in> set (dedupeBlindResponseEntries h entries)"
    and "map_option bv_verdict (obj_get (from_entries verdicts) (response_id entry)) = Some Valid"
    and "event \<in> set events" "verifyEvent event"
    and "parseQuestionnaireSubmissionDecisionEvent (ne_content event) = Some d"
    and "pd_questionnaireId d = questionnaireId" "pd_accepted d"
    and "js_trim (pd_submissionId d) = response_id entry" "response_id entry \<noteq> []"
  shows "\<exists>a\<in>set (ba_accepted (evaluateQuestionnaireBlindAdmissions h entries
           (fetchQuestionnaireSubmissionDecisions verifyEvent questionnaireId events) (Some verdicts) (Some True))).
           ad_entry a = entry"
proof -
  let ?ds = "fetchQuestionnaireSubmissionDecisions verifyEvent questionnaireId events"
  have "accepted_decision_entry verifyEvent questionnaireId event = Some \<lparr>de_event = event, de_decision = d\<rparr>"
    using assms(4-6) by (simp add: accepted_decision_entry_def)
  then have "\<lparr>de_event = event, de_decision = d\<rparr> \<in> set ?ds"
    using assms(3) by (auto simp: set_fetched_decisions)
  with assms(7-9) obtain d' where "obj_get (latest_decisions ?ds []) (response_id entry) = Some d'"
      "pd_accepted (de_decision d')"
    using latest_decisions_accepting [of _ ?ds "response_id entry" "[]"] by fastforce
  note found = admit_entries_by_decision [OF disjI2 [OF assms(2)] this]
  have "\<exists>a\<in>set (ba_decisions (evaluateQuestionnaireBlindAdmissions h entries ?ds (Some verdicts) (Some True))).
      ad_accepted a \<and> ad_entry a = entry"
    by (rule evaluate_Some [where required = "Some True" and verdicts = "Some verdicts" and decisionEntries = ?ds
          and h = h and entries = entries]) (simp, erule found, rule assms(1))
  then show ?thesis by (auto simp: evaluate_accepted)
qed

theorem any_signer_can_admit_witness:
  "\<exists>a b. {a, b} \<subseteq> set (ba_accepted (evaluateQuestionnaireBlindAdmissions plain_host [first_vote, second_vote]
        (fetchQuestionnaireSubmissionDecisions (\<lambda>_. True) ''e1'' [sample_decision ''r1'', sample_decision ''r2''])
        (Some [(''r1'', checked_verdict True), (''r2'', checked_verdict True)]) (Some True)))
     \<and> conflicts (ad_entry a) (ad_entry b) \<and> ad_entry a \<noteq> ad_entry b"
proof -
  note admits = any_signer_can_admit [where h = plain_host and entries = "[first_vote, second_vote]"
      and verdicts = "[(''r1'', checked_verdict True), (''r2'', checked_verdict True)]" and questionnaireId = "''e1''"
      and verifyEvent = "\<lambda>_. True" and events = "[sample_decision ''r1'', sample_decision ''r2'']"]
  let ?accepted = "set (ba_accepted (evaluateQuestionnaireBlindAdmissions plain_host [first_vote, second_vote]
        (fetchQuestionnaireSubmissionDecisions (\<lambda>_. True) ''e1'' [sample_decision ''r1'', sample_decision ''r2''])
        (Some [(''r1'', checked_verdict True), (''r2'', checked_verdict True)]) (Some True)))"
  have "\<exists>a\<in>?accepted. ad_entry a = first_vote"
    by (rule admits [where event = "sample_decision ''r1''", OF _ _ _ _ sample_decision_parsed])
       (simp_all add: public_sample_order public_sample_ids public_sample_trims checked_verdict_def from_entries_def)
  moreover have "\<exists>a\<in>?accepted. ad_entry a = second_vote"
    by (rule admits [where event = "sample_decision ''r2''", OF _ _ _ _ sample_decision_parsed])
       (simp_all add: public_sample_order public_sample_ids public_sample_trims checked_verdict_def from_entries_def)
  moreover have "first_vote \<noteq> second_vote" by (simp add: sample_response_def)
  ultimately show ?thesis using sample_conflict by fastforce
qed

section \<open>Valid proofs\<close>

text \<open>
  C22: what counts is proved: when no two fetched responses with different proofs share a response id,
  every proof of every accepted response verifies under the questionnaire's key on the message of its
  own commitment and scope, in whatever order the checks end.
\<close>

theorem accepted_proofs_verify:
  assumes "verifyQuestionnaireBlindResponseProofVerdicts h verify (Some key) entries completion = Some verdicts"
    and "set completion = set entries"
    and "\<And>e e'. e \<in> set entries \<Longrightarrow> e' \<in> set entries \<Longrightarrow> response_id e = response_id e' \<Longrightarrow>
           responseTokenProofs (en_response e) = responseTokenProofs (en_response e')
           \<and> br_questionnaireId (en_response e) = br_questionnaireId (en_response e')"
    and "a \<in> set (ba_accepted (evaluateQuestionnaireBlindAdmissions h entries decisionEntries (Some verdicts) (Some True)))"
    and "proof \<in> set (responseTokenProofs (en_response (ad_entry a)))"
  shows "\<exists>scope message. scope_of_value (proof_scope proof) = Some scope
     \<and> buildQuestionnaireBlindTokenSignedMessage h (br_questionnaireId (en_response (ad_entry a)))
          (str_prop ''tokenCommitment'' proof) scope = Some message
     \<and> verify key message (str_prop ''signature'' proof)"
proof -
  obtain am where run: "admit_entries True (from_entries verdicts) (latest_decisions decisionEntries [])
       nothing_admitted (dedupeBlindResponseEntries h entries)
     = (ba_decisions (evaluateQuestionnaireBlindAdmissions h entries decisionEntries (Some verdicts) (Some True)), am)"
    by (rule evaluate_Some [where required = "Some True" and verdicts = "Some verdicts" and decisionEntries = decisionEntries and h = h and entries = entries]) auto
  have a: "a \<in> set (ba_decisions (evaluateQuestionnaireBlindAdmissions h entries decisionEntries (Some verdicts) (Some True)))"
    "ad_accepted a" using assms(4) unfolding evaluate_accepted by auto
  have entry: "ad_entry a \<in> set entries"
    using a(1) evaluated_entries [of h entries decisionEntries "Some verdicts" "Some True"] set_dedupe [of h entries]
    by (metis image_eqI list.set_map subsetD)
  obtain x where "obj_get verdicts (response_id (ad_entry a)) = Some x" "bv_verdict x = Valid"
    using admit_entries_verdict [OF run a]
      verdict_table_twice [OF assms(1)] by auto
  with verdict_of_check [OF assms(1)] obtain e where e: "e \<in> set completion"
    "response_id e = response_id (ad_entry a)" "response_proofs_valid h verify key (en_response e) = Some True"
    by (fastforce simp: checked_verdict_def split: if_splits)
  with assms(2,3,5) entry have "proof \<in> set (responseTokenProofs (en_response e))"
    and q: "br_questionnaireId (en_response e) = br_questionnaireId (en_response (ad_entry a))" by metis+
  from response_proofs_valid_all [OF e(3) this(1)] show ?thesis
    by (auto simp: proof_verifies_def q split: option.splits)
qed

theorem accepted_proofs_verify_witness:
  "\<exists>message. any_signature sample_key message (str_prop ''signature'' (sample_proof ''t1'' ''sig''))"
proof -
  let ?vs = "[(''r1'', checked_verdict True)]"
  have vs: "verifyQuestionnaireBlindResponseProofVerdicts plain_host any_signature (Some sample_key) [first_vote] [first_vote]
      = Some ?vs"
    by (simp add: verifyQuestionnaireBlindResponseProofVerdicts_def public_sample_ids public_sample_trims sample_proofs_valid
        from_entries_def)
  have "admitted_entry first_vote
      \<in> set (ba_accepted (evaluateQuestionnaireBlindAdmissions plain_host [first_vote] [] (Some ?vs) (Some True)))"
    by (simp add: evaluateQuestionnaireBlindAdmissions_def public_sample_order admit_entry_def settling_decision_def
      nothing_admitted_def token_used_def admitted_entry_def from_entries_def checked_verdict_def
      public_sample_ids public_sample_trims Let_def)
  from accepted_proofs_verify [OF vs refl _ this] show ?thesis
    by (auto simp: public_sample_ids admitted_entry_def)
qed

text \<open>
  Verdicts are kept by response id, not by event: an earlier response that repeats the response id
  of a genuine one, with a proof that does not verify, displaces it.  When the check of the genuine
  proof ends last, the forged response is the one that counts; otherwise neither does.
\<close>

lemma forged_response_displaces:
  assumes "response_id forged = response_id genuine" "response_id genuine \<noteq> []"
    and "ne_created_at (en_event forged) < ne_created_at (en_event genuine)" "event_id forged \<noteq> event_id genuine"
    and "fingerprintBlindResponsePayload h (en_response forged) \<noteq> fingerprintBlindResponsePayload h (en_response genuine)"
    and "response_proofs_valid h verify key (en_response genuine) = Some True"
    and "response_proofs_valid h verify key (en_response forged) = Some False"
  shows "(\<exists>verdicts. verifyQuestionnaireBlindResponseProofVerdicts h verify (Some key) [genuine, forged] [forged, genuine]
             = Some verdicts
           \<and> map ad_entry (ba_accepted (evaluateQuestionnaireBlindAdmissions h [genuine, forged] [] (Some verdicts)
               (Some True))) = [forged])
       \<and> (\<exists>verdicts. verifyQuestionnaireBlindResponseProofVerdicts h verify (Some key) [genuine, forged] [genuine, forged]
             = Some verdicts
           \<and> ba_accepted (evaluateQuestionnaireBlindAdmissions h [genuine, forged] [] (Some verdicts) (Some True)) = [])"
proof -
  have order: "dedupeBlindResponseEntries h [genuine, forged] = [forged, genuine]"
    using assms(1-5)
    by (auto simp: dedupeBlindResponseEntries_def js_sort_Cons canonicalBlindResponseOrder_def Let_def add_if_def
        logical_payload_key_def)
  note run = evaluateQuestionnaireBlindAdmissions_def order admit_entry_def settling_decision_def
    nothing_admitted_def token_used_def admitted_entry_def refused_def unproved_def record_admitted_def
    verifyQuestionnaireBlindResponseProofVerdicts_def checked_verdict_def from_entries_def Let_def
  show ?thesis
    by (intro conjI; insert assms) (simp_all add: run add_new_def)
qed

theorem forged_response_displaces_witness:
  "\<exists>verdicts. verifyQuestionnaireBlindResponseProofVerdicts plain_host any_signature (Some sample_key)
       [first_vote, forged_vote] [forged_vote, first_vote] = Some verdicts
     \<and> map ad_entry (ba_accepted (evaluateQuestionnaireBlindAdmissions plain_host [first_vote, forged_vote] []
          (Some verdicts) (Some True))) = [forged_vote]"
proof -
  have "fingerprintBlindResponsePayload plain_host (en_response forged_vote)
      \<noteq> fingerprintBlindResponsePayload plain_host (en_response first_vote)"
    by (simp add: fingerprintBlindResponsePayload_def fingerprint_value_def sample_response_def JSON_stringify.simps(7)
       js_entries_def array_index_key_def is_digit_def public_sample_trims json_string_def json_escape_char_def Let_def)
  then show ?thesis
    using forged_response_displaces [of forged_vote first_vote plain_host any_signature sample_key]
    by (simp add: public_sample_ids public_sample_trims sample_proofs_valid)
qed

text \<open>
  When the verification throws: it fails as a whole exactly when one response with a response id
  carries a proof whose scope has a question or slot id that is neither a text nor absent, and it
  returns for all other inputs.
\<close>

lemma malformed_scope_stops_verification:
  "verifyQuestionnaireBlindResponseProofVerdicts h verify (Some key) entries completion = None
     \<longleftrightarrow> (\<exists>e proof. e \<in> set completion \<and> response_id e \<noteq> []
          \<and> proof \<in> set (responseTokenProofs (en_response e)) \<and> scope_of_value (proof_scope proof) = None)"
  by (rule verification_stops_iff)

text \<open>Such a response passes the parser: the scope of its proof has a number where a text belongs.\<close>

definition malformed_content :: jsval where
  "malformed_content = JObj [(''schemaVersion'', JNum (num_int 1)), (''eventType'', JStr ''questionnaire_response_blind''),
     (''questionnaireId'', JStr ''e1''), (''responseId'', JStr ''r1''), (''authorPubkey'', JStr ''mallory''),
     (''tokenNullifier'', JStr ''n1''), (''answers'', JArr []),
     (''tokenProof'', JObj [(''tokenCommitment'', JStr ''t1''), (''questionnaireId'', JStr ''e1''),
        (''signature'', JStr ''sig''), (''ballotScope'', JObj [(''questionId'', JNum (num_int 5))])])]"

lemma malformed_scope: "scope_of_value (proof_scope (json_prop ''tokenProof'' malformed_content)) = None"
  by (simp add: malformed_content_def json_prop_def proof_scope_def scope_of_value_def js_truthy_def trimmable_def)

lemma malformed_response_is_read:
  "\<exists>r. parseQuestionnaireBlindResponseEvent (Some malformed_content) = Some r
     \<and> verifyQuestionnaireBlindResponseProofVerdicts h verify (Some key) entries
          (\<lparr>en_event = event, en_response = r\<rparr> # others) = None"
proof -
  let ?r = "\<lparr>br_questionnaireId = ''e1'', br_responseId = ''r1'', br_submittedAt = JUndefined,
    br_authorPubkey = ''mallory'', br_tokenNullifier = ''n1'', br_tokenNullifiers = None,
    br_tokenProof = json_prop ''tokenProof'' malformed_content, br_tokenProofs = None, br_answers = JArr []\<rparr>"
  let ?e = "\<lparr>en_event = event, en_response = ?r\<rparr>"
  have "parseQuestionnaireBlindResponseEvent (Some malformed_content) = Some ?r"
    by (simp add: malformed_content_def parseQuestionnaireBlindResponseEvent_def schema_1_def strings_present_def
        proof_shape_def optional_array_def json_prop_def str_prop_def js_truthy_def array_option_def)
  moreover have "verifyQuestionnaireBlindResponseProofVerdicts h verify (Some key) entries (?e # others) = None"
    unfolding verification_stops_iff
    by (intro exI [of _ ?e] exI [of _ "br_tokenProof ?r"])
       (simp add: malformed_scope response_id_def responseTokenProofs_def public_sample_trims)
  ultimately show ?thesis by blast
qed

section \<open>Delegated workers\<close>



end
