(* ===== verification/Organiser.thy ===== *)
theory Organiser
  imports Runtime_Scopes Intake
begin

text \<open>
  What the organiser does to a questionnaire's registers
  (\<open>QuestionnaireOptionACoordinatorRuntime\<close> of \<open>web/src/questionnaireOptionARuntime.ts\<close>, lines 4973
  to 5512): the signing key, the whitelist, the private invite codes and the paper-ballot
  admissions.  An operation of the class is a function of the object, with what it returns beside
  the object after it; a thrown error is a value.  The clock, the random key and the bech32 encoder
  of \<open>nostr-tools\<close> are arguments; storing the state, which changes nothing in it, is left out.
\<close>

section \<open>The object and its errors\<close>

text \<open>
  \<open>og_state\<close> is the field \<open>state\<close>; the queue of requests and the mailbox of issuances are the items
  of \<open>localStorage\<close> that the class reads and writes.
\<close>

record organiser =
  og_electionId :: string
  og_coordinatorNpub :: string
  og_state :: "coordinator_state option"
  og_pendingAuthorizations :: "blind_request list obj"
  og_queue :: "blind_request list"
  og_mailbox :: "blind_issuance obj"

datatype runtime_error =
    Not_logged_in
  | Invalid_submission string
  | Not_encodable string

type_synonym 'a organiser_result = "runtime_error + ('a \<times> organiser)"

text \<open>\<open>if (!this.state || !this.coordinatorNpub) throw\<close>, and the state written back.\<close>

definition with_state ::
  "organiser \<Rightarrow> (coordinator_state \<Rightarrow> runtime_error + ('a \<times> coordinator_state)) \<Rightarrow> 'a organiser_result" where
  "with_state og f = (case og_state og of
     None \<Rightarrow> Inl Not_logged_in
   | Some s \<Rightarrow>
       if og_coordinatorNpub og = [] then Inl Not_logged_in
       else (case f s of
           Inl e \<Rightarrow> Inl e
         | Inr (result, s') \<Rightarrow> Inr (result, og\<lparr>og_state := Some s'\<rparr>)))"

text \<open>\<open>toNpub\<close>: the encoder throws on a text that is not a public key.\<close>

definition toNpub :: "(string \<Rightarrow> string option) \<Rightarrow> string \<Rightarrow> runtime_error + string" where
  "toNpub encode pubkey =
     (if js_starts_with pubkey ''npub1'' then Inr pubkey
      else case encode pubkey of None \<Rightarrow> Inl (Not_encodable pubkey) | Some npub \<Rightarrow> Inr npub)"

section \<open>The signing key\<close>

definition ensureBlindSigningKey ::
  "blind_private_key \<Rightarrow> coordinator_state \<Rightarrow> blind_private_key \<times> coordinator_state" where
  "ensureBlindSigningKey generated s = (case co_blindSigningPrivateKey s of
     Some existingPrivateKey \<Rightarrow>
       (let existingPublicKey = toQuestionnaireBlindPublicKey existingPrivateKey
        in if map_option bk_keyId (es_blindSigningPublicKey (co_election s)) \<noteq> Some (bk_keyId existingPublicKey)
           then (existingPrivateKey,
             s\<lparr>co_election := (co_election s)\<lparr>es_blindSigningPublicKey := Some existingPublicKey\<rparr>\<rparr>)
           else (existingPrivateKey, s))
   | None \<Rightarrow> (generated, s\<lparr>co_blindSigningPrivateKey := Some generated,
       co_election := (co_election s)
         \<lparr>es_blindSigningPublicKey := Some (toQuestionnaireBlindPublicKey generated)\<rparr>\<rparr>))"

section \<open>The whitelist\<close>

definition credentials_number :: "jsnum option \<Rightarrow> jsnum" where
  "credentials_number c = num_int (normaliseQuestionnaireCredentialsPerVoter c)"

definition stored_credentials :: "whitelist_entry \<Rightarrow> jsnum" where
  "stored_credentials entry = (case we_credentialsPerVoter entry of Some n \<Rightarrow> n | None \<Rightarrow> num_int 1)"

definition new_entry :: "string \<Rightarrow> string \<Rightarrow> string \<Rightarrow> whitelist_entry" where
  "new_entry electionId npub addedAt = \<lparr>we_electionId = electionId, we_invitedNpub = npub,
     we_addedAt = addedAt, we_credentialsPerVoter = None, we_ballotGroup = None, we_inviteSentAt = None,
     we_inviteEventId = None, we_inviteCodeHash = None, we_inviteCodeRedeemedAt = None,
     we_claimState = Whitelisted, we_issuanceId = None, we_voterLastSeenAt = None,
     we_ballotRequestedAt = None, we_ballotIssuedAt = None, we_ballotReceivedAt = None\<rparr>"

text \<open>Writing settings to an entry that exists; \<open>None\<close> leaves the setting as it is.\<close>

definition entry_settings :: "jsnum option \<Rightarrow> string option option \<Rightarrow> whitelist_entry \<Rightarrow> whitelist_entry" where
  "entry_settings credentials ballotGroup entry = entry\<lparr>
     we_credentialsPerVoter := (case credentials of Some c \<Rightarrow> Some c | None \<Rightarrow> we_credentialsPerVoter entry),
     we_ballotGroup := (case ballotGroup of Some g \<Rightarrow> g | None \<Rightarrow> we_ballotGroup entry)\<rparr>"

text \<open>
  The options of \<open>addWhitelistNpub\<close>: \<open>None\<close> and \<open>Undefined\<close> are options that are not given.
\<close>

fun given :: "'a field \<Rightarrow> 'a option option" where
  "given Undefined = None"
| "given Null = Some None"
| "given (Present v) = Some (Some v)"

definition addWhitelistNpub ::
  "host \<Rightarrow> (string \<Rightarrow> string option) \<Rightarrow> string \<Rightarrow> string \<Rightarrow> jsnum option \<Rightarrow> string field \<Rightarrow> organiser
     \<Rightarrow> unit organiser_result" where
  "addWhitelistNpub h encode now invitedNpub credentialsOption groupOption og = with_state og (\<lambda>s.
     case toNpub encode invitedNpub of
       Inl e \<Rightarrow> Inl e
     | Inr npub \<Rightarrow>
         if npub = [] then Inl (Invalid_submission ''Invite target npub is invalid.'')
         else
           let credentials = credentials_number credentialsOption;
               ballotGroup = normaliseQuestionnaireBallotGroup (nullish groupOption)
           in case obj_get (co_whitelist s) npub of
             Some existing \<Rightarrow>
               (let credentialsChanged = (credentialsOption \<noteq> None \<and> stored_credentials existing \<noteq> credentials);
                    groupChanged = (groupOption \<noteq> Undefined \<and> we_ballotGroup existing \<noteq> ballotGroup)
                in if credentialsChanged \<or> groupChanged
                   then Inr ((), (put_entry npub (entry_settings
                            (if credentialsChanged then Some credentials else None)
                            (if groupOption \<noteq> Undefined then Some ballotGroup else None) existing) s)
                          \<lparr>co_lastUpdatedAt := now\<rparr>)
                   else Inr ((), s))
           | None \<Rightarrow>
               (let reduced = reduceCoordinatorEvent h s (WHITELIST_ADDED
                      ((new_entry (og_electionId og) npub now)
                        \<lparr>we_credentialsPerVoter := Some credentials, we_ballotGroup := ballotGroup\<rparr>)) now
                in if rr_ok reduced then Inr ((), rr_state reduced)
                   else Inl (Invalid_submission ''Could not add whitelist entry.'')))"

definition setWhitelistCredentialsPerVoter ::
  "(string \<Rightarrow> string option) \<Rightarrow> string \<Rightarrow> string \<Rightarrow> jsnum \<Rightarrow> organiser \<Rightarrow> unit organiser_result" where
  "setWhitelistCredentialsPerVoter encode now invitedNpub credentialsPerVoter og = with_state og (\<lambda>s.
     case toNpub encode invitedNpub of
       Inl e \<Rightarrow> Inl e
     | Inr npub \<Rightarrow>
         case (if npub = [] then None else obj_get (co_whitelist s) npub) of
           None \<Rightarrow> Inr ((), s)
         | Some existing \<Rightarrow>
             if stored_credentials existing = credentials_number (Some credentialsPerVoter) then Inr ((), s)
             else Inr ((), (put_entry npub
                 (entry_settings (Some (credentials_number (Some credentialsPerVoter))) None existing) s)
               \<lparr>co_lastUpdatedAt := now\<rparr>))"

definition setWhitelistBallotGroup ::
  "(string \<Rightarrow> string option) \<Rightarrow> string \<Rightarrow> string \<Rightarrow> string option \<Rightarrow> organiser \<Rightarrow> unit organiser_result" where
  "setWhitelistBallotGroup encode now invitedNpub ballotGroup og = with_state og (\<lambda>s.
     case toNpub encode invitedNpub of
       Inl e \<Rightarrow> Inl e
     | Inr npub \<Rightarrow>
         case (if npub = [] then None else obj_get (co_whitelist s) npub) of
           None \<Rightarrow> Inr ((), s)
         | Some existing \<Rightarrow>
             if we_ballotGroup existing = normaliseQuestionnaireBallotGroup ballotGroup then Inr ((), s)
             else Inr ((), (put_entry npub
                 (entry_settings None (Some (normaliseQuestionnaireBallotGroup ballotGroup)) existing) s)
               \<lparr>co_lastUpdatedAt := now\<rparr>))"

text \<open>
  One voter of a batch.  A given credential number that is not present is \<open>None\<close>; the dictionary of
  groups holds a field, so that a key with the value \<open>undefined\<close> counts as given.  The result tells
  whether a voter was added and whether the state changed.
\<close>

definition batch_step ::
  "host \<Rightarrow> string \<Rightarrow> string \<Rightarrow> jsnum obj \<Rightarrow> string field obj \<Rightarrow> string \<Rightarrow> coordinator_state
     \<Rightarrow> coordinator_state \<times> bool \<times> bool" where
  "batch_step h electionId now credentialsByNpub ballotGroupsByNpub npub s =
     (let givenGroup = obj_get ballotGroupsByNpub npub;
          ballotGroup = normaliseQuestionnaireBallotGroup (Option.bind givenGroup nullish)
      in case obj_get (co_whitelist s) npub of
        Some existing \<Rightarrow>
          (let explicitCredentials = map_option (\<lambda>c. credentials_number (Some c)) (obj_get credentialsByNpub npub);
               explicitGroup = (if givenGroup = None then None else Some ballotGroup)
           in if (case explicitCredentials of None \<Rightarrow> False | Some c \<Rightarrow> stored_credentials existing \<noteq> c)
                 \<or> (case explicitGroup of None \<Rightarrow> False | Some g \<Rightarrow> we_ballotGroup existing \<noteq> g)
              then ((put_entry npub (entry_settings explicitCredentials explicitGroup existing) s)
                      \<lparr>co_lastUpdatedAt := now\<rparr>, False, True)
              else (s, False, False))
      | None \<Rightarrow>
          (let reduced = reduceCoordinatorEvent h s (WHITELIST_ADDED ((new_entry electionId npub now)
                 \<lparr>we_credentialsPerVoter := Some (credentials_number (obj_get credentialsByNpub npub)),
                  we_ballotGroup := ballotGroup\<rparr>)) now
           in if rr_ok reduced then (rr_state reduced, True, True) else (s, False, False)))"

fun batch_loop ::
  "host \<Rightarrow> string \<Rightarrow> string \<Rightarrow> jsnum obj \<Rightarrow> string field obj \<Rightarrow> string list
     \<Rightarrow> coordinator_state \<times> nat \<times> bool \<Rightarrow> coordinator_state \<times> nat \<times> bool" where
  "batch_loop h electionId now credentialsByNpub ballotGroupsByNpub [] acc = acc"
| "batch_loop h electionId now credentialsByNpub ballotGroupsByNpub (npub # npubs) (s, addedCount, changed) =
     (let (s', added, touched) = batch_step h electionId now credentialsByNpub ballotGroupsByNpub npub s
      in batch_loop h electionId now credentialsByNpub ballotGroupsByNpub npubs
           (s', if added then Suc addedCount else addedCount, changed \<or> touched))"

fun all_npubs :: "(string \<Rightarrow> string option) \<Rightarrow> string list \<Rightarrow> runtime_error + string list" where
  "all_npubs encode [] = Inr []"
| "all_npubs encode (pubkey # pubkeys) = (case toNpub encode pubkey of
     Inl e \<Rightarrow> Inl e
   | Inr npub \<Rightarrow> (case all_npubs encode pubkeys of Inl e \<Rightarrow> Inl e | Inr npubs \<Rightarrow> Inr (npub # npubs)))"

definition addWhitelistNpubs ::
  "host \<Rightarrow> (string \<Rightarrow> string option) \<Rightarrow> string \<Rightarrow> string list \<Rightarrow> jsnum obj \<Rightarrow> string field obj \<Rightarrow> organiser
     \<Rightarrow> (nat \<times> bool) organiser_result" where
  "addWhitelistNpubs h encode now invitedNpubs credentialsByNpub ballotGroupsByNpub og = with_state og (\<lambda>s.
     case all_npubs encode invitedNpubs of
       Inl e \<Rightarrow> Inl e
     | Inr npubs \<Rightarrow>
         let uniqueNpubs = js_set (filter (\<lambda>entry. entry \<noteq> []) npubs);
             (s', addedCount, changed) = batch_loop h (og_electionId og) now credentialsByNpub ballotGroupsByNpub
               uniqueNpubs (s, 0, False)
         in Inr ((addedCount, changed), s'))"

end
