(* ===== verification/Invite_Registers.thy ===== *)
theory Invite_Registers
  imports Organiser
begin

text \<open>
  The registers that admit voters without an invitation by name
  (\<open>web/src/questionnaireOptionARuntime.ts\<close>, lines 5205 to 5629): private invite codes, which a
  number of voters may redeem, and paper-ballot admissions, which one voter may.  The operations of
  the organiser come first, the redemption by a request and the checks before it after them.
\<close>

section \<open>Private invite codes\<close>

definition normalised_hash :: "string option \<Rightarrow> string" where
  "normalised_hash codeHash = js_lower (js_trim (string_or_empty codeHash))"

definition max_redemptions :: "jsnum option \<Rightarrow> int" where
  "max_redemptions n = normaliseQuestionnairePrivateInviteMaxRedemptions
     (case n of Some v \<Rightarrow> JNum v | None \<Rightarrow> JUndefined)"

definition put_code :: "string \<Rightarrow> bearer_invite \<Rightarrow> string \<Rightarrow> coordinator_state \<Rightarrow> coordinator_state" where
  "put_code codeHash entry updatedAt s = s\<lparr>
     co_bearerInviteCodes := obj_set codeHash entry (co_bearerInviteCodes s), co_lastUpdatedAt := updatedAt\<rparr>"

definition code_to_add ::
  "string \<Rightarrow> string \<Rightarrow> string \<Rightarrow> jsnum option \<Rightarrow> string field \<Rightarrow> jsnum option \<Rightarrow> bearer_invite option \<Rightarrow> bearer_invite"
where
  "code_to_add electionId now codeHash credentialsOption groupOption maxOption existing =
     \<lparr>
        bi_electionId = electionId,
        bi_codeHash = codeHash,
        bi_createdAt = (case existing of Some e \<Rightarrow> bi_createdAt e | None \<Rightarrow> now),
        bi_state = (if map_option bi_state existing = Some BearerRevoked then BearerRevoked else BearerAvailable),
        bi_credentialsPerVoter = Some (credentials_number
          (coalesce credentialsOption (Option.bind existing bi_credentialsPerVoter))),
        bi_maxRedemptions = Some (num_int (max_redemptions
          (coalesce maxOption (Option.bind existing bi_maxRedemptions)))),
        bi_ballotGroup = (if groupOption \<noteq> Undefined then normaliseQuestionnaireBallotGroup (nullish groupOption)
          else Option.bind existing bi_ballotGroup),
        bi_note = Option.bind existing bi_note,
        bi_autoRequestBallot = Some (Option.bind existing bi_autoRequestBallot \<noteq> Some False),
        bi_markedUsedAt = Option.bind existing bi_markedUsedAt,
        bi_redeemedAt = Option.bind existing bi_redeemedAt,
        bi_redeemedNpub = Option.bind existing bi_redeemedNpub,
        bi_redeemedNpubs = Some (case Option.bind existing bi_redeemedNpubs of
            Some npubs \<Rightarrow> npubs
          | None \<Rightarrow> (case Option.bind existing bi_redeemedNpub of
                Some npub \<Rightarrow> if npub \<noteq> [] then [npub] else [] | None \<Rightarrow> [])),
        bi_revokedAt = Option.bind existing bi_revokedAt\<rparr>"

definition addBearerInviteCode ::
  "string \<Rightarrow> string option \<Rightarrow> jsnum option \<Rightarrow> string field \<Rightarrow> jsnum option \<Rightarrow> organiser
     \<Rightarrow> bearer_invite organiser_result" where
  "addBearerInviteCode now codeHash credentialsOption groupOption maxOption og = with_state og (\<lambda>s.
     let normalisedHash = normalised_hash codeHash;
         existing = obj_get (co_bearerInviteCodes s) normalisedHash
     in if \<not> isQuestionnaireInviteCodeHash (Some normalisedHash)
        then Inl (Invalid_submission ''Private invite code is invalid.'')
        else case (if map_option bi_state existing = Some BearerRedeemed then existing else None) of
          Some redeemed \<Rightarrow> Inr (redeemed, s)
        | None \<Rightarrow>
            let entry = code_to_add (og_electionId og) now normalisedHash credentialsOption groupOption maxOption
                  existing
            in Inr (entry, put_code normalisedHash entry now s))"

text \<open>
  The other operations look the code up; \<open>change_code\<close> applies \<open>change\<close> to it, and keeps the state
  when there is no such code or \<open>change\<close> yields none.
\<close>

definition change_code ::
  "string option \<Rightarrow> string \<Rightarrow> (bearer_invite \<Rightarrow> bearer_invite option) \<Rightarrow> organiser
     \<Rightarrow> bearer_invite option organiser_result" where
  "change_code codeHash updatedAt change og = with_state og (\<lambda>s.
     let normalisedHash = normalised_hash codeHash in
     case obj_get (co_bearerInviteCodes s) normalisedHash of
       None \<Rightarrow> Inr (None, s)
     | Some existing \<Rightarrow>
         (case change existing of
            None \<Rightarrow> Inr (Some existing, s)
          | Some next \<Rightarrow> Inr (Some next, put_code normalisedHash next updatedAt s)))"

definition revokeBearerInviteCode ::
  "string \<Rightarrow> string option \<Rightarrow> organiser \<Rightarrow> bearer_invite option organiser_result" where
  "revokeBearerInviteCode now codeHash = change_code codeHash now (\<lambda>existing.
     if bi_state existing \<noteq> BearerAvailable then None
     else Some (existing\<lparr>bi_state := BearerRevoked, bi_revokedAt := Some now\<rparr>))"

definition toggleBearerInviteCodeAvailability ::
  "string \<Rightarrow> string option \<Rightarrow> organiser \<Rightarrow> bearer_invite option organiser_result" where
  "toggleBearerInviteCodeAvailability now codeHash = change_code codeHash now (\<lambda>existing.
     if bi_state existing = BearerRedeemed then None
     else if bi_state existing = BearerAvailable
       then Some (existing\<lparr>bi_state := BearerRevoked, bi_revokedAt := Some now\<rparr>)
     else Some (existing\<lparr>bi_state := BearerAvailable, bi_revokedAt := None\<rparr>))"

definition updateBearerInviteCodeNote ::
  "string \<Rightarrow> string option \<Rightarrow> string \<Rightarrow> organiser \<Rightarrow> bearer_invite option organiser_result" where
  "updateBearerInviteCodeNote now codeHash note = change_code codeHash now (\<lambda>existing.
     Some (existing\<lparr>bi_note := (if js_trim note = [] then None else Some (js_trim note))\<rparr>))"

definition setBearerInviteCodeMarkedUsed ::
  "string \<Rightarrow> string option \<Rightarrow> bool \<Rightarrow> organiser \<Rightarrow> bearer_invite option organiser_result" where
  "setBearerInviteCodeMarkedUsed now codeHash markedUsed = change_code codeHash now (\<lambda>existing.
     let nextState = (if bi_state existing = BearerRedeemed then bi_state existing
           else if markedUsed then BearerRevoked else BearerAvailable)
     in Some (existing\<lparr>
          bi_state := nextState,
          bi_markedUsedAt := (if markedUsed then coalesce (bi_markedUsedAt existing) (Some now) else None),
          bi_revokedAt := (if nextState = BearerRevoked then coalesce (bi_revokedAt existing) (Some now)
            else if nextState = BearerAvailable then None else bi_revokedAt existing)\<rparr>))"

definition setBearerInviteCodeAutoRequestBallot ::
  "string \<Rightarrow> string option \<Rightarrow> bool \<Rightarrow> organiser \<Rightarrow> bearer_invite option organiser_result" where
  "setBearerInviteCodeAutoRequestBallot now codeHash autoRequestBallot = change_code codeHash now (\<lambda>existing.
     Some (existing\<lparr>bi_autoRequestBallot := Some autoRequestBallot\<rparr>))"

definition setBearerInviteCodeBallotGroup ::
  "string \<Rightarrow> string option \<Rightarrow> string option \<Rightarrow> organiser \<Rightarrow> bearer_invite option organiser_result" where
  "setBearerInviteCodeBallotGroup now codeHash ballotGroup = change_code codeHash now (\<lambda>existing.
     if bi_ballotGroup existing = normaliseQuestionnaireBallotGroup ballotGroup then None
     else Some (existing\<lparr>bi_ballotGroup := normaliseQuestionnaireBallotGroup ballotGroup\<rparr>))"

section \<open>Paper-ballot admissions\<close>

definition addPaperBallotAdmission ::
  "host \<Rightarrow> string \<Rightarrow> admission_entry \<Rightarrow> organiser \<Rightarrow> admission_entry organiser_result" where
  "addPaperBallotAdmission h now entry og = with_state og (\<lambda>s.
     let registryKey = js_lower (js_trim (pa_registryKey entry))
     in if \<not> isPaperBallotAdmissionEntry h entry \<or> pa_electionId entry \<noteq> og_electionId og
        then Inl (Invalid_submission ''Paper ballot admission is invalid.'')
        else case obj_get (co_paperBallotAdmissions s) registryKey of
          Some existing \<Rightarrow> Inr (existing, s)
        | None \<Rightarrow>
            let next = (admission_fields entry)\<lparr>pa_electionId := og_electionId og, pa_registryKey := registryKey\<rparr>
            in Inr (next, s\<lparr>
                 co_paperBallotAdmissions := obj_set registryKey next
                   (sanitisePaperBallotAdmissions h (Some (co_paperBallotAdmissions s))),
                 co_lastUpdatedAt := now\<rparr>))"

definition revokePaperBallotAdmission ::
  "string \<Rightarrow> string \<Rightarrow> organiser \<Rightarrow> admission_entry option organiser_result" where
  "revokePaperBallotAdmission now registryKey og = with_state og (\<lambda>s.
     let key = js_lower (js_trim registryKey) in
     case obj_get (co_paperBallotAdmissions s) key of
       None \<Rightarrow> Inr (None, s)
     | Some entry \<Rightarrow>
         if pa_state entry \<noteq> Available then Inr (Some entry, s)
         else let next = entry\<lparr>pa_state := Revoked\<rparr>
              in Inr (Some next, s\<lparr>co_paperBallotAdmissions := obj_set key next (co_paperBallotAdmissions s),
                                   co_lastUpdatedAt := now\<rparr>))"

section \<open>Redemption by a request\<close>

definition paper_key :: "blind_request \<Rightarrow> string" where
  "paper_key request = (case nullish (rq_paperBallotAdmissionKey request) of
     Some key \<Rightarrow> js_lower (js_trim key) | None \<Rightarrow> [])"

text \<open>An old redeemed entry takes the voter from the request or issuance that redeemed it.\<close>

definition recovered_admission :: "string \<Rightarrow> coordinator_state \<Rightarrow> admission_entry option \<Rightarrow> admission_entry option" where
  "recovered_admission electionId s found = (case found of
     None \<Rightarrow> None
   | Some entry \<Rightarrow>
       if pa_state entry = Redeemed \<and> \<not> truthy (pa_redeemedNpub entry) \<and> truthy (pa_redeemedRequestId entry)
       then (let requestId = string_or_empty (pa_redeemedRequestId entry);
                 bound = coalesce
                   (map_option (\<lambda>i. (is_electionId i, is_invitedNpub i)) (obj_get (co_issuedBlindResponses s) requestId))
                   (map_option (\<lambda>r. (rq_electionId r, rq_invitedNpub r)) (obj_get (co_pendingBlindRequests s) requestId))
             in case bound of
                  Some (boundElection, boundNpub) \<Rightarrow>
                    if boundElection = electionId then Some (entry\<lparr>pa_redeemedNpub := Some boundNpub\<rparr>)
                    else Some entry
                | None \<Rightarrow> Some entry)
       else Some entry)"

definition redeemPaperBallotAdmissionForRequest ::
  "host \<Rightarrow> string \<Rightarrow> string \<Rightarrow> coordinator_state \<Rightarrow> blind_request \<Rightarrow> coordinator_state \<times> bool" where
  "redeemPaperBallotAdmissionForRequest h electionId now s request =
     (let registryKey = paper_key request in
      if registryKey = [] then (s, False)
      else case redeemPaperBallotAdmission h
                  (recovered_admission electionId s (obj_get (co_paperBallotAdmissions s) registryKey))
                  electionId registryKey (rq_requestId request) (rq_invitedNpub request) now of
        Inl reason \<Rightarrow> (s, False)
      | Inr (replayed, entry) \<Rightarrow>
          (let npub = rq_invitedNpub request;
               whitelistEntry = (case obj_get (co_whitelist s) npub of
                   Some existing \<Rightarrow> existing
                 | None \<Rightarrow> new_entry electionId npub
                     (case pa_redeemedAt entry of Some t \<Rightarrow> t | None \<Rightarrow> now))
           in ((put_entry npub whitelistEntry s)\<lparr>
                 co_paperBallotAdmissions := obj_set registryKey entry (co_paperBallotAdmissions s),
                 co_lastUpdatedAt := now\<rparr>, True)))"

text \<open>The voters that have redeemed a code.\<close>

definition redeemers :: "bearer_invite \<Rightarrow> string list" where
  "redeemers entry = js_set (filter (\<lambda>npub. npub \<noteq> []) (map js_trim
     ((case bi_redeemedNpubs entry of Some npubs \<Rightarrow> npubs | None \<Rightarrow> [])
      @ (case bi_redeemedNpub entry of Some npub \<Rightarrow> if npub \<noteq> [] then [npub] else [] | None \<Rightarrow> []))))"

definition code_full_for :: "string \<Rightarrow> bearer_invite \<Rightarrow> bool" where
  "code_full_for npub entry = (npub \<notin> set (redeemers entry)
     \<and> max_redemptions (bi_maxRedemptions entry) \<le> int (length (redeemers entry)))"

definition request_code :: "blind_request \<Rightarrow> string" where
  "request_code request = normalised_hash (nullish (rq_inviteCodeHash request))"

text \<open>The whitelist entry of a voter who redeems the code.\<close>

definition redeeming_entry ::
  "string \<Rightarrow> string \<Rightarrow> string \<Rightarrow> string \<Rightarrow> bearer_invite \<Rightarrow> whitelist_entry option \<Rightarrow> whitelist_entry" where
  "redeeming_entry electionId npub codeHash redeemedAt codeEntry existing =
     (let credentials = credentials_number (bi_credentialsPerVoter codeEntry);
          ballotGroup = normaliseQuestionnaireBallotGroup (bi_ballotGroup codeEntry)
      in case existing of
        Some entry \<Rightarrow> entry\<lparr>
          we_credentialsPerVoter := Some (if we_credentialsPerVoter entry = Some (num_int 2)
              \<or> credentials = num_int 2 then num_int 2 else num_int 1),
          we_ballotGroup := coalesce (we_ballotGroup entry) ballotGroup,
          we_inviteCodeHash := coalesce (we_inviteCodeHash entry) (Some codeHash),
          we_inviteCodeRedeemedAt := coalesce (we_inviteCodeRedeemedAt entry) (Some redeemedAt)\<rparr>
      | None \<Rightarrow> (new_entry electionId npub redeemedAt)\<lparr>
          we_credentialsPerVoter := Some credentials, we_ballotGroup := ballotGroup,
          we_inviteCodeHash := Some codeHash, we_inviteCodeRedeemedAt := Some redeemedAt\<rparr>)"

definition redeemed_code :: "string \<Rightarrow> string \<Rightarrow> bearer_invite \<Rightarrow> bearer_invite" where
  "redeemed_code npub redeemedAt codeEntry =
     (let maxRedemptions = max_redemptions (bi_maxRedemptions codeEntry);
          nextRedeemedNpubs = (if npub \<in> set (redeemers codeEntry) then redeemers codeEntry
            else redeemers codeEntry @ [npub])
      in codeEntry\<lparr>
           bi_state := (if maxRedemptions \<le> int (length nextRedeemedNpubs) then BearerRedeemed else BearerAvailable),
           bi_redeemedAt := Some redeemedAt,
           bi_redeemedNpub := (if maxRedemptions = 1 then Some npub else None),
           bi_redeemedNpubs := Some nextRedeemedNpubs,
           bi_maxRedemptions := Some (num_int maxRedemptions)\<rparr>)"

definition redeemBearerInviteCodeForRequest ::
  "string \<Rightarrow> string \<Rightarrow> coordinator_state \<Rightarrow> blind_request \<Rightarrow> coordinator_state" where
  "redeemBearerInviteCodeForRequest electionId now s request =
     (let codeHash = request_code request; npub = rq_invitedNpub request in
      if \<not> isQuestionnaireInviteCodeHash (Some codeHash) then s
      else case obj_get (co_bearerInviteCodes s) codeHash of
        None \<Rightarrow> s
      | Some codeEntry \<Rightarrow>
          if bi_electionId codeEntry \<noteq> electionId \<or> bi_state codeEntry = BearerRevoked then s
          else if code_full_for npub codeEntry then s
          else
            let redeemedAt = (case bi_redeemedAt codeEntry of Some t \<Rightarrow> t | None \<Rightarrow> now)
            in (put_entry npub (redeeming_entry electionId npub codeHash redeemedAt codeEntry
                   (obj_get (co_whitelist s) npub)) s)\<lparr>
                 co_bearerInviteCodes := obj_set codeHash (redeemed_code npub redeemedAt codeEntry)
                   (co_bearerInviteCodes s),
                 co_lastUpdatedAt := redeemedAt\<rparr>)"

section \<open>Checks of a request\<close>

datatype code_block = Code_redeemed | Code_revoked

definition getBearerInviteCodeRequestBlockReason ::
  "string \<Rightarrow> coordinator_state \<Rightarrow> blind_request \<Rightarrow> code_block option" where
  "getBearerInviteCodeRequestBlockReason electionId s request =
     (let codeHash = request_code request in
      if \<not> isQuestionnaireInviteCodeHash (Some codeHash) then None
      else case obj_get (co_bearerInviteCodes s) codeHash of
        None \<Rightarrow> None
      | Some codeEntry \<Rightarrow>
          if bi_electionId codeEntry \<noteq> electionId then None
          else if bi_state codeEntry = BearerRevoked then Some Code_revoked
          else if code_full_for (rq_invitedNpub request) codeEntry then Some Code_redeemed
          else None)"

text \<open>The group that the registers give the voter; \<open>None\<close> is \<open>undefined\<close>.\<close>

definition configuredBallotGroupForRequest ::
  "string \<Rightarrow> coordinator_state \<Rightarrow> blind_request \<Rightarrow> string option option" where
  "configuredBallotGroupForRequest electionId s request =
     (let listed = obj_get (co_whitelist s) (rq_invitedNpub request);
          codeEntry = (if isQuestionnaireInviteCodeHash (Some (request_code request))
            then obj_get (co_bearerInviteCodes s) (request_code request) else None)
      in if truthy (nullish (rq_paperBallotAdmissionKey request))
         then Some (normaliseQuestionnaireBallotGroup (Option.bind listed we_ballotGroup))
         else case (case codeEntry of Some e \<Rightarrow> if bi_electionId e = electionId then Some e else None | None \<Rightarrow> None) of
           Some e \<Rightarrow> Some (normaliseQuestionnaireBallotGroup (bi_ballotGroup e))
         | None \<Rightarrow> map_option (\<lambda>entry. normaliseQuestionnaireBallotGroup (we_ballotGroup entry)) listed)"

text \<open>Whether the scopes that the request asks for are those of the group.\<close>

definition requested_scopes :: "blind_request \<Rightarrow> string list" where
  "requested_scopes request = scope_allowed (request_scope request)"

definition group_matches :: "string option option \<Rightarrow> blind_request \<Rightarrow> bool" where
  "group_matches configuredBallotGroup request = (case configuredBallotGroup of
     None \<Rightarrow> True
   | Some ballotGroup \<Rightarrow> json_string_array (allowedScopesForRequiredScope ballotGroup)
       = json_string_array (requested_scopes request))"

definition hasRequiredGeneralInvitePow :: "host \<Rightarrow> questionnaire_definition option \<Rightarrow> blind_request \<Rightarrow> bool" where
  "hasRequiredGeneralInvitePow h cachedDefinition request =
     (let difficulty = (case Option.bind cachedDefinition d_generalInvitePowDifficulty of
            Some n \<Rightarrow> n | None \<Rightarrow> num_int 0)
      in truthy (nullish (rq_inviteCodeHash request)) \<or> truthy (nullish (rq_paperBallotAdmissionKey request))
         \<or> num_eq difficulty (num_int 0)
         \<or> verifyGeneralInvitePow h (pow_request_of request) difficulty (nullish (rq_generalInvitePow request)))"

end
