(* ===== verification/Issuance.thy ===== *)
theory Issuance
  imports Invite_Registers
begin

text \<open>
  Answering the requests for a credential (\<open>web/src/questionnaireOptionARuntime.ts\<close>, lines 5645 to
  5700, 5808 to 5862 and 6008 to 6528, with the queue and the mailbox of
  \<open>web/src/questionnaireOptionAStorage.ts\<close>, lines 682 to 718).  The loop of
  \<open>processPendingBlindRequestsInternal\<close> is a recursive function over the queue as it stands when the
  loop starts.  What differs from one iteration to the next without being the loop's doing, the
  clock, the cached definition and the random part of an identifier, is the \<open>moment\<close> of the
  iteration.  The RSA signature over a blinded message is an argument; it throws, which is \<open>None\<close>, on
  a message that is not a hexadecimal number in the range of the key.  Acknowledgements, republication
  and log entries are left out.
\<close>

section \<open>The queue and the mailbox\<close>

definition enqueueBlindRequest :: "blind_request \<Rightarrow> blind_request list \<Rightarrow> blind_request list" where
  "enqueueBlindRequest request queue =
     (let sanitised = sanitiseBlindBallotRequest request
      in filter (\<lambda>entry. rq_requestId entry \<noteq> rq_requestId sanitised) (map sanitiseBlindBallotRequest queue)
           @ [sanitised])"

definition listBlindRequests :: "string \<Rightarrow> blind_request list \<Rightarrow> blind_request list" where
  "listBlindRequests electionId queue =
     filter (\<lambda>entry. rq_electionId entry = electionId) (map sanitiseBlindBallotRequest queue)"

definition dequeueBlindRequest :: "string \<Rightarrow> blind_request list \<Rightarrow> blind_request list" where
  "dequeueBlindRequest requestId queue =
     filter (\<lambda>entry. rq_requestId entry \<noteq> requestId) (map sanitiseBlindBallotRequest queue)"

definition storeBlindIssuance :: "blind_issuance \<Rightarrow> blind_issuance obj \<Rightarrow> blind_issuance obj" where
  "storeBlindIssuance issuance mailbox =
     (let sanitised = sanitiseBlindBallotIssuance issuance
      in obj_set (is_requestId sanitised) sanitised mailbox)"

definition readBlindIssuance :: "string \<Rightarrow> blind_issuance obj \<Rightarrow> blind_issuance option" where
  "readBlindIssuance requestId mailbox = map_option sanitiseBlindBallotIssuance (obj_get mailbox requestId)"

definition take_off_queue :: "blind_request \<Rightarrow> organiser \<Rightarrow> organiser" where
  "take_off_queue request og = og\<lparr>og_queue := dequeueBlindRequest (rq_requestId request) (og_queue og)\<rparr>"

definition put_in_mailbox :: "blind_issuance \<Rightarrow> organiser \<Rightarrow> organiser" where
  "put_in_mailbox issuance og = og\<lparr>og_mailbox := storeBlindIssuance issuance (og_mailbox og)\<rparr>"

section \<open>Requests that arrive\<close>

text \<open>
  The loop of \<open>syncBlindRequestsFromDm\<close> over the fetched requests; \<open>skip\<close> is
  \<open>shouldSkipBlindRequestAck\<close>, which reads the delivery records.
\<close>

fun syncBlindRequests ::
  "host \<Rightarrow> questionnaire_definition option \<Rightarrow> (blind_request \<Rightarrow> bool) \<Rightarrow> blind_request list
     \<Rightarrow> blind_request list \<Rightarrow> blind_request list" where
  "syncBlindRequests h cachedDefinition skip [] queue = queue"
| "syncBlindRequests h cachedDefinition skip (request # requests) queue =
     syncBlindRequests h cachedDefinition skip requests
       (if skip request then dequeueBlindRequest (rq_requestId request) queue
        else if \<not> hasRequiredGeneralInvitePow h cachedDefinition request then queue
        else enqueueBlindRequest request queue)"

section \<open>The surroundings of the loop\<close>

record moment =
  mo_now :: string
  mo_seconds :: int
  mo_definition :: "questionnaire_definition option"
  mo_definitionHash :: string
  mo_issuanceId :: string

text \<open>\<open>iu_key\<close> is \<open>None\<close> while a worker issues the credentials.\<close>

record issuer =
  iu_host :: host
  iu_electionId :: string
  iu_key :: "blind_private_key option"
  iu_sign :: "blind_private_key \<Rightarrow> string \<Rightarrow> string option"

definition enrichIssuanceWithDefinitionReference :: "moment \<Rightarrow> blind_issuance \<Rightarrow> blind_issuance" where
  "enrichIssuanceWithDefinitionReference mo issuance =
     (if truthy (nullish (is_definitionHash issuance)) \<and> nullish (is_definition issuance) = None
      then issuance
      else case mo_definition mo of
        None \<Rightarrow> issuance
      | Some d \<Rightarrow> issuance\<lparr>
          is_definition := Undefined,
          is_definitionHash := Present (case nullish (is_definitionHash issuance) of
            Some hash \<Rightarrow> hash | None \<Rightarrow> mo_definitionHash mo),
          is_definitionEventId := null_if_nullish (is_definitionEventId issuance)\<rparr>)"

datatype request_rejection =
    Invalid_pow
  | Invite_unavailable code_block
  | Not_open
  | Group_mismatch
  | Proxy_not_enabled
  | Before_paper "coordinator_error option"
  | Paper_unavailable

text \<open>
  What becomes of a request.  \<open>Rejected\<close>, \<open>Issued\<close> and \<open>Reissued\<close> requests leave the queue.  \<open>Held\<close>:
  the reducer refused the request; a voter who is not on the whitelist waits for authorisation.
  \<open>Observed\<close>: a worker issues.  \<open>Unissued\<close>: the reducer refused the issuance.  \<open>Threw\<close>: signing threw,
  and the loop with it.
\<close>

datatype issue_outcome =
    Rejected request_rejection
  | Held "coordinator_error option"
  | Observed
  | Reissued blind_issuance
  | Unissued "coordinator_error option"
  | Issued blind_issuance
  | Threw

section \<open>Checks before the registers change\<close>

definition outside_window :: "moment \<Rightarrow> bool" where
  "outside_window mo = (case mo_definition mo of
     None \<Rightarrow> False
   | Some d \<Rightarrow> num_lt (num_int (mo_seconds mo)) (d_openAt d) \<or> num_le (d_closeAt d) (num_int (mo_seconds mo)))"

definition paper_preflight :: "issuer \<Rightarrow> moment \<Rightarrow> coordinator_state \<Rightarrow> blind_request \<Rightarrow> coordinator_result" where
  "paper_preflight iu mo s request =
     (let npub = rq_invitedNpub request;
          entry = (case obj_get (co_whitelist s) npub of Some e \<Rightarrow> e
            | None \<Rightarrow> new_entry (iu_electionId iu) npub (mo_now mo));
          claim = reduceCoordinatorEvent (iu_host iu) (put_entry npub entry s)
            (COORDINATOR_LOGIN_VERIFIED (iu_electionId iu) npub) (mo_now mo)
      in if rr_ok claim
         then reduceCoordinatorEvent (iu_host iu) (rr_state claim) (BLIND_REQUEST_RECEIVED request) (mo_now mo)
         else claim)"

definition request_rejection :: "issuer \<Rightarrow> moment \<Rightarrow> coordinator_state \<Rightarrow> blind_request \<Rightarrow> request_rejection option" where
  "request_rejection iu mo s request =
     (if \<not> hasRequiredGeneralInvitePow (iu_host iu) (mo_definition mo) request then Some Invalid_pow
      else case getBearerInviteCodeRequestBlockReason (iu_electionId iu) s request of
        Some reason \<Rightarrow> Some (Invite_unavailable reason)
      | None \<Rightarrow>
          if es_state (co_election s) = Closed \<or> es_state (co_election s) = Counted \<or> outside_window mo
          then Some Not_open
          else if \<not> group_matches (configuredBallotGroupForRequest (iu_electionId iu) s request) request
          then Some Group_mismatch
          else if obj_get (co_whitelist s) (rq_invitedNpub request) = None
               \<and> 1 < ballotScopeCredentialIndex (request_scope request)
          then Some Proxy_not_enabled
          else if truthy (nullish (rq_paperBallotAdmissionKey request))
               \<and> \<not> rr_ok (paper_preflight iu mo s request)
          then Some (Before_paper (rr_error (paper_preflight iu mo s request)))
          else None)"

section \<open>Admitting the voter\<close>

text \<open>
  The paper admission and the invite code are redeemed and the voter is claimed; the check of the
  credential index comes after.
\<close>

definition claim_voter :: "issuer \<Rightarrow> moment \<Rightarrow> coordinator_state \<Rightarrow> string \<Rightarrow> coordinator_state" where
  "claim_voter iu mo s npub = (let claimed = reduceCoordinatorEvent (iu_host iu) s
       (COORDINATOR_LOGIN_VERIFIED (iu_electionId iu) npub) (mo_now mo)
     in if rr_ok claimed then rr_state claimed else s)"

definition credential_index_refused :: "coordinator_state \<Rightarrow> blind_request \<Rightarrow> bool" where
  "credential_index_refused s request = (case obj_get (co_whitelist s) (rq_invitedNpub request) of
     None \<Rightarrow> False
   | Some entry \<Rightarrow> normaliseQuestionnaireCredentialsPerVoter (we_credentialsPerVoter entry)
       < ballotScopeCredentialIndex (request_scope request))"

definition admit_request ::
  "issuer \<Rightarrow> moment \<Rightarrow> coordinator_state \<Rightarrow> blind_request \<Rightarrow> coordinator_state \<times> request_rejection option" where
  "admit_request iu mo s request =
     (let (redeemed, admitted) =
            redeemPaperBallotAdmissionForRequest (iu_host iu) (iu_electionId iu) (mo_now mo) s request
      in if truthy (nullish (rq_paperBallotAdmissionKey request)) \<and> \<not> admitted then (s, Some Paper_unavailable)
         else
           let invited = redeemBearerInviteCodeForRequest (iu_electionId iu) (mo_now mo) redeemed request;
               claimed = claim_voter iu mo invited (rq_invitedNpub request)
           in (claimed, if credential_index_refused claimed request then Some Proxy_not_enabled else None))"

section \<open>Answering\<close>

definition await_authorization :: "blind_request \<Rightarrow> organiser \<Rightarrow> organiser" where
  "await_authorization request og =
     (let npub = rq_invitedNpub request;
          existing = (case obj_get (og_pendingAuthorizations og) npub of Some rs \<Rightarrow> rs | None \<Rightarrow> []);
          alreadySeen = list_ex (\<lambda>entry. rq_requestId entry = rq_requestId request) existing
      in og\<lparr>og_pendingAuthorizations := obj_set npub (if alreadySeen then existing else existing @ [request])
           (og_pendingAuthorizations og)\<rparr>)"

definition reissue ::
  "moment \<Rightarrow> blind_request \<Rightarrow> blind_issuance \<Rightarrow> coordinator_state \<times> organiser
     \<Rightarrow> (coordinator_state \<times> organiser) \<times> issue_outcome" where
  "reissue mo request existing st =
     (let (s, og) = st; enriched = enrichIssuanceWithDefinitionReference mo existing
      in ((s\<lparr>co_issuedBlindResponses := obj_set (is_requestId enriched) enriched (co_issuedBlindResponses s)\<rparr>,
           take_off_queue request (put_in_mailbox enriched og)), Reissued enriched))"

definition new_issuance :: "issuer \<Rightarrow> moment \<Rightarrow> blind_private_key \<Rightarrow> blind_request \<Rightarrow> string \<Rightarrow> blind_issuance" where
  "new_issuance iu mo key request signature = \<lparr>
     is_electionId = iu_electionId iu,
     is_requestId = rq_requestId request,
     is_issuanceId = mo_issuanceId mo,
     is_invitedNpub = rq_invitedNpub request,
     is_blindSigningKeyId = bpk_keyId key,
     is_blindSignature = signature,
     is_definitionHash = (if mo_definition mo = None then Null else Present (mo_definitionHash mo)),
     is_definitionEventId = Null,
     is_ballotScope = null_if_nullish (rq_ballotScope request),
     is_definition = Undefined,
     is_issuedAt = mo_now mo\<rparr>"

text \<open>The issuance is noted in the admission it was obtained with.\<close>

definition note_paper_issuance :: "blind_request \<Rightarrow> string \<Rightarrow> coordinator_state \<Rightarrow> coordinator_state" where
  "note_paper_issuance request issuanceId s =
     (case (if paper_key request = [] then None else obj_get (co_paperBallotAdmissions s) (paper_key request)) of
        None \<Rightarrow> s
      | Some entry \<Rightarrow> s\<lparr>co_paperBallotAdmissions := obj_set (paper_key request)
          (entry\<lparr>pa_redeemedIssuanceId := Some issuanceId\<rparr>) (co_paperBallotAdmissions s)\<rparr>)"

definition issue_new ::
  "issuer \<Rightarrow> moment \<Rightarrow> blind_private_key \<Rightarrow> blind_request \<Rightarrow> coordinator_state \<times> organiser
     \<Rightarrow> (coordinator_state \<times> organiser) \<times> issue_outcome" where
  "issue_new iu mo key request st = (case iu_sign iu key (rq_blindedMessage request) of
     None \<Rightarrow> (st, Threw)
   | Some signature \<Rightarrow>
       (let (s, og) = st;
            issuance = new_issuance iu mo key request signature;
            issued = reduceCoordinatorEvent (iu_host iu) s (BLIND_SIGNATURE_ISSUED issuance) (mo_now mo)
        in if \<not> rr_ok issued then (st, Unissued (rr_error issued))
           else ((note_paper_issuance request (is_issuanceId issuance) (rr_state issued),
                  take_off_queue request (put_in_mailbox issuance og)), Issued issuance)))"

definition answer_request ::
  "issuer \<Rightarrow> moment \<Rightarrow> blind_request \<Rightarrow> coordinator_state \<times> organiser
     \<Rightarrow> (coordinator_state \<times> organiser) \<times> issue_outcome" where
  "answer_request iu mo request st =
     (let (s, og) = st;
          received = reduceCoordinatorEvent (iu_host iu) s (BLIND_REQUEST_RECEIVED request) (mo_now mo);
          existing = (\<lambda>t. findIssuedBlindResponse (co_issuedBlindResponses t) request)
      in if \<not> rr_ok received then
           (case (if iu_key iu \<noteq> None \<and> rr_error received = Some CE_already_issued then existing s else None) of
              Some existingIssuance \<Rightarrow> reissue mo request existingIssuance st
            | None \<Rightarrow> ((s, if rr_error received = Some CE_not_whitelisted then await_authorization request og else og),
                       Held (rr_error received)))
         else case iu_key iu of
           None \<Rightarrow> ((rr_state received, og), Observed)
         | Some key \<Rightarrow>
             (case existing (rr_state received) of
                Some existingIssuance \<Rightarrow> reissue mo request existingIssuance (rr_state received, og)
              | None \<Rightarrow> issue_new iu mo key request (rr_state received, og)))"

section \<open>The loop\<close>

definition process_request ::
  "issuer \<Rightarrow> moment \<Rightarrow> blind_request \<Rightarrow> coordinator_state \<times> organiser
     \<Rightarrow> (coordinator_state \<times> organiser) \<times> issue_outcome" where
  "process_request iu mo request st =
     (let (s, og) = st in
      case request_rejection iu mo s request of
        Some rejection \<Rightarrow> ((s, take_off_queue request og), Rejected rejection)
      | None \<Rightarrow>
          (case admit_request iu mo s request of
             (admitted, Some rejection) \<Rightarrow> ((admitted, take_off_queue request og), Rejected rejection)
           | (admitted, None) \<Rightarrow> answer_request iu mo request (admitted, og)))"

fun process_requests ::
  "issuer \<Rightarrow> (blind_request \<Rightarrow> moment) \<Rightarrow> blind_request list \<Rightarrow> coordinator_state \<times> organiser
     \<Rightarrow> (coordinator_state \<times> organiser) \<times> issue_outcome list" where
  "process_requests iu moments [] st = (st, [])"
| "process_requests iu moments (request # queue) st =
     (let (after, outcome) = process_request iu (moments request) request st
      in if outcome = Threw then (after, [outcome])
         else let (final, outcomes) = process_requests iu moments queue after in (final, outcome # outcomes))"

definition refreshElectionSummaryFromLocalPublication ::
  "string \<Rightarrow> summary_patch option \<Rightarrow> coordinator_state \<Rightarrow> coordinator_state" where
  "refreshElectionSummaryFromLocalPublication now summary s =
     (let mergedElection = mergeElectionSummaryIntoCoordinatorElection (co_election s) summary
      in if mergedElection = co_election s then s
         else s\<lparr>co_election := mergedElection, co_lastUpdatedAt := now\<rparr>)"

text \<open>
  \<open>processPendingBlindRequestsInternal\<close>: \<open>summary\<close> is the locally published election summary,
  \<open>delegated\<close> whether a worker issues, \<open>generated\<close> the key pair that is generated when there is
  none.  When signing throws, the queue, the mailbox and the waiting requests keep what the loop did
  to them, and the state is the one before the loop.
\<close>

definition processPendingBlindRequests ::
  "host \<Rightarrow> (blind_private_key \<Rightarrow> string \<Rightarrow> string option) \<Rightarrow> summary_patch option \<Rightarrow> bool \<Rightarrow> blind_private_key
     \<Rightarrow> (blind_request \<Rightarrow> moment) \<Rightarrow> string \<Rightarrow> organiser \<Rightarrow> issue_outcome list organiser_result" where
  "processPendingBlindRequests h sign summary delegated generated moments now og = (case og_state og of
     None \<Rightarrow> Inl Not_logged_in
   | Some s \<Rightarrow>
       if og_coordinatorNpub og = [] then Inl Not_logged_in
       else
         let refreshed = refreshElectionSummaryFromLocalPublication now summary s;
             queue = listBlindRequests (og_electionId og) (og_queue og);
             (key, keyed) = (if delegated then (None, refreshed)
               else let (k, t) = ensureBlindSigningKey generated refreshed in (Some k, t));
             iu = \<lparr>iu_host = h, iu_electionId = og_electionId og, iu_key = key, iu_sign = sign\<rparr>;
             ((next, after), outcomes) = process_requests iu moments queue (keyed, og)
         in if queue = [] then Inr ([], og\<lparr>og_state := Some refreshed\<rparr>)
            else Inr (outcomes, after\<lparr>og_state := Some (if Threw \<in> set outcomes then keyed else next)\<rparr>))"

section \<open>Authorising a voter\<close>

text \<open>The waiting requests of a voter that match the group join the queue; the others are deferred.\<close>

definition waiting_requests :: "string \<Rightarrow> organiser \<Rightarrow> blind_request list" where
  "waiting_requests npub og = (case obj_get (og_pendingAuthorizations og) npub of Some rs \<Rightarrow> rs | None \<Rightarrow> [])"

definition compatible_requests :: "string \<Rightarrow> coordinator_state \<Rightarrow> organiser \<Rightarrow> blind_request list" where
  "compatible_requests npub s og = filter (\<lambda>request.
     group_matches (configuredBallotGroupForRequest (og_electionId og) s request) request) (waiting_requests npub og)"

definition release_requests :: "string \<Rightarrow> coordinator_state \<Rightarrow> organiser \<Rightarrow> organiser" where
  "release_requests npub s og = og\<lparr>
     og_queue := fold enqueueBlindRequest (compatible_requests npub s og) (og_queue og),
     og_pendingAuthorizations := filter (\<lambda>(k, _). k \<noteq> npub) (og_pendingAuthorizations og)\<rparr>"

text \<open>The result holds the number of deferred requests beside the outcomes.\<close>

definition authorizeRequester ::
  "host \<Rightarrow> (string \<Rightarrow> string option) \<Rightarrow> (blind_private_key \<Rightarrow> string \<Rightarrow> string option) \<Rightarrow> summary_patch option
     \<Rightarrow> bool \<Rightarrow> blind_private_key \<Rightarrow> (blind_request \<Rightarrow> moment) \<Rightarrow> string \<Rightarrow> string \<Rightarrow> jsnum option
     \<Rightarrow> string field \<Rightarrow> organiser \<Rightarrow> (nat \<times> issue_outcome list) organiser_result" where
  "authorizeRequester h encode sign summary delegated generated moments now invitedNpub credentialsOption
       groupOption og =
     (case toNpub encode invitedNpub of
        Inl e \<Rightarrow> Inl e
      | Inr normalised \<Rightarrow>
          let npub = (if normalised \<noteq> [] then normalised else invitedNpub)
          in case addWhitelistNpub h encode now npub credentialsOption groupOption og of
            Inl e \<Rightarrow> Inl e
          | Inr (_, listed) \<Rightarrow>
              (case og_state listed of
                 None \<Rightarrow> Inl Not_logged_in
               | Some s \<Rightarrow>
                   (case processPendingBlindRequests h sign summary delegated generated moments now
                           (release_requests npub s listed) of
                      Inl e \<Rightarrow> Inl e
                    | Inr (outcomes, final) \<Rightarrow>
                        Inr ((length (waiting_requests npub listed) - length (compatible_requests npub s listed),
                              outcomes), final))))"

end
