(* ===== verification/Issuance_Safety.thy ===== *)
theory Issuance_Safety
  imports Issuance Intake_Safety
begin

text \<open>
  What answering requests does to the coordinator's state.  Every piece of the loop keeps the
  coordinator's invariant and is \<open>preserving\<close>: the ballots are untouched, voters stay on the
  whitelist, and a credential that was issued stays as it is.  Code registers only gain redeemers up
  to the maximum of the code, a paper admission that a voter has redeemed stays with that voter.
\<close>

section \<open>Changes that keep ballots and credentials\<close>

definition same_ballots :: "coordinator_state \<Rightarrow> coordinator_state \<Rightarrow> bool" where
  "same_ballots s t \<longleftrightarrow> election_id t = election_id s
     \<and> co_receivedSubmissions t = co_receivedSubmissions s
     \<and> co_acceptedNullifiers t = co_acceptedNullifiers s
     \<and> co_acceptanceResults t = co_acceptanceResults s"

definition same_credential :: "blind_issuance \<Rightarrow> blind_issuance \<Rightarrow> bool" where
  "same_credential i j \<longleftrightarrow> is_requestId j = is_requestId i \<and> is_invitedNpub j = is_invitedNpub i
     \<and> is_issuanceId j = is_issuanceId i \<and> is_blindSigningKeyId j = is_blindSigningKeyId i
     \<and> is_blindSignature j = is_blindSignature i \<and> is_ballotScope j = is_ballotScope i"

definition issued_stays :: "blind_issuance obj \<Rightarrow> blind_issuance obj \<Rightarrow> bool" where
  "issued_stays is js \<longleftrightarrow> (\<forall>k i. obj_get is k = Some i \<longrightarrow>
     (\<exists>j. obj_get js k = Some j \<and> same_credential i j))"

definition preserving :: "coordinator_state \<Rightarrow> coordinator_state \<Rightarrow> bool" where
  "preserving s t \<longleftrightarrow> same_ballots s t \<and> claims_rise (co_whitelist s) (co_whitelist t)
     \<and> issued_stays (co_issuedBlindResponses s) (co_issuedBlindResponses t)"

lemma same_credential_refl [simp]: "same_credential i i"
  by (simp add: same_credential_def)

lemma same_credential_trans: "same_credential i j \<Longrightarrow> same_credential j k \<Longrightarrow> same_credential i k"
  by (simp add: same_credential_def)

lemma issued_stays_refl [simp]: "issued_stays m m"
  by (auto simp: issued_stays_def)

lemma preserving_refl [simp]: "preserving s s"
  by (simp add: preserving_def same_ballots_def)

lemma issued_stays_trans: "issued_stays a b \<Longrightarrow> issued_stays b c \<Longrightarrow> issued_stays a c"
  unfolding issued_stays_def by (blast intro: same_credential_trans)

lemma preserving_trans: "preserving s t \<Longrightarrow> preserving t u \<Longrightarrow> preserving s u"
  unfolding preserving_def same_ballots_def
  by (auto intro: claims_rise_trans issued_stays_trans)

text \<open>A step that is good: from a state with the invariant it preserves, and keeps the invariant.\<close>

definition good_step :: "coordinator_state \<Rightarrow> coordinator_state \<Rightarrow> bool" where
  "good_step s t \<longleftrightarrow> (coordinator_inv s \<longrightarrow> coordinator_inv t \<and> preserving s t)"

lemma good_step_refl [simp]: "good_step s s"
  by (simp add: good_step_def)

lemma good_step_trans: "good_step s t \<Longrightarrow> good_step t u \<Longrightarrow> good_step s u"
  unfolding good_step_def by (blast intro: preserving_trans)

text \<open>A change of the registers only, where the whitelist grows.\<close>

lemma good_registers:
  assumes "election_id t = election_id s" "claims_rise (co_whitelist s) (co_whitelist t)"
    and "co_pendingBlindRequests t = co_pendingBlindRequests s"
    and "co_issuedBlindResponses t = co_issuedBlindResponses s"
    and "co_receivedSubmissions t = co_receivedSubmissions s"
    and "co_acceptedNullifiers t = co_acceptedNullifiers s"
    and "co_acceptanceResults t = co_acceptanceResults s"
  shows "good_step s t"
proof -
  have wl: "whitelisted s x \<Longrightarrow> whitelisted t x" for x
    using assms(2) by (auto simp: whitelisted_def claims_rise_def split: option.splits)
  have "coordinator_inv t" if "coordinator_inv s"
    using that wl unfolding coordinator_inv_def pending_inv_def issued_inv_def received_inv_def assms by blast
  moreover have "preserving s t"
    using assms by (simp add: preserving_def same_ballots_def)
  ultimately show ?thesis by (simp add: good_step_def)
qed

lemma claims_rise_put:
  assumes "\<And>e0. obj_get (co_whitelist s) npub = Some e0 \<Longrightarrow> we_claimState e0 \<le> we_claimState e"
  shows "claims_rise (co_whitelist s) (co_whitelist (put_entry npub e s))"
proof (cases "obj_get (co_whitelist s) npub")
  case None
  then show ?thesis by (simp add: put_entry_def claims_rise_set(1))
next
  case (Some e0)
  then show ?thesis by (simp add: put_entry_def claims_rise_set(2) [OF Some assms [OF Some]])
qed

lemma put_entry_frame [simp]:
  "co_receivedSubmissions (put_entry npub e s) = co_receivedSubmissions s"
  "co_acceptedNullifiers (put_entry npub e s) = co_acceptedNullifiers s"
  "co_acceptanceResults (put_entry npub e s) = co_acceptanceResults s"
  "co_bearerInviteCodes (put_entry npub e s) = co_bearerInviteCodes s"
  "co_paperBallotAdmissions (put_entry npub e s) = co_paperBallotAdmissions s"
  "co_election (put_entry npub e s) = co_election s"
  by (simp_all add: put_entry_def)

lemma election_id_updates [simp]:
  "election_id (s\<lparr>co_bearerInviteCodes := b\<rparr>) = election_id s"
  "election_id (s\<lparr>co_paperBallotAdmissions := p\<rparr>) = election_id s"
  "election_id (s\<lparr>co_lastUpdatedAt := u\<rparr>) = election_id s"
  "election_id (s\<lparr>co_issuedBlindResponses := i\<rparr>) = election_id s"
  "election_id (s\<lparr>co_blindSigningPrivateKey := k\<rparr>) = election_id s"
  by (simp_all add: election_id_def)

section \<open>The reducer's events\<close>

fun quiet_event :: "coordinator_event \<Rightarrow> bool" where
  "quiet_event (BALLOT_SUBMISSION_RECEIVED su) = False"
| "quiet_event (BALLOT_ACCEPTED res) = False"
| "quiet_event (BALLOT_REJECTED res) = False"
| "quiet_event e = True"

lemma quiet_frame:
  assumes "quiet_event e"
  shows "same_ballots s (rr_state (reduceCoordinatorEvent h s e now))"
    and "co_bearerInviteCodes (rr_state (reduceCoordinatorEvent h s e now)) = co_bearerInviteCodes s"
  using assms
  by (cases e; auto simp: step_defs Let_def same_ballots_def accept_def refuse_def election_id_def
      cloneCoordinatorState_def put_entry_def split: option.splits if_splits)+

lemma issued_stays_le: "obj_get is \<subseteq>\<^sub>m obj_get js \<Longrightarrow> issued_stays is js"
  unfolding issued_stays_def map_le_def
  by (metis domI same_credential_refl)

lemma good_event:
  assumes "quiet_event e"
  shows "good_step s (rr_state (reduceCoordinatorEvent h s e now))"
  unfolding good_step_def
proof
  assume inv: "coordinator_inv s"
  let ?t = "rr_state (reduceCoordinatorEvent h s e now)"
  have "coordinator_inv ?t" "coordinator_advances s ?t"
    using coordinator.inv_step [OF inv, of h "(now, e)"] coordinator.step_advances [OF inv, of h "(now, e)"]
    by (simp_all only: coordinator_step_def fst_conv snd_conv)
  then show "coordinator_inv ?t \<and> preserving s ?t"
    using quiet_frame(1) [OF assms, of s h now] issued_stays_le
    by (simp add: preserving_def coordinator_advances_def del: reduceCoordinatorEvent.simps)
qed


section \<open>The pieces of the loop\<close>

lemma new_entry_claim [simp]: "we_claimState (new_entry electionId npub t) = Whitelisted"
  by (simp add: new_entry_def)

lemma claim_voter_good: "good_step s (claim_voter iu mo s npub)"
  using good_event [of "COORDINATOR_LOGIN_VERIFIED (iu_electionId iu) npub" s "iu_host iu" "mo_now mo"]
  by (simp add: claim_voter_def Let_def del: reduceCoordinatorEvent.simps)

lemma paper_good: "good_step s (fst (redeemPaperBallotAdmissionForRequest h electionId now s request))"
proof -
  have "claims_rise (co_whitelist s) (co_whitelist (put_entry npub e s))"
    if "e = (case obj_get (co_whitelist s) npub of Some x \<Rightarrow> x | None \<Rightarrow> new_entry electionId npub t)" for npub e t
    using that by (intro claims_rise_put) simp
  then show ?thesis
    by (auto simp: redeemPaperBallotAdmissionForRequest_def Let_def split: sum.split intro!: good_registers)
qed

lemma redeeming_claim:
  "we_claimState (redeeming_entry electionId npub code t c x) =
     (case x of Some e \<Rightarrow> we_claimState e | None \<Rightarrow> Whitelisted)"
  by (simp add: redeeming_entry_def Let_def split: option.split)

lemma bearer_good: "good_step s (redeemBearerInviteCodeForRequest electionId now s request)"
proof -
  have "claims_rise (co_whitelist s) (co_whitelist (put_entry npub
      (redeeming_entry electionId npub code t c (obj_get (co_whitelist s) npub)) s))" for npub code t c
    by (intro claims_rise_put) (simp add: redeeming_claim)
  then show ?thesis
    by (auto simp: redeemBearerInviteCodeForRequest_def Let_def split: option.split intro!: good_registers)
qed

lemma admit_good: "good_step s (fst (admit_request iu mo s request))"
proof -
  obtain r b where red: "redeemPaperBallotAdmissionForRequest (iu_host iu) (iu_electionId iu) (mo_now mo) s request
      = (r, b)" by fastforce
  have "good_step s r" using paper_good [of s "iu_host iu" "iu_electionId iu" "mo_now mo" request] red by simp
  then have "good_step s (claim_voter iu mo (redeemBearerInviteCodeForRequest (iu_electionId iu) (mo_now mo) r request)
      (rq_invitedNpub request))"
    by (rule good_step_trans [OF good_step_trans [OF _ bearer_good] claim_voter_good])
  then show ?thesis by (simp add: admit_request_def red Let_def)
qed

lemma note_paper_good: "good_step s (note_paper_issuance request iid s)"
  by (auto simp: note_paper_issuance_def split: option.split intro!: good_registers)

lemma findIssued_stored:
  assumes "coordinator_inv s" "findIssuedBlindResponse (co_issuedBlindResponses s) request = Some i"
  shows "obj_get (co_issuedBlindResponses s) (is_requestId i) = Some i"
proof -
  have wk: "well_keyed sanitiseBlindBallotIssuance is_requestId (co_issuedBlindResponses s)"
    using assms(1) by (simp add: coordinator_inv_def issued_inv_def)
  from assms(2) consider "obj_get (co_issuedBlindResponses s) (rq_requestId request) = Some i"
    | "i \<in> set (js_values (co_issuedBlindResponses s))"
    by (auto simp: findIssuedBlindResponse_def coalesce_def split: option.splits dest: find_SomeD)
  then show ?thesis
  proof cases
    case 1
    with well_keyed_get [OF wk 1] show ?thesis by simp
  next
    case 2
    with well_keyed_values [OF wk] show ?thesis by blast
  qed
qed

lemma enriched_credential: "same_credential i (enrichIssuanceWithDefinitionReference mo i)"
  by (simp add: enrichIssuanceWithDefinitionReference_def same_credential_def split: option.split)

lemma enriched_sanitised:
  "sanitiseBlindBallotIssuance i = i \<Longrightarrow>
     sanitiseBlindBallotIssuance (enrichIssuanceWithDefinitionReference mo i) = enrichIssuanceWithDefinitionReference mo i"
  by (cases i) (auto simp: enrichIssuanceWithDefinitionReference_def sanitiseBlindBallotIssuance_def
      split: option.split)

text \<open>Putting an issuance in the place of one with the same credential.\<close>

lemma restore_issued:
  assumes inv: "coordinator_inv s" and old: "obj_get (co_issuedBlindResponses s) k = Some i"
    and j: "same_credential i j" "is_electionId j = is_electionId i" "sanitiseBlindBallotIssuance j = j"
  shows "good_step s (s\<lparr>co_issuedBlindResponses := obj_set k j (co_issuedBlindResponses s)\<rparr>)" (is "good_step s ?t")
proof -
  have ii: "well_keyed sanitiseBlindBallotIssuance is_requestId (co_issuedBlindResponses s)"
    "issuances.one_per_scope (co_issuedBlindResponses s)"
    "\<And>l m. obj_get (co_issuedBlindResponses s) l = Some m \<Longrightarrow> is_electionId m = election_id s
        \<and> whitelisted s (is_invitedNpub m)
        \<and> (\<exists>r. obj_get (co_pendingBlindRequests s) (is_requestId m) = Some r
              \<and> rq_blindSigningKeyId r = is_blindSigningKeyId m)"
    using inv unfolding coordinator_inv_def issued_inv_def by blast+
  have k: "is_requestId j = k" using well_keyed_get [OF ii(1) old] j(1) by (simp add: same_credential_def)
  have "well_keyed sanitiseBlindBallotIssuance is_requestId (co_issuedBlindResponses ?t)"
    using ii(1) k j(3) by (simp add: well_keyed_set)
  moreover have "issuances.one_per_scope (co_issuedBlindResponses ?t)"
    using issuances.one_per_scope_replace [OF ii(2) old, of j] j(1) k
    by (simp add: same_credential_def issuance_scope_def sameBallotScope_def)
  moreover have fr: "election_id ?t = election_id s" "\<And>x. whitelisted ?t x = whitelisted s x"
    by (simp_all add: whitelisted_def)
  moreover have "is_electionId m = election_id s \<and> whitelisted s (is_invitedNpub m)
      \<and> (\<exists>r. obj_get (co_pendingBlindRequests s) (is_requestId m) = Some r
            \<and> rq_blindSigningKeyId r = is_blindSigningKeyId m)"
    if "obj_get (co_issuedBlindResponses ?t) l = Some m" for l m
  proof (cases "l = k")
    case True
    with that have "m = j" by simp
    with ii(3) [OF old] j show ?thesis by (simp add: same_credential_def)
  next
    case False
    with that ii(3) [of l m] show ?thesis by simp
  qed
  ultimately have "issued_inv ?t" unfolding issued_inv_def fr by simp
  then have "coordinator_inv ?t"
    using inv unfolding coordinator_inv_def pending_inv_def received_inv_def fr by simp
  moreover have "preserving s ?t"
    using old j(1) by (auto simp: preserving_def same_ballots_def issued_stays_def)
  ultimately show ?thesis by (simp add: good_step_def)
qed


lemma reissue_good:
  assumes "findIssuedBlindResponse (co_issuedBlindResponses s) request = Some i"
  shows "good_step s (fst (fst (reissue mo request i (s, og))))"
proof -
  let ?e = "enrichIssuanceWithDefinitionReference mo i"
  have "good_step s (s\<lparr>co_issuedBlindResponses := obj_set (is_requestId ?e) ?e (co_issuedBlindResponses s)\<rparr>)"
    if inv: "coordinator_inv s"
  proof -
    note old = findIssued_stored [OF inv assms]
    have "well_keyed sanitiseBlindBallotIssuance is_requestId (co_issuedBlindResponses s)"
      using inv by (simp add: coordinator_inv_def issued_inv_def)
    then have san: "sanitiseBlindBallotIssuance i = i" using well_keyed_get [OF _ old] by blast
    have same: "is_requestId ?e = is_requestId i" "is_electionId ?e = is_electionId i"
      by (simp_all add: enrichIssuanceWithDefinitionReference_def split: option.split)
    show ?thesis
      unfolding same(1)
      by (rule restore_issued [OF inv old enriched_credential same(2) enriched_sanitised [OF san]])
  qed
  then show ?thesis by (auto simp: reissue_def Let_def good_step_def)
qed

lemma issue_new_good: "good_step s (fst (fst (issue_new iu mo key request (s, og))))"
proof -
  have "good_step s (note_paper_issuance request iid (rr_state (reduceCoordinatorEvent h s (BLIND_SIGNATURE_ISSUED i) now)))"
    for h i now iid
    by (rule good_step_trans [OF good_event note_paper_good]) simp
  then show ?thesis by (simp add: issue_new_def Let_def del: reduceCoordinatorEvent.simps split: option.split)
qed

lemma answer_good: "good_step s (fst (fst (answer_request iu mo request (s, og))))"
proof -
  define received where
    "received = reduceCoordinatorEvent (iu_host iu) s (BLIND_REQUEST_RECEIVED request) (mo_now mo)"
  have rec: "good_step s (rr_state received)" unfolding received_def by (rule good_event) simp
  show ?thesis
  proof (cases "rr_ok received")
    case False
    then show ?thesis
      by (auto simp: answer_request_def received_def [symmetric] Let_def reissue_good
          simp del: reduceCoordinatorEvent.simps split: option.split)
  next
    case True
    have "good_step (rr_state received) (fst (fst (case findIssuedBlindResponse
          (co_issuedBlindResponses (rr_state received)) request of
        Some i \<Rightarrow> reissue mo request i (rr_state received, og)
      | None \<Rightarrow> issue_new iu mo key request (rr_state received, og))))" for key
      by (simp add: reissue_good issue_new_good split: option.split)
    with rec True show ?thesis
      by (auto simp: answer_request_def received_def [symmetric] Let_def
          simp del: reduceCoordinatorEvent.simps split: option.split intro: good_step_trans)
  qed
qed

lemma process_request_good: "good_step (fst st) (fst (fst (process_request iu mo request st)))"
proof -
  obtain s og where st: "st = (s, og)" by fastforce
  obtain a rej where ad: "admit_request iu mo s request = (a, rej)" by fastforce
  have "good_step s a" using admit_good [of s iu mo request] ad by simp
  moreover have "good_step s (fst (fst (answer_request iu mo request (a, og))))"
    using \<open>good_step s a\<close> answer_good by (rule good_step_trans)
  ultimately show ?thesis
    by (simp add: process_request_def st ad split: option.split)
qed

text \<open>
  A relation between states that every request keeps holds of the loop from its start to its end.
\<close>

locale kept_by_requests =
  fixes kept :: "coordinator_state \<Rightarrow> coordinator_state \<Rightarrow> bool"
  assumes kept_refl: "kept s s"
    and kept_trans: "kept s t \<Longrightarrow> kept t u \<Longrightarrow> kept s u"
    and kept_request: "kept (fst st) (fst (fst (process_request iu mo request st)))"
begin

lemma kept_loop: "kept (fst st) (fst (fst (process_requests iu moments queue st)))"
proof (induction queue arbitrary: st)
  case (Cons request queue)
  obtain after outcome where step: "process_request iu (moments request) request st = (after, outcome)" by fastforce
  obtain final outcomes where more: "process_requests iu moments queue after = (final, outcomes)" by fastforce
  have "kept (fst st) (fst after)"
    using kept_request [of st iu "moments request" request] step by simp
  moreover have "kept (fst after) (fst final)" using Cons.IH [of after] more by simp
  ultimately show ?case using step more by (auto intro: kept_trans)
qed (simp add: kept_refl)

end

interpretation good: kept_by_requests good_step
  by unfold_locales (simp, erule (1) good_step_trans, rule process_request_good)

section \<open>The code register\<close>

text \<open>
  How a code may change while requests are answered: it keeps its election, its maximum and its
  revocation, redeemers are only added, and no more than the maximum allows.
\<close>

definition code_step :: "bearer_invite \<Rightarrow> bearer_invite \<Rightarrow> bool" where
  "code_step e e' \<longleftrightarrow> bi_electionId e' = bi_electionId e
     \<and> max_redemptions (bi_maxRedemptions e') = max_redemptions (bi_maxRedemptions e)
     \<and> (bi_state e' = BearerRevoked \<longleftrightarrow> bi_state e = BearerRevoked)
     \<and> (bi_state e = BearerRevoked \<longrightarrow> e' = e)
     \<and> set (redeemers e) \<subseteq> set (redeemers e')
     \<and> int (length (redeemers e')) \<le> max (int (length (redeemers e))) (max_redemptions (bi_maxRedemptions e))"

definition codes_step :: "coordinator_state \<Rightarrow> coordinator_state \<Rightarrow> bool" where
  "codes_step s t \<longleftrightarrow> (\<forall>k. rel_option code_step (obj_get (co_bearerInviteCodes s) k) (obj_get (co_bearerInviteCodes t) k))"

lemma code_step_refl [simp]: "code_step e e"
  by (simp add: code_step_def)

lemma code_step_trans: "code_step a b \<Longrightarrow> code_step b c \<Longrightarrow> code_step a c"
  by (auto simp: code_step_def)

lemma codes_step_refl: "co_bearerInviteCodes t = co_bearerInviteCodes s \<Longrightarrow> codes_step s t"
  by (simp add: codes_step_def option.rel_refl)

lemma codes_step_trans: "codes_step s t \<Longrightarrow> codes_step t u \<Longrightarrow> codes_step s u"
  unfolding codes_step_def
proof
  fix k
  assume "\<forall>k. rel_option code_step (obj_get (co_bearerInviteCodes s) k) (obj_get (co_bearerInviteCodes t) k)"
    and "\<forall>k. rel_option code_step (obj_get (co_bearerInviteCodes t) k) (obj_get (co_bearerInviteCodes u) k)"
  then have "rel_option code_step (obj_get (co_bearerInviteCodes s) k) (obj_get (co_bearerInviteCodes t) k)"
    "rel_option code_step (obj_get (co_bearerInviteCodes t) k) (obj_get (co_bearerInviteCodes u) k)" by blast+
  then show "rel_option code_step (obj_get (co_bearerInviteCodes s) k) (obj_get (co_bearerInviteCodes u) k)"
    by (cases "obj_get (co_bearerInviteCodes s) k"; cases "obj_get (co_bearerInviteCodes t) k";
        cases "obj_get (co_bearerInviteCodes u) k") (auto intro: code_step_trans)
qed

lemma max_redemptions_again [simp]: "max_redemptions (Some (num_int (max_redemptions n))) = max_redemptions n"
  by (simp add: max_redemptions_def normaliseQuestionnairePrivateInviteMaxRedemptions_def Let_def num_int_def
      split: option.split)

lemma redeemers_clean: "npub \<in> set (redeemers e) \<Longrightarrow> npub \<noteq> [] \<and> js_trim npub = npub"
  by (auto simp: redeemers_def)

lemma trim_redeemers: "js_trim ` set (redeemers e) = set (redeemers e)"
  using redeemers_clean by force

lemma set_redeemers:
  "set (redeemers e) = js_trim ` (set (case bi_redeemedNpubs e of Some npubs \<Rightarrow> npubs | None \<Rightarrow> [])
     \<union> set (case bi_redeemedNpub e of Some npub \<Rightarrow> if npub \<noteq> [] then [npub] else [] | None \<Rightarrow> [])) - {[]}"
  unfolding redeemers_def set_js_set set_filter set_map set_append by blast

lemma set_redeemers_redeemed:
  "set (redeemers (redeemed_code npub t e)) = set (redeemers e) \<union> ({js_trim npub} - {[]})"
proof -
  define more where "more = (if max_redemptions (bi_maxRedemptions e) = 1 \<and> npub \<noteq> [] then {npub} else {})"
  have "set (redeemers (redeemed_code npub t e)) = js_trim ` (insert npub (set (redeemers e)) \<union> more) - {[]}"
    unfolding set_redeemers [of "redeemed_code npub t e"]
    by (auto simp: redeemed_code_def Let_def more_def insert_absorb)
  also have "\<dots> = js_trim ` (insert npub (set (redeemers e))) - {[]}"
    by (simp add: more_def)
  also have "\<dots> = set (redeemers e) \<union> ({js_trim npub} - {[]})"
    using redeemers_clean [of _ e] by (auto simp: trim_redeemers)
  finally show ?thesis .
qed

lemma length_redeemers: "length (redeemers e) = card (set (redeemers e))"
  by (rule distinct_card [symmetric]) (simp only: redeemers_def distinct_js_set)

lemma redeemed_code_step:
  assumes "bi_state e \<noteq> BearerRevoked" "\<not> code_full_for npub e"
  shows "code_step e (redeemed_code npub t e)"
proof -
  let ?e = "redeemed_code npub t e"
  have grow: "set (redeemers e) \<subseteq> set (redeemers ?e)" by (simp add: set_redeemers_redeemed)
  have "card (set (redeemers ?e)) \<le> Suc (card (set (redeemers e)))"
    unfolding set_redeemers_redeemed by (rule order_trans [OF card_Un_le]) (auto simp: card_Diff_singleton_if)
  moreover have "card (set (redeemers ?e)) = card (set (redeemers e))" if "npub \<in> set (redeemers e)"
    using that redeemers_clean [OF that] by (simp add: set_redeemers_redeemed insert_Diff_if insert_absorb)
  ultimately have "int (length (redeemers ?e)) \<le> max (int (length (redeemers e))) (max_redemptions (bi_maxRedemptions e))"
    using assms(2) by (cases "npub \<in> set (redeemers e)") (auto simp: length_redeemers code_full_for_def)
  with grow assms(1) show ?thesis
    by (auto simp: code_step_def redeemed_code_def Let_def)
qed

lemma bearer_codes: "codes_step s (redeemBearerInviteCodeForRequest electionId now s request)"
proof (cases "redeemBearerInviteCodeForRequest electionId now s request = s")
  case False
  then obtain e where e: "obj_get (co_bearerInviteCodes s) (request_code request) = Some e"
    "bi_state e \<noteq> BearerRevoked" "\<not> code_full_for (rq_invitedNpub request) e"
    by (auto simp: redeemBearerInviteCodeForRequest_def Let_def split: option.splits if_splits)
  then obtain t where "co_bearerInviteCodes (redeemBearerInviteCodeForRequest electionId now s request)
      = obj_set (request_code request) (redeemed_code (rq_invitedNpub request) t e) (co_bearerInviteCodes s)"
    using False by (auto simp: redeemBearerInviteCodeForRequest_def Let_def split: option.splits if_splits)
  then show ?thesis
    using e redeemed_code_step [OF e(2,3)] by (simp add: codes_step_def option.rel_refl)
qed (simp add: codes_step_refl)


lemma bearer_frame [simp]:
  "co_paperBallotAdmissions (redeemBearerInviteCodeForRequest electionId now s request) = co_paperBallotAdmissions s"
  "co_election (redeemBearerInviteCodeForRequest electionId now s request) = co_election s"
  by (simp_all add: redeemBearerInviteCodeForRequest_def Let_def split: option.split)

lemma paper_frame [simp]:
  "co_bearerInviteCodes (fst (redeemPaperBallotAdmissionForRequest h electionId now s request)) = co_bearerInviteCodes s"
  "co_election (fst (redeemPaperBallotAdmissionForRequest h electionId now s request)) = co_election s"
  by (auto simp: redeemPaperBallotAdmissionForRequest_def Let_def split: sum.split)

lemma claim_frame [simp]:
  "co_bearerInviteCodes (claim_voter iu mo s npub) = co_bearerInviteCodes s"
  by (simp add: claim_voter_def Let_def quiet_frame del: reduceCoordinatorEvent.simps)

lemma note_frame [simp]:
  "co_bearerInviteCodes (note_paper_issuance request iid s) = co_bearerInviteCodes s"
  "co_whitelist (note_paper_issuance request iid s) = co_whitelist s"
  "co_election (note_paper_issuance request iid s) = co_election s"
  by (simp_all add: note_paper_issuance_def split: option.split)

lemma reissue_frame [simp]:
  "co_bearerInviteCodes (fst (fst (reissue mo request i (s, og)))) = co_bearerInviteCodes s"
  "co_whitelist (fst (fst (reissue mo request i (s, og)))) = co_whitelist s"
  "co_paperBallotAdmissions (fst (fst (reissue mo request i (s, og)))) = co_paperBallotAdmissions s"
  by (simp_all add: reissue_def Let_def)

lemma issue_new_codes [simp]:
  "co_bearerInviteCodes (fst (fst (issue_new iu mo key request (s, og)))) = co_bearerInviteCodes s"
  by (simp add: issue_new_def Let_def quiet_frame del: reduceCoordinatorEvent.simps split: option.split)

lemma answer_codes [simp]:
  "co_bearerInviteCodes (fst (fst (answer_request iu mo request (s, og)))) = co_bearerInviteCodes s"
  by (simp add: answer_request_def Let_def quiet_frame del: reduceCoordinatorEvent.simps split: option.split)

lemma admit_codes: "codes_step s (fst (admit_request iu mo s request))"
proof -
  obtain r b where red: "redeemPaperBallotAdmissionForRequest (iu_host iu) (iu_electionId iu) (mo_now mo) s request
      = (r, b)" by fastforce
  then have "codes_step s r"
    using paper_frame(1) [of "iu_host iu" "iu_electionId iu" "mo_now mo" s request] by (simp add: codes_step_refl)
  then have "codes_step s (claim_voter iu mo (redeemBearerInviteCodeForRequest (iu_electionId iu) (mo_now mo) r request)
      (rq_invitedNpub request))"
    by (rule codes_step_trans [OF codes_step_trans [OF _ bearer_codes] codes_step_refl]) simp
  then show ?thesis by (simp add: admit_request_def red Let_def codes_step_refl)
qed

lemma process_request_codes: "codes_step (fst st) (fst (fst (process_request iu mo request st)))"
proof -
  obtain s og where st: "st = (s, og)" by fastforce
  obtain a rej where ad: "admit_request iu mo s request = (a, rej)" by fastforce
  have "codes_step s a" using admit_codes [of s iu mo request] ad by simp
  moreover have "codes_step s (fst (fst (answer_request iu mo request (a, og))))"
    using \<open>codes_step s a\<close> by (rule codes_step_trans) (simp add: codes_step_refl)
  ultimately show ?thesis
    by (simp add: process_request_def st ad codes_step_refl split: option.split)
qed

interpretation codes: kept_by_requests codes_step
  by unfold_locales (simp add: codes_step_refl, erule (1) codes_step_trans, rule process_request_codes)

section \<open>The paper register\<close>

text \<open>
  How an admission may change: it keeps its election and its revocation, a redemption is final, and
  so is the voter it names.
\<close>

definition paper_step :: "admission_entry \<Rightarrow> admission_entry \<Rightarrow> bool" where
  "paper_step e e' \<longleftrightarrow> pa_electionId e' = pa_electionId e
     \<and> (pa_state e' = Revoked \<longleftrightarrow> pa_state e = Revoked)
     \<and> (pa_state e = Redeemed \<longrightarrow> pa_state e' = Redeemed)
     \<and> (pa_state e = Redeemed \<and> truthy (pa_redeemedNpub e) \<longrightarrow> pa_redeemedNpub e' = pa_redeemedNpub e)"

definition papers_keyed :: "coordinator_state \<Rightarrow> bool" where
  "papers_keyed s \<longleftrightarrow> distinct (map fst (co_paperBallotAdmissions s))"

definition papers_step :: "coordinator_state \<Rightarrow> coordinator_state \<Rightarrow> bool" where
  "papers_step s t \<longleftrightarrow> (papers_keyed s \<longrightarrow> papers_keyed t
     \<and> (\<forall>k e'. obj_get (co_paperBallotAdmissions t) k = Some e' \<longrightarrow>
          (\<exists>e. obj_get (co_paperBallotAdmissions s) k = Some e \<and> paper_step e e')))"

lemma paper_step_refl [simp]: "paper_step e e"
  by (simp add: paper_step_def)

lemma paper_step_trans: "paper_step a b \<Longrightarrow> paper_step b c \<Longrightarrow> paper_step a c"
  by (auto simp: paper_step_def)

lemma papers_step_refl: "co_paperBallotAdmissions t = co_paperBallotAdmissions s \<Longrightarrow> papers_step s t"
  by (auto simp: papers_step_def papers_keyed_def intro: paper_step_refl)

lemma papers_step_trans: "papers_step s t \<Longrightarrow> papers_step t u \<Longrightarrow> papers_step s u"
  unfolding papers_step_def by (blast intro: paper_step_trans)

lemma papers_step_clone:
  assumes "co_paperBallotAdmissions t = sanitisePaperBallotAdmissions h (Some (co_paperBallotAdmissions s))"
  shows "papers_step s t"
proof -
  have "paper_step e (admission_fields e)" for e
    by (auto simp: paper_step_def admission_fields_def)
  then show ?thesis
    using assms by (auto simp: papers_step_def papers_keyed_def sanitisePaperBallotAdmissions_get
        split: option.splits if_splits)
qed

lemma papers_step_set:
  assumes "obj_get (co_paperBallotAdmissions s) k = Some e" "paper_step e e'"
    and "co_paperBallotAdmissions t = obj_set k e' (co_paperBallotAdmissions s)"
  shows "papers_step s t"
  using assms by (auto simp: papers_step_def papers_keyed_def distinct_update intro: paper_step_refl)

lemma event_papers: "papers_step s (rr_state (reduceCoordinatorEvent h s e now))"
proof -
  let ?t = "rr_state (reduceCoordinatorEvent h s e now)"
  have "co_paperBallotAdmissions ?t = co_paperBallotAdmissions s
      \<or> co_paperBallotAdmissions ?t = sanitisePaperBallotAdmissions h (Some (co_paperBallotAdmissions s))"
    by (cases e; simp add: step_defs Let_def cloneCoordinatorState_def put_entry_def
        split: option.splits if_splits)
  then show ?thesis using papers_step_refl papers_step_clone by blast
qed

lemma recovered_step: "recovered_admission electionId s (Some e) = Some r \<Longrightarrow>
    paper_step e r \<and> pa_state r = pa_state e"
  by (auto simp: recovered_admission_def paper_step_def Let_def split: if_splits option.splits)

lemma recovered_Some: "\<exists>r. recovered_admission electionId s (Some e) = Some r"
  by (simp add: recovered_admission_def Let_def split: option.split)

text \<open>What a redemption needs, and what it leaves.\<close>

lemma redeemed_admission:
  assumes "redeemPaperBallotAdmission h (recovered_admission el s (Some e)) el k rid npub now = Inr (b, e')"
  shows "paper_step e e' \<and> pa_state e' = Redeemed \<and> pa_redeemedNpub e' = Some npub
     \<and> pa_state e \<noteq> Revoked \<and> pa_electionId e = el"
proof -
  obtain r where r: "recovered_admission el s (Some e) = Some r"
    using recovered_Some [of el s e] by blast
  note step = recovered_step [OF r]
  from assms consider "pa_state r = Redeemed" "pa_redeemedNpub r = Some npub" "pa_electionId r = el" "e' = r"
    | "pa_state r = Available" "pa_electionId r = el" "pa_state e' = Redeemed"
      "pa_redeemedNpub e' = Some npub" "pa_electionId e' = pa_electionId r"
    by (auto simp: r redeemPaperBallotAdmission_def validatePaperBallotAdmission_def
        split: if_splits sum.splits)
  then show ?thesis using step by cases (auto simp: paper_step_def)
qed

lemma redeemed_other:
  assumes "redeemPaperBallotAdmission h (recovered_admission el s (Some e)) el k rid npub now = Inr (b, e')"
    and "pa_state e = Redeemed" "pa_redeemedNpub e = Some x" "x \<noteq> []"
  shows "npub = x"
  using redeemed_admission [OF assms(1)] assms(2-4) by (auto simp: paper_step_def truthy_def)


lemma paper_redemption_cases:
  obtains (refused) "redeemPaperBallotAdmissionForRequest h el now s request = (s, False)"
  | (admitted) t e b e' where "redeemPaperBallotAdmissionForRequest h el now s request = (t, True)"
      "paper_key request \<noteq> []" "obj_get (co_paperBallotAdmissions s) (paper_key request) = Some e"
      "redeemPaperBallotAdmission h (recovered_admission el s (Some e)) el (paper_key request)
         (rq_requestId request) (rq_invitedNpub request) now = Inr (b, e')"
      "co_paperBallotAdmissions t = obj_set (paper_key request) e' (co_paperBallotAdmissions s)"
      "\<And>x. whitelisted t x \<longleftrightarrow> x = rq_invitedNpub request \<or> whitelisted s x"
proof (cases "snd (redeemPaperBallotAdmissionForRequest h el now s request)")
  case False
  then have "redeemPaperBallotAdmissionForRequest h el now s request = (s, False)"
    by (auto simp: redeemPaperBallotAdmissionForRequest_def Let_def split: sum.splits if_splits)
  then show ?thesis by (rule refused)
next
  case True
  obtain r b e' where r: "paper_key request \<noteq> []"
    "recovered_admission el s (obj_get (co_paperBallotAdmissions s) (paper_key request)) = r"
    "redeemPaperBallotAdmission h r el (paper_key request) (rq_requestId request) (rq_invitedNpub request) now
       = Inr (b, e')"
    using True by (auto simp: redeemPaperBallotAdmissionForRequest_def Let_def split: sum.splits if_splits)
  obtain e where e: "obj_get (co_paperBallotAdmissions s) (paper_key request) = Some e"
    using r by (cases "obj_get (co_paperBallotAdmissions s) (paper_key request)")
      (auto simp: recovered_admission_def redeemPaperBallotAdmission_def)
  define t where "t = fst (redeemPaperBallotAdmissionForRequest h el now s request)"
  have "whitelisted t x \<longleftrightarrow> x = rq_invitedNpub request \<or> whitelisted s x" for x
    using r e by (auto simp: t_def redeemPaperBallotAdmissionForRequest_def Let_def whitelisted_def put_entry_def)
  moreover have "co_paperBallotAdmissions t = obj_set (paper_key request) e' (co_paperBallotAdmissions s)"
    using r e by (simp add: t_def redeemPaperBallotAdmissionForRequest_def Let_def)
  moreover have "redeemPaperBallotAdmissionForRequest h el now s request = (t, True)"
    using True by (simp add: t_def prod_eq_iff)
  ultimately show ?thesis using r e by (intro admitted [of t e b e']) simp_all
qed

lemma paper_papers: "papers_step s (fst (redeemPaperBallotAdmissionForRequest h el now s request))"
proof (rule paper_redemption_cases [of h el now s request])
  assume "redeemPaperBallotAdmissionForRequest h el now s request = (s, False)"
  then show ?thesis by (simp add: papers_step_refl)
next
  fix t e b e'
  assume t: "redeemPaperBallotAdmissionForRequest h el now s request = (t, True)"
    and e: "obj_get (co_paperBallotAdmissions s) (paper_key request) = Some e"
    and red: "redeemPaperBallotAdmission h (recovered_admission el s (Some e)) el (paper_key request)
      (rq_requestId request) (rq_invitedNpub request) now = Inr (b, e')"
    and set: "co_paperBallotAdmissions t = obj_set (paper_key request) e' (co_paperBallotAdmissions s)"
  have "papers_step s t"
    using redeemed_admission [OF red] by (intro papers_step_set [OF e _ set]) blast
  with t show ?thesis by simp
qed

lemma claim_papers: "papers_step s (claim_voter iu mo s npub)"
  using event_papers by (simp add: claim_voter_def Let_def papers_step_refl del: reduceCoordinatorEvent.simps)

lemma note_papers: "papers_step s (note_paper_issuance request iid s)"
proof (cases "note_paper_issuance request iid s = s")
  case False
  then obtain e where e: "obj_get (co_paperBallotAdmissions s) (paper_key request) = Some e"
    by (auto simp: note_paper_issuance_def split: option.splits if_splits)
  with False show ?thesis
    by (intro papers_step_set [OF e, of "e\<lparr>pa_redeemedIssuanceId := Some iid\<rparr>"])
       (auto simp: note_paper_issuance_def paper_step_def split: if_splits)
qed (simp add: papers_step_refl)

lemma issue_new_papers: "papers_step s (fst (fst (issue_new iu mo key request (s, og))))"
proof -
  have "papers_step s (note_paper_issuance request iid (rr_state (reduceCoordinatorEvent h s e now)))" for h e now iid
    by (rule papers_step_trans [OF event_papers note_papers])
  then show ?thesis
    by (simp add: issue_new_def Let_def papers_step_refl del: reduceCoordinatorEvent.simps split: option.split)
qed

lemma answer_papers: "papers_step s (fst (fst (answer_request iu mo request (s, og))))"
proof -
  define received where
    "received = reduceCoordinatorEvent (iu_host iu) s (BLIND_REQUEST_RECEIVED request) (mo_now mo)"
  have rec: "papers_step s (rr_state received)" unfolding received_def by (rule event_papers)
  have "papers_step s (fst (fst (issue_new iu mo key request (rr_state received, og))))" for key
    by (rule papers_step_trans [OF rec issue_new_papers])
  moreover have "papers_step s (fst (fst (reissue mo request i (rr_state received, og))))" for i
    by (rule papers_step_trans [OF rec papers_step_refl]) simp
  ultimately show ?thesis
    using rec by (auto simp: answer_request_def received_def [symmetric] Let_def papers_step_refl
        simp del: reduceCoordinatorEvent.simps split: option.split)
qed

lemma admit_papers: "papers_step s (fst (admit_request iu mo s request))"
proof -
  obtain r b where red: "redeemPaperBallotAdmissionForRequest (iu_host iu) (iu_electionId iu) (mo_now mo) s request
      = (r, b)" by fastforce
  then have "papers_step s r"
    using paper_papers [of s "iu_host iu" "iu_electionId iu" "mo_now mo" request] by simp
  then have "papers_step s (redeemBearerInviteCodeForRequest (iu_electionId iu) (mo_now mo) r request)"
    by (rule papers_step_trans [OF _ papers_step_refl]) simp
  then have "papers_step s (claim_voter iu mo (redeemBearerInviteCodeForRequest (iu_electionId iu) (mo_now mo) r request)
      (rq_invitedNpub request))"
    by (rule papers_step_trans [OF _ claim_papers])
  then show ?thesis by (simp add: admit_request_def red Let_def papers_step_refl)
qed

lemma process_request_papers: "papers_step (fst st) (fst (fst (process_request iu mo request st)))"
proof -
  obtain s og where st: "st = (s, og)" by fastforce
  obtain a rej where ad: "admit_request iu mo s request = (a, rej)" by fastforce
  have a: "papers_step s a" using admit_papers [of s iu mo request] ad by simp
  have "papers_step s (fst (fst (answer_request iu mo request (a, og))))"
    by (rule papers_step_trans [OF a answer_papers])
  with a show ?thesis
    by (simp add: process_request_def st ad papers_step_refl split: option.split)
qed

interpretation papers: kept_by_requests papers_step
  by unfold_locales (simp add: papers_step_refl, erule (1) papers_step_trans, rule process_request_papers)

end
