(* ===== verification/Admission_Safety.thy ===== *)
theory Admission_Safety
  imports Issuance_Safety
begin

text \<open>
  Who gets on the whitelist by asking for a credential.  A voter that the loop admits is among the
  redeemers of a code that is not revoked, or has redeemed a paper admission that no other voter
  holds.
\<close>

section \<open>Steps that admit nobody\<close>

lemma event_whitelisted:
  "whitelisted (rr_state (reduceCoordinatorEvent h s (COORDINATOR_LOGIN_VERIFIED el npub) now)) x = whitelisted s x"
  "whitelisted (rr_state (reduceCoordinatorEvent h s (BLIND_REQUEST_RECEIVED request) now)) x = whitelisted s x"
  "whitelisted (rr_state (reduceCoordinatorEvent h s (BLIND_SIGNATURE_ISSUED i) now)) x = whitelisted s x"
  by (auto simp: step_defs Let_def whitelisted_def put_entry_def split: option.splits)

lemma claim_whitelisted [simp]: "whitelisted (claim_voter iu mo s npub) x = whitelisted s x"
  by (simp add: claim_voter_def Let_def event_whitelisted del: reduceCoordinatorEvent.simps)

lemma answer_whitelisted [simp]:
  "whitelisted (fst (fst (answer_request iu mo request (s, og)))) x = whitelisted s x"
proof -
  have "whitelisted (note_paper_issuance request iid t) x = whitelisted t x" for iid t
    by (simp add: whitelisted_def)
  then have "whitelisted (fst (fst (issue_new iu mo key request (t, og)))) x = whitelisted t x" for key t
    by (simp add: issue_new_def Let_def event_whitelisted del: reduceCoordinatorEvent.simps split: option.split)
  moreover have "whitelisted (fst (fst (reissue mo request i (t, og)))) x = whitelisted t x" for i t
    by (simp add: whitelisted_def)
  ultimately show ?thesis
    by (simp add: answer_request_def Let_def event_whitelisted del: reduceCoordinatorEvent.simps split: option.split)
qed

section \<open>A voter who is admitted\<close>

definition code_voter :: "coordinator_state \<Rightarrow> string \<Rightarrow> bool" where
  "code_voter s npub \<longleftrightarrow> (\<exists>k e. obj_get (co_bearerInviteCodes s) k = Some e \<and> bi_state e \<noteq> BearerRevoked
     \<and> npub \<in> set (redeemers e))"

text \<open>The admission under the key of the request belongs to the voter of the request, if it is there.\<close>

definition holds_admission :: "coordinator_state \<Rightarrow> string \<Rightarrow> string \<Rightarrow> bool" where
  "holds_admission t key npub \<longleftrightarrow> (\<forall>e. obj_get (co_paperBallotAdmissions t) key = Some e \<longrightarrow>
     pa_state e = Redeemed \<and> pa_redeemedNpub e = Some npub)"

definition open_admission :: "string \<Rightarrow> coordinator_state \<Rightarrow> string \<Rightarrow> bool" where
  "open_admission electionId s key \<longleftrightarrow> (\<exists>e. obj_get (co_paperBallotAdmissions s) key = Some e
     \<and> pa_electionId e = electionId \<and> pa_state e \<noteq> Revoked)"

definition takes_admission :: "string \<Rightarrow> coordinator_state \<Rightarrow> coordinator_state \<Rightarrow> blind_request \<Rightarrow> bool" where
  "takes_admission electionId s t request \<longleftrightarrow> open_admission electionId s (paper_key request)
     \<and> holds_admission t (paper_key request) (rq_invitedNpub request)
     \<and> (\<forall>e x. obj_get (co_paperBallotAdmissions s) (paper_key request) = Some e \<and> pa_state e = Redeemed
          \<and> pa_redeemedNpub e = Some x \<and> x \<noteq> [] \<longrightarrow> x = rq_invitedNpub request)"

lemma code_voter_mono: "codes_step s t \<Longrightarrow> code_voter s npub \<Longrightarrow> code_voter t npub"
proof -
  assume step: "codes_step s t" and "code_voter s npub"
  then obtain k e where e: "obj_get (co_bearerInviteCodes s) k = Some e" "bi_state e \<noteq> BearerRevoked"
    "npub \<in> set (redeemers e)" by (auto simp: code_voter_def)
  from step have "rel_option code_step (obj_get (co_bearerInviteCodes s) k) (obj_get (co_bearerInviteCodes t) k)"
    unfolding codes_step_def by blast
  then obtain e' where "obj_get (co_bearerInviteCodes t) k = Some e'" "code_step e e'"
    using e(1) by (cases "obj_get (co_bearerInviteCodes t) k") auto
  with e show ?thesis unfolding code_voter_def code_step_def by blast
qed

lemma holds_admission_mono:
  "papers_keyed s \<Longrightarrow> papers_step s t \<Longrightarrow> holds_admission s key npub \<Longrightarrow> npub \<noteq> [] \<Longrightarrow> holds_admission t key npub"
proof -
  assume A: "papers_keyed s" "papers_step s t" "holds_admission s key npub" "npub \<noteq> []"
  have "pa_state e' = Redeemed \<and> pa_redeemedNpub e' = Some npub"
    if "obj_get (co_paperBallotAdmissions t) key = Some e'" for e'
  proof -
    from A that obtain e where e: "obj_get (co_paperBallotAdmissions s) key = Some e" "paper_step e e'"
      unfolding papers_step_def by blast
    with A(3) have "pa_state e = Redeemed" "pa_redeemedNpub e = Some npub" by (auto simp: holds_admission_def)
    with e(2) A(4) show ?thesis by (simp add: paper_step_def truthy_def)
  qed
  then show ?thesis by (simp add: holds_admission_def)
qed

lemma bearer_admits:
  assumes "whitelisted (redeemBearerInviteCodeForRequest el now s request) x" "\<not> whitelisted s x"
    and named: "js_trim (rq_invitedNpub request) = rq_invitedNpub request" "rq_invitedNpub request \<noteq> []"
  shows "x = rq_invitedNpub request \<and> code_voter (redeemBearerInviteCodeForRequest el now s request) x"
proof -
  let ?t = "redeemBearerInviteCodeForRequest el now s request"
  from assms(1,2) obtain e t where e: "obj_get (co_bearerInviteCodes s) (request_code request) = Some e"
    and wl: "x = rq_invitedNpub request"
    and cs: "co_bearerInviteCodes ?t
      = obj_set (request_code request) (redeemed_code (rq_invitedNpub request) t e) (co_bearerInviteCodes s)"
    by (auto simp: redeemBearerInviteCodeForRequest_def Let_def whitelisted_def put_entry_def
        split: option.splits if_splits)
  have "rq_invitedNpub request \<in> set (redeemers (redeemed_code (rq_invitedNpub request) t e))"
    using named by (simp add: set_redeemers_redeemed)
  moreover have "bi_state (redeemed_code (rq_invitedNpub request) t e) \<noteq> BearerRevoked"
    by (simp add: redeemed_code_def Let_def)
  ultimately show ?thesis using wl cs unfolding code_voter_def by (metis obj_get_set)
qed

lemma paper_admits:
  assumes "redeemPaperBallotAdmissionForRequest h el now s request = (t, b)"
    and "whitelisted t x" "\<not> whitelisted s x"
  shows "x = rq_invitedNpub request \<and> takes_admission el s t request"
proof (rule paper_redemption_cases [of h el now s request])
  assume "redeemPaperBallotAdmissionForRequest h el now s request = (s, False)"
  with assms show ?thesis by simp
next
  fix u e b' e'
  assume u: "redeemPaperBallotAdmissionForRequest h el now s request = (u, True)"
    and e: "obj_get (co_paperBallotAdmissions s) (paper_key request) = Some e"
    and red: "redeemPaperBallotAdmission h (recovered_admission el s (Some e)) el (paper_key request)
      (rq_requestId request) (rq_invitedNpub request) now = Inr (b', e')"
    and set: "co_paperBallotAdmissions u = obj_set (paper_key request) e' (co_paperBallotAdmissions s)"
    and wl: "\<And>x. whitelisted u x \<longleftrightarrow> x = rq_invitedNpub request \<or> whitelisted s x"
  from u assms(1) have "t = u" by simp
  with assms wl have x: "x = rq_invitedNpub request" by simp
  have "takes_admission el s u request"
    unfolding takes_admission_def open_admission_def holds_admission_def
    using e set redeemed_admission [OF red] redeemed_other [OF red] by auto
  with x \<open>t = u\<close> show ?thesis by simp
qed

lemma admit_admits:
  assumes named: "js_trim (rq_invitedNpub request) = rq_invitedNpub request" "rq_invitedNpub request \<noteq> []"
    and keyed: "papers_keyed s"
    and new: "whitelisted (fst (admit_request iu mo s request)) x" "\<not> whitelisted s x"
  defines "t \<equiv> fst (admit_request iu mo s request)"
  shows "x = rq_invitedNpub request
     \<and> (code_voter t x \<or> takes_admission (iu_electionId iu) s t request)"
proof -
  obtain r b where red: "redeemPaperBallotAdmissionForRequest (iu_host iu) (iu_electionId iu) (mo_now mo) s request
      = (r, b)" by fastforce
  let ?i = "redeemBearerInviteCodeForRequest (iu_electionId iu) (mo_now mo) r request"
  have t: "t = claim_voter iu mo ?i (rq_invitedNpub request)"
    using new by (auto simp: t_def admit_request_def red Let_def split: if_splits)
  have step: "papers_step s r" using paper_papers [of s "iu_host iu" "iu_electionId iu" "mo_now mo" request] red by simp
  with keyed have rk: "papers_keyed r" by (simp add: papers_step_def)
  have i: "whitelisted ?i x" using new t by (simp add: t_def [symmetric])
  show ?thesis
  proof (cases "whitelisted r x")
    case True
    note P = paper_admits [OF red True new(2)]
    have "papers_step r t"
      unfolding t by (rule papers_step_trans [OF papers_step_refl claim_papers]) simp
    then have "holds_admission t (paper_key request) (rq_invitedNpub request)"
      using holds_admission_mono [OF rk] P named(2) by (simp add: takes_admission_def)
    with P show ?thesis unfolding takes_admission_def by blast
  next
    case False
    note B = bearer_admits [OF i False named]
    have "code_voter t x = code_voter ?i x" by (simp add: t code_voter_def)
    with B show ?thesis by blast
  qed
qed

lemma process_request_admits:
  assumes named: "js_trim (rq_invitedNpub request) = rq_invitedNpub request" "rq_invitedNpub request \<noteq> []"
    and keyed: "papers_keyed s"
    and run: "process_request iu mo request (s, og) = ((t, og'), outcome)"
    and new: "whitelisted t x" "\<not> whitelisted s x"
  shows "x = rq_invitedNpub request \<and> (code_voter t x \<or> takes_admission (iu_electionId iu) s t request)"
proof -
  obtain a rej where ad: "admit_request iu mo s request = (a, rej)" by fastforce
  have cases: "t = s \<or> t = a \<or> t = fst (fst (answer_request iu mo request (a, og)))"
    using run by (auto simp: process_request_def ad split: option.splits)
  with new have wl: "whitelisted a x" by auto
  have A: "x = rq_invitedNpub request \<and> (code_voter a x \<or> takes_admission (iu_electionId iu) s a request)"
    using admit_admits [OF named keyed, where iu = iu and mo = mo and x = x] wl new(2) unfolding ad fst_conv by blast
  have cs: "codes_step a t" and ps: "papers_step a t"
    using cases new wl answer_papers [of a iu mo request og]
    by (auto simp: codes_step_refl papers_step_refl)
  have "papers_keyed a" using admit_papers [of s iu mo request] ad keyed by (simp add: papers_step_def)
  with A cs ps named(2) show ?thesis
    by (auto simp: takes_admission_def intro: code_voter_mono holds_admission_mono)
qed

section \<open>The loop\<close>

definition named_voters :: "blind_request list \<Rightarrow> bool" where
  "named_voters queue \<longleftrightarrow> (\<forall>request\<in>set queue.
     js_trim (rq_invitedNpub request) = rq_invitedNpub request \<and> rq_invitedNpub request \<noteq> [])"

text \<open>Voters that are on the whitelist of \<open>t\<close>, were not on that of \<open>s\<close>, and have no code.\<close>

definition codeless_voters :: "coordinator_state \<Rightarrow> coordinator_state \<Rightarrow> string set" where
  "codeless_voters s t = {npub. whitelisted t npub \<and> \<not> whitelisted s npub \<and> \<not> code_voter t npub}"

text \<open>Each of them has an admission of its own: \<open>key\<close> is injective on them.\<close>

definition own_admissions ::
  "string \<Rightarrow> blind_request list \<Rightarrow> coordinator_state \<Rightarrow> coordinator_state \<Rightarrow> (string \<Rightarrow> string) \<Rightarrow> bool" where
  "own_admissions electionId queue s t key \<longleftrightarrow> inj_on key (codeless_voters s t)
     \<and> (\<forall>npub\<in>codeless_voters s t. open_admission electionId s (key npub) \<and> holds_admission t (key npub) npub
          \<and> (\<exists>request\<in>set queue. rq_invitedNpub request = npub \<and> paper_key request = key npub))"

lemma own_admissions_step:
  assumes own: "own_admissions (iu_electionId iu) queue s0 s key"
    and keyed: "papers_keyed s0" "papers_step s0 s" and named: "named_voters queue"
    and r: "request \<in> set queue"
    and run: "process_request iu mo request (s, og) = ((t, og'), outcome)"
  shows "\<exists>key'. own_admissions (iu_electionId iu) queue s0 t key'"
proof -
  let ?x = "rq_invitedNpub request" and ?el = "iu_electionId iu"
  have nm: "js_trim ?x = ?x" "?x \<noteq> []" using named r by (auto simp: named_voters_def)
  have sk: "papers_keyed s" using keyed by (simp add: papers_step_def)
  have cs: "codes_step s t" and ps: "papers_step s t"
    using process_request_codes [of "(s, og)" iu mo request] process_request_papers [of "(s, og)" iu mo request] run
    by simp_all
  have stayed: "npub \<in> codeless_voters s0 s" if "npub \<in> codeless_voters s0 t" "whitelisted s npub" for npub
    using that code_voter_mono [OF cs] by (auto simp: codeless_voters_def)
  have nonempty: "npub \<noteq> []" if "npub \<in> codeless_voters s0 s" for npub
    using own that named unfolding own_admissions_def named_voters_def by blast
  have old: "open_admission ?el s0 (key npub) \<and> holds_admission t (key npub) npub
      \<and> (\<exists>request\<in>set queue. rq_invitedNpub request = npub \<and> paper_key request = key npub)"
    if "npub \<in> codeless_voters s0 s" for npub
    using own that holds_admission_mono [OF sk ps _ nonempty [OF that]] unfolding own_admissions_def by blast
  show ?thesis
  proof (cases "?x \<in> codeless_voters s0 t \<and> \<not> whitelisted s ?x")
    case False
    have sub: "codeless_voters s0 t \<subseteq> codeless_voters s0 s"
      using False stayed process_request_admits [OF nm sk run] by (force simp: codeless_voters_def)
    then have "inj_on key (codeless_voters s0 t)"
      using own by (auto simp: own_admissions_def intro: inj_on_subset)
    with sub old show ?thesis unfolding own_admissions_def by blast
  next
    case True
    then have wt: "whitelisted t ?x" and nc: "\<not> code_voter t ?x" by (auto simp: codeless_voters_def)
    from process_request_admits [OF nm sk run wt] True nc have T: "takes_admission ?el s t request" by blast
    have others: "npub \<in> codeless_voters s0 s" if "npub \<in> codeless_voters s0 t" "npub \<noteq> ?x" for npub
      using that stayed process_request_admits [OF nm sk run] by (force simp: codeless_voters_def)
    have differ: "key npub \<noteq> paper_key request" if "npub \<in> codeless_voters s0 t" "npub \<noteq> ?x" for npub
    proof
      assume k: "key npub = paper_key request"
      note mine = others [OF that]
      obtain e where e: "obj_get (co_paperBallotAdmissions s) (paper_key request) = Some e"
        using T by (auto simp: takes_admission_def open_admission_def)
      have "holds_admission s (key npub) npub" using own mine unfolding own_admissions_def by blast
      then have "pa_state e = Redeemed" "pa_redeemedNpub e = Some npub"
        using e k by (auto simp: holds_admission_def)
      with T e nonempty [OF mine] that(2) show False unfolding takes_admission_def by blast
    qed
    have opened: "open_admission ?el s0 (paper_key request)"
      using T keyed unfolding takes_admission_def open_admission_def papers_step_def paper_step_def by metis
    let ?key = "key(?x := paper_key request)"
    have "inj_on ?key (codeless_voters s0 t)"
    proof (rule inj_onI)
      fix a b
      assume "a \<in> codeless_voters s0 t" "b \<in> codeless_voters s0 t" "?key a = ?key b"
      then show "a = b"
        using differ [of a] differ [of b] others [of a] others [of b] own
        by (cases "a = ?x"; cases "b = ?x") (auto simp: own_admissions_def dest: inj_onD)
    qed
    moreover have "open_admission ?el s0 (?key npub) \<and> holds_admission t (?key npub) npub
        \<and> (\<exists>request\<in>set queue. rq_invitedNpub request = npub \<and> paper_key request = ?key npub)"
      if "npub \<in> codeless_voters s0 t" for npub
    proof (cases "npub = ?x")
      case True
      with opened T r show ?thesis by (auto simp: takes_admission_def)
    next
      case False
      with old [OF others [OF that False]] show ?thesis by simp
    qed
    ultimately show ?thesis unfolding own_admissions_def by blast
  qed
qed

lemma own_admissions_loop:
  assumes "own_admissions (iu_electionId iu) queue s0 s key" "papers_keyed s0" "papers_step s0 s"
    and "named_voters queue" "set rest \<subseteq> set queue"
    and "process_requests iu moments rest (s, og) = ((t, og'), outcomes)"
  shows "\<exists>key'. own_admissions (iu_electionId iu) queue s0 t key'"
  using assms
proof (induction rest arbitrary: s og key outcomes)
  case (Cons request rest)
  obtain u og1 outcome where step: "process_request iu (moments request) request (s, og) = ((u, og1), outcome)"
    by (metis prod.collapse)
  have "request \<in> set queue" using Cons.prems(5) by simp
  from own_admissions_step [OF Cons.prems(1-4) this step]
  obtain key' where own: "own_admissions (iu_electionId iu) queue s0 u key'" by blast
  show ?case
  proof (cases "outcome = Threw")
    case True
    with Cons.prems(6) step own show ?thesis by auto
  next
    case False
    obtain st outs where more: "process_requests iu moments rest (u, og1) = (st, outs)" by fastforce
    with Cons.prems(6) step False have st: "st = (t, og')" by simp
    have "papers_step s u" using process_request_papers [of "(s, og)" iu "moments request" request] step by simp
    then have "papers_step s0 u" by (rule papers_step_trans [OF Cons.prems(3)])
    from Cons.IH [OF own Cons.prems(2) this Cons.prems(4)] Cons.prems(5) more st show ?thesis by simp
  qed
qed auto

lemma own_admissions_start: "own_admissions electionId queue s s key"
proof -
  have "codeless_voters s s = {}" by (auto simp: codeless_voters_def)
  then show ?thesis by (simp add: own_admissions_def)
qed

end
