(* ===== verification/Issue_Safety.thy ===== *)
theory Issue_Safety
  imports Admission_Safety
begin

text \<open>
  When a credential is issued, and what happens when signing throws.  A request that ends as
  \<open>Issued\<close> has passed every check, and the signature is that of the coordinator's key over the
  request's blinded message.  A request that cannot be signed ends the loop: it stays in the queue
  with all that follow it, and the state forgets what the run issued before it.
\<close>

section \<open>Comparing lists by their JSON text\<close>

lemma json_string_array_inject_any [simp]: "json_string_array ss = json_string_array ts \<longleftrightarrow> ss = ts"
proof
  have "js_join '','' (map json_string ss) @ '']'' = js_join '','' (map json_string ts) @ '']'' \<Longrightarrow> ss = ts"
  proof (induction ss arbitrary: ts)
    case Nil
    then show ?case by (cases ts rule: list.exhaust; cases "tl ts") (auto simp: json_string_def)
  next
    case (Cons s ss)
    then obtain t ts' where ts: "ts = t # ts'" by (cases ts; cases ss) (auto simp: json_string_def)
    have shape: "js_join '','' (map json_string (u # us)) @ '']''
      = json_string u @ (if us = [] then '']'' else '','' @ js_join '','' (map json_string us) @ '']'')" for u us
      by (cases us) simp_all
    from Cons.prems have "s = t" and rest:
      "(if ss = [] then '']'' else '','' @ js_join '','' (map json_string ss) @ '']'')
        = (if ts' = [] then '']'' else '','' @ js_join '','' (map json_string ts') @ '']'')"
      using json_string_decodes unfolding ts shape by blast+
    then show ?case using Cons.IH [of ts'] ts by (auto split: if_splits)
  qed
  then show "json_string_array ss = json_string_array ts \<Longrightarrow> ss = ts"
    by (simp add: json_string_array_def)
qed simp

lemma group_matches_iff:
  "group_matches (configuredBallotGroupForRequest el s request) request \<longleftrightarrow>
     (\<forall>g. configuredBallotGroupForRequest el s request = Some g \<longrightarrow>
        requested_scopes request = allowedScopesForRequiredScope g)"
  by (auto simp: group_matches_def split: option.split)

section \<open>An issued credential\<close>

text \<open>What a request has passed when its credential is issued.\<close>

definition passed_checks :: "issuer \<Rightarrow> moment \<Rightarrow> coordinator_state \<Rightarrow> blind_request \<Rightarrow> bool" where
  "passed_checks iu mo s request \<longleftrightarrow>
     hasRequiredGeneralInvitePow (iu_host iu) (mo_definition mo) request
     \<and> getBearerInviteCodeRequestBlockReason (iu_electionId iu) s request = None
     \<and> es_state (co_election s) \<noteq> Closed \<and> es_state (co_election s) \<noteq> Counted
     \<and> (\<forall>d. mo_definition mo = Some d \<longrightarrow>
          \<not> num_lt (num_int (mo_seconds mo)) (d_openAt d) \<and> \<not> num_le (d_closeAt d) (num_int (mo_seconds mo)))
     \<and> (\<forall>g. configuredBallotGroupForRequest (iu_electionId iu) s request = Some g \<longrightarrow>
          requested_scopes request = allowedScopesForRequiredScope g)"

lemma not_rejected: "request_rejection iu mo s request = None \<Longrightarrow> passed_checks iu mo s request"
  unfolding request_rejection_def passed_checks_def group_matches_iff [symmetric] outside_window_def
  by (auto split: if_splits option.splits)

lemma admitted_index:
  assumes "admit_request iu mo s request = (a, None)" "obj_get (co_whitelist a) (rq_invitedNpub request) = Some entry"
  shows "ballotScopeCredentialIndex (request_scope request)
    \<le> normaliseQuestionnaireCredentialsPerVoter (we_credentialsPerVoter entry)"
  using assms by (auto simp: admit_request_def Let_def credential_index_refused_def split: prod.splits if_splits)

text \<open>The answer \<open>Issued\<close>: the request was received, its voter has no credential for the scope, and the
  reducer took the issuance.\<close>

lemma answer_issued:
  assumes run: "answer_request iu mo request (s, og) = ((t, og'), Issued i)"
  obtains key signature u where "iu_key iu = Some key"
    "iu_sign iu key (rq_blindedMessage request) = Some signature"
    "i = new_issuance iu mo key request signature"
    "u = rr_state (reduceCoordinatorEvent (iu_host iu) s (BLIND_REQUEST_RECEIVED request) (mo_now mo))"
    "rr_ok (reduceCoordinatorEvent (iu_host iu) s (BLIND_REQUEST_RECEIVED request) (mo_now mo))"
    "rr_ok (reduceCoordinatorEvent (iu_host iu) u (BLIND_SIGNATURE_ISSUED i) (mo_now mo))"
    "t = note_paper_issuance request (is_issuanceId i)
       (rr_state (reduceCoordinatorEvent (iu_host iu) u (BLIND_SIGNATURE_ISSUED i) (mo_now mo)))"
    "findIssuedBlindResponse (co_issuedBlindResponses u) request = None"
    "og' = take_off_queue request (put_in_mailbox i og)"
proof -
  define received where
    "received = reduceCoordinatorEvent (iu_host iu) s (BLIND_REQUEST_RECEIVED request) (mo_now mo)"
  have no: "snd (reissue mo request x st) \<noteq> Issued i" for x st
    by (simp add: reissue_def Let_def split: prod.split)
  have ok: "rr_ok received"
    using run no by (auto simp: answer_request_def received_def [symmetric] Let_def
        simp del: reduceCoordinatorEvent.simps split: option.splits if_splits)
       (metis snd_conv)+
  then obtain key where key: "iu_key iu = Some key"
    and new: "findIssuedBlindResponse (co_issuedBlindResponses (rr_state received)) request = None"
    and issue: "issue_new iu mo key request (rr_state received, og) = ((t, og'), Issued i)"
    using run no by (auto simp: answer_request_def received_def [symmetric] Let_def
        simp del: reduceCoordinatorEvent.simps split: option.splits) (metis snd_conv)+
  from issue obtain signature where
    "iu_sign iu key (rq_blindedMessage request) = Some signature" "i = new_issuance iu mo key request signature"
    "rr_ok (reduceCoordinatorEvent (iu_host iu) (rr_state received) (BLIND_SIGNATURE_ISSUED i) (mo_now mo))"
    "t = note_paper_issuance request (is_issuanceId i)
       (rr_state (reduceCoordinatorEvent (iu_host iu) (rr_state received) (BLIND_SIGNATURE_ISSUED i) (mo_now mo)))"
    "og' = take_off_queue request (put_in_mailbox i og)"
    by (auto simp: issue_new_def Let_def simp del: reduceCoordinatorEvent.simps split: option.splits if_splits)
  with key new ok show ?thesis by (intro that [of key signature "rr_state received"]) (simp_all add: received_def)
qed

lemma received_request:
  assumes "rr_ok (reduceCoordinatorEvent h s (BLIND_REQUEST_RECEIVED request) now)"
  defines "u \<equiv> rr_state (reduceCoordinatorEvent h s (BLIND_REQUEST_RECEIVED request) now)"
  shows "rq_electionId request = election_id s" "whitelisted s (rq_invitedNpub request)"
    and "obj_get (co_pendingBlindRequests u) (rq_requestId request) = Some r
      \<Longrightarrow> rq_blindSigningKeyId r = rq_blindSigningKeyId request"
proof -
  have r: "rq_electionId (sanitiseBlindBallotRequest request) = rq_electionId request"
    "rq_invitedNpub (sanitiseBlindBallotRequest request) = rq_invitedNpub request"
    "rq_requestId (sanitiseBlindBallotRequest request) = rq_requestId request"
    "rq_blindSigningKeyId (sanitiseBlindBallotRequest request) = rq_blindSigningKeyId request"
    by (simp_all add: sanitiseBlindBallotRequest_def)
  show "rq_electionId request = election_id s" and whitelisted_request: "whitelisted s (rq_invitedNpub request)"
    using assms(1) by (auto simp: coordinator_request_received_def Let_def r whitelisted_def election_id_def
        split: if_splits option.splits)
  show "obj_get (co_pendingBlindRequests u) (rq_requestId request) = Some r
      \<Longrightarrow> rq_blindSigningKeyId r = rq_blindSigningKeyId request"
  proof -
    assume u: "obj_get (co_pendingBlindRequests u) (rq_requestId request) = Some r"
    let ?p = "co_pendingBlindRequests (cloneCoordinatorState h s)"
    obtain entry where E: "obj_get (co_whitelist s) (rq_invitedNpub request) = Some entry"
      using whitelisted_request by (auto simp: whitelisted_def)
    show ?thesis
    proof (cases "obj_get ?p (rq_requestId request)")
      case (Some existing)
      then have "sameBlindBallotRequest existing (sanitiseBlindBallotRequest request)"
        "rq_blindSigningKeyId r = rq_blindSigningKeyId existing"
        using assms(1) u E unfolding u_def
        by (simp_all add: coordinator_request_received_def Let_def r split: if_splits)
           (auto simp: accept_def)
      then show ?thesis by (simp add: sameBlindBallotRequest_def r)
    next
      case None
      show ?thesis
      proof (cases "findPendingBlindRequestByNpubAndScope ?p (rq_invitedNpub request)
          (request_scope (sanitiseBlindBallotRequest request))")
        case (Some scoped)
        with None assms(1) u E show ?thesis unfolding u_def
          by (simp add: coordinator_request_received_def Let_def r split: if_splits)
      next
        case fresh: None
        with None assms(1) u E have "r = sanitiseBlindBallotRequest request" unfolding u_def
          by (simp add: coordinator_request_received_def Let_def r split: if_splits)
        then show ?thesis by (simp add: r)
      qed
    qed
  qed
qed


lemma sanitised_request [simp]:
  "rq_electionId (sanitiseBlindBallotRequest r) = rq_electionId r"
  "rq_requestId (sanitiseBlindBallotRequest r) = rq_requestId r"
  "rq_invitedNpub (sanitiseBlindBallotRequest r) = rq_invitedNpub r"
  "rq_blindedMessage (sanitiseBlindBallotRequest r) = rq_blindedMessage r"
  "sanitiseBlindBallotRequest (sanitiseBlindBallotRequest r) = sanitiseBlindBallotRequest r"
  by (simp_all add: sanitiseBlindBallotRequest_def)

lemma sanitised_issuance [simp]:
  "is_requestId (sanitiseBlindBallotIssuance i) = is_requestId i"
  "is_invitedNpub (sanitiseBlindBallotIssuance i) = is_invitedNpub i"
  "is_blindSigningKeyId (sanitiseBlindBallotIssuance i) = is_blindSigningKeyId i"
  "is_electionId (sanitiseBlindBallotIssuance i) = is_electionId i"
  by (simp_all add: sanitiseBlindBallotIssuance_def)

lemma recorded_issuance:
  assumes "rr_ok (reduceCoordinatorEvent h u (BLIND_SIGNATURE_ISSUED i) now)"
    and "coordinator_inv u" "findIssuedBlindResponse (co_issuedBlindResponses u) request = None"
    and "is_requestId i = rq_requestId request"
  defines "t \<equiv> rr_state (reduceCoordinatorEvent h u (BLIND_SIGNATURE_ISSUED i) now)"
  shows "obj_get (co_issuedBlindResponses t) (is_requestId i) = Some (sanitiseBlindBallotIssuance i)"
    and "findIssuanceByNpubAndScope (co_issuedBlindResponses (cloneCoordinatorState h u)) (is_invitedNpub i)
      (issuance_scope (sanitiseBlindBallotIssuance i)) = None"
    and "\<exists>r. obj_get (co_pendingBlindRequests u) (is_requestId i) = Some r
      \<and> rq_blindSigningKeyId r = is_blindSigningKeyId i"
proof -
  have none: "obj_get (co_issuedBlindResponses (cloneCoordinatorState h u)) (is_requestId i) = None"
    using assms(3,4) by (auto simp: clone_gets(2) [OF assms(2)] findIssuedBlindResponse_def coalesce_def
        split: option.splits)
  show "obj_get (co_issuedBlindResponses t) (is_requestId i) = Some (sanitiseBlindBallotIssuance i)"
    and "findIssuanceByNpubAndScope (co_issuedBlindResponses (cloneCoordinatorState h u)) (is_invitedNpub i)
      (issuance_scope (sanitiseBlindBallotIssuance i)) = None"
    using assms(1) none unfolding t_def
    by (auto simp: coordinator_signature_issued_def Let_def put_entry_def split: if_splits option.splits)
  show "\<exists>r. obj_get (co_pendingBlindRequests u) (is_requestId i) = Some r
      \<and> rq_blindSigningKeyId r = is_blindSigningKeyId i"
    using assms(1) clone_gets(1) [OF assms(2), of h]
    by (auto simp: coordinator_signature_issued_def Let_def split: if_splits option.splits)
qed

text \<open>
  The credential that the loop issues: everything it rests on, and that the voter had none for the
  scope.
\<close>

definition earned ::
  "issuer \<Rightarrow> moment \<Rightarrow> coordinator_state \<Rightarrow> blind_request \<Rightarrow> coordinator_state \<Rightarrow> blind_issuance \<Rightarrow> bool" where
  "earned iu mo s request t i \<longleftrightarrow> passed_checks iu mo s request
     \<and> (\<exists>key. iu_key iu = Some key \<and> iu_sign iu key (rq_blindedMessage request) = Some (is_blindSignature i)
          \<and> is_blindSigningKeyId i = bpk_keyId key \<and> rq_blindSigningKeyId request = bpk_keyId key)
     \<and> rq_electionId request = election_id s
     \<and> is_requestId i = rq_requestId request \<and> is_invitedNpub i = rq_invitedNpub request
     \<and> nullish (is_ballotScope i) = request_scope request
     \<and> obj_get (co_issuedBlindResponses t) (rq_requestId request) = Some (sanitiseBlindBallotIssuance i)
     \<and> (\<exists>entry. obj_get (co_whitelist t) (rq_invitedNpub request) = Some entry
          \<and> ballotScopeCredentialIndex (request_scope request)
              \<le> normaliseQuestionnaireCredentialsPerVoter (we_credentialsPerVoter entry))
     \<and> (\<forall>k j. obj_get (co_issuedBlindResponses s) k = Some j \<and> is_invitedNpub j = rq_invitedNpub request \<longrightarrow>
          \<not> sameBallotScope (issuance_scope j) (request_scope request))"

lemma same_credentials_setting:
  "obj_get (co_whitelist s) x = Some e \<Longrightarrow>
     \<exists>e'. obj_get (co_whitelist (rr_state (reduceCoordinatorEvent h s (BLIND_REQUEST_RECEIVED request) now))) x = Some e'
        \<and> we_credentialsPerVoter e' = we_credentialsPerVoter e"
  "obj_get (co_whitelist s) x = Some e \<Longrightarrow>
     \<exists>e'. obj_get (co_whitelist (rr_state (reduceCoordinatorEvent h s (BLIND_SIGNATURE_ISSUED i) now))) x = Some e'
        \<and> we_credentialsPerVoter e' = we_credentialsPerVoter e"
  by (auto simp: step_defs Let_def put_entry_def raise_claim_def split: option.splits)

lemma null_if_nullish_nullish [simp]: "nullish (null_if_nullish f) = nullish f"
  by (cases f) simp_all

lemma sameBallotScope_sanitised [simp]:
  "sameBallotScope a (issuance_scope (sanitiseBlindBallotIssuance i)) = sameBallotScope a (issuance_scope i)"
  by (simp add: sameBallotScope_def issuance_scope_def sanitiseBlindBallotIssuance_def)


lemma sameBallotScope_issuance_cong:
  "same_credential i j \<Longrightarrow> sameBallotScope (issuance_scope j) x = sameBallotScope (issuance_scope i) x"
  by (simp add: same_credential_def issuance_scope_def)

lemma answer_earned:
  assumes inv: "coordinator_inv a" and run: "answer_request iu mo request (a, og) = ((t, og'), Issued i)"
  shows "\<exists>key. iu_key iu = Some key \<and> iu_sign iu key (rq_blindedMessage request) = Some (is_blindSignature i)
      \<and> is_blindSigningKeyId i = bpk_keyId key \<and> rq_blindSigningKeyId request = bpk_keyId key"
    and "rq_electionId request = election_id a"
    and "is_requestId i = rq_requestId request" "is_invitedNpub i = rq_invitedNpub request"
    and "nullish (is_ballotScope i) = request_scope request"
    and "obj_get (co_issuedBlindResponses t) (rq_requestId request) = Some (sanitiseBlindBallotIssuance i)"
    and "obj_get (co_whitelist a) (rq_invitedNpub request) = Some entry \<Longrightarrow>
      \<exists>e. obj_get (co_whitelist t) (rq_invitedNpub request) = Some e
        \<and> we_credentialsPerVoter e = we_credentialsPerVoter entry"
    and "obj_get (co_issuedBlindResponses a) k = Some j \<Longrightarrow> is_invitedNpub j = rq_invitedNpub request \<Longrightarrow>
      \<not> sameBallotScope (issuance_scope j) (request_scope request)"
proof -
  obtain key signature u where K: "iu_key iu = Some key"
    "iu_sign iu key (rq_blindedMessage request) = Some signature" "i = new_issuance iu mo key request signature"
    and u: "u = rr_state (reduceCoordinatorEvent (iu_host iu) a (BLIND_REQUEST_RECEIVED request) (mo_now mo))"
    and rec: "rr_ok (reduceCoordinatorEvent (iu_host iu) a (BLIND_REQUEST_RECEIVED request) (mo_now mo))"
    and iss: "rr_ok (reduceCoordinatorEvent (iu_host iu) u (BLIND_SIGNATURE_ISSUED i) (mo_now mo))"
    and t: "t = note_paper_issuance request (is_issuanceId i)
       (rr_state (reduceCoordinatorEvent (iu_host iu) u (BLIND_SIGNATURE_ISSUED i) (mo_now mo)))"
    and none: "findIssuedBlindResponse (co_issuedBlindResponses u) request = None"
    using run by (rule answer_issued)
  show i: "is_requestId i = rq_requestId request" "is_invitedNpub i = rq_invitedNpub request"
    "nullish (is_ballotScope i) = request_scope request"
    by (simp_all add: K(3) new_issuance_def request_scope_def)
  have gu: "good_step a u" unfolding u by (rule good_event) simp
  with inv have ui: "coordinator_inv u" and pres: "preserving a u" by (simp_all add: good_step_def)
  note R = recorded_issuance [OF iss ui none i(1)]
  note Q = received_request [OF rec, folded u]
  show "rq_electionId request = election_id a" by (rule Q(1))
  obtain r where r: "obj_get (co_pendingBlindRequests u) (is_requestId i) = Some r"
    "rq_blindSigningKeyId r = is_blindSigningKeyId i" using R(3) by blast
  then have "rq_blindSigningKeyId request = is_blindSigningKeyId i" using Q(3) [of r] i(1) by simp
  then show "\<exists>key. iu_key iu = Some key \<and> iu_sign iu key (rq_blindedMessage request) = Some (is_blindSignature i)
      \<and> is_blindSigningKeyId i = bpk_keyId key \<and> rq_blindSigningKeyId request = bpk_keyId key"
    using K by (simp add: new_issuance_def)
  have same: "co_issuedBlindResponses t = co_issuedBlindResponses
      (rr_state (reduceCoordinatorEvent (iu_host iu) u (BLIND_SIGNATURE_ISSUED i) (mo_now mo)))"
    "co_whitelist t = co_whitelist
      (rr_state (reduceCoordinatorEvent (iu_host iu) u (BLIND_SIGNATURE_ISSUED i) (mo_now mo)))"
    unfolding t by (simp_all add: note_paper_issuance_def split: option.split)
  show "obj_get (co_issuedBlindResponses t) (rq_requestId request) = Some (sanitiseBlindBallotIssuance i)"
    using R(1) i(1) same(1) by simp
  show "obj_get (co_whitelist a) (rq_invitedNpub request) = Some entry \<Longrightarrow>
      \<exists>e. obj_get (co_whitelist t) (rq_invitedNpub request) = Some e
        \<and> we_credentialsPerVoter e = we_credentialsPerVoter entry"
    using same_credentials_setting(1) [of a "rq_invitedNpub request" entry "iu_host iu" request "mo_now mo"]
      same_credentials_setting(2) [of u "rq_invitedNpub request" _ "iu_host iu" i "mo_now mo"]
    unfolding same(2) u by metis
  assume j: "obj_get (co_issuedBlindResponses a) k = Some j" "is_invitedNpub j = rq_invitedNpub request"
  then obtain j' where j': "obj_get (co_issuedBlindResponses u) k = Some j'" "same_credential j j'"
    using pres unfolding preserving_def issued_stays_def by blast
  then have "obj_get (co_issuedBlindResponses (cloneCoordinatorState (iu_host iu) u)) k = Some j'"
    by (simp add: clone_gets(2) [OF ui])
  from issuances.find_scope_None [OF R(2) [unfolded findIssuanceByNpubAndScope_find_scope] this]
  have "\<not> sameBallotScope (issuance_scope j') (issuance_scope i)"
    using j(2) j'(2) i(2) by (simp add: same_credential_def)
  then show "\<not> sameBallotScope (issuance_scope j) (request_scope request)"
    using sameBallotScope_issuance_cong [OF j'(2)] i(3) by (simp add: issuance_scope_def)
qed

lemma process_issued_earned:
  assumes inv: "coordinator_inv s" and run: "process_request iu mo request (s, og) = ((t, og'), Issued i)"
  shows "earned iu mo s request t i"
proof -
  from run obtain a where pass: "request_rejection iu mo s request = None"
    and ad: "admit_request iu mo s request = (a, None)"
    and ans: "answer_request iu mo request (a, og) = ((t, og'), Issued i)"
    by (auto simp: process_request_def split: option.splits prod.splits)
  have ga: "good_step s a" using admit_good [of s iu mo request] ad by simp
  with inv have ai: "coordinator_inv a" and pres: "preserving s a" by (simp_all add: good_step_def)
  note A = answer_earned [OF ai ans]
  have el: "election_id a = election_id s" using pres by (simp add: preserving_def same_ballots_def)
  obtain entry where entry: "obj_get (co_whitelist a) (rq_invitedNpub request) = Some entry"
    using ans answer_issued [OF ans] received_request(2) whitelisted_def by (metis not_None_eq)
  from A(7) [OF entry] obtain e where e: "obj_get (co_whitelist t) (rq_invitedNpub request) = Some e"
    "we_credentialsPerVoter e = we_credentialsPerVoter entry" by blast
  have "\<not> sameBallotScope (issuance_scope j) (request_scope request)"
    if j: "obj_get (co_issuedBlindResponses s) k = Some j" "is_invitedNpub j = rq_invitedNpub request" for k j
  proof -
    from j pres obtain j' where j': "obj_get (co_issuedBlindResponses a) k = Some j'" "same_credential j j'"
      unfolding preserving_def issued_stays_def by blast
    with A(8) [OF j'(1)] j(2) show ?thesis
      using sameBallotScope_issuance_cong [OF j'(2)] by (simp add: same_credential_def)
  qed
  with A(1-6) el e admitted_index [OF ad entry] not_rejected [OF pass] show ?thesis
    unfolding earned_def by auto
qed

section \<open>A request that cannot be signed\<close>

lemma listed_after_dequeue:
  "x \<in> set (listBlindRequests el queue) \<Longrightarrow> rq_requestId x \<noteq> rid \<Longrightarrow>
     x \<in> set (listBlindRequests el (dequeueBlindRequest rid queue))"
proof -
  assume "x \<in> set (listBlindRequests el queue)" and other: "rq_requestId x \<noteq> rid"
  then obtain y where y: "y \<in> set queue" "x = sanitiseBlindBallotRequest y" "rq_electionId x = el"
    unfolding listBlindRequests_def set_filter set_map by blast
  then have "x \<in> set (dequeueBlindRequest rid queue)"
    using other unfolding dequeueBlindRequest_def set_filter set_map by blast
  moreover have "x = sanitiseBlindBallotRequest x" unfolding y(2) by (rule sanitised_request(5) [symmetric])
  ultimately show ?thesis using y(3) unfolding listBlindRequests_def set_filter set_map by blast
qed

lemma answer_queue:
  assumes "answer_request iu mo request (s, og) = ((t, og'), outcome)"
  shows "og_queue og' = og_queue og \<or> og_queue og' = dequeueBlindRequest (rq_requestId request) (og_queue og)"
    and "outcome = Threw \<Longrightarrow> og' = og
      \<and> (\<exists>key. iu_key iu = Some key \<and> iu_sign iu key (rq_blindedMessage request) = None)"
  using assms
  by (auto simp: answer_request_def Let_def reissue_def issue_new_def take_off_queue_def put_in_mailbox_def
      await_authorization_def simp del: reduceCoordinatorEvent.simps split: option.splits if_splits)

lemma process_request_queue:
  assumes "process_request iu mo request (s, og) = ((t, og'), outcome)"
  shows "og_queue og' = og_queue og \<or> og_queue og' = dequeueBlindRequest (rq_requestId request) (og_queue og)"
    and "outcome = Threw \<Longrightarrow> og' = og
      \<and> (\<exists>key. iu_key iu = Some key \<and> iu_sign iu key (rq_blindedMessage request) = None)"
  using assms answer_queue
  by (auto simp: process_request_def take_off_queue_def split: option.splits prod.splits)

text \<open>The loop up to the request at which signing throws.\<close>

lemma threw_loop:
  assumes "process_requests iu moments queue (s, og) = ((t, og'), outcomes)" "Threw \<in> set outcomes"
    and "distinct (map rq_requestId queue)"
    and "\<forall>request\<in>set queue. request \<in> set (listBlindRequests el (og_queue og))"
  shows "\<exists>before request later. queue = before @ request # later \<and> length outcomes = Suc (length before)
     \<and> (\<exists>key. iu_key iu = Some key \<and> iu_sign iu key (rq_blindedMessage request) = None)
     \<and> set (request # later) \<subseteq> set (listBlindRequests el (og_queue og'))"
  using assms
proof (induction queue arbitrary: s og outcomes)
  case (Cons request queue)
  obtain u og1 outcome where step: "process_request iu (moments request) request (s, og) = ((u, og1), outcome)"
    by (metis prod.collapse)
  note Q = process_request_queue [OF step]
  show ?case
  proof (cases "outcome = Threw")
    case True
    with Cons.prems(1) step have "og' = og1" "outcomes = [Threw]" by simp_all
    with Q(2) [OF True] Cons.prems(4) show ?thesis
      by (intro exI [of _ "[]"] exI [of _ request] exI [of _ queue]) auto
  next
    case False
    obtain st rest where more: "process_requests iu moments queue (u, og1) = (st, rest)" by fastforce
    with Cons.prems(1) step False have st: "st = (t, og')" "outcomes = outcome # rest" by simp_all
    have listed: "\<forall>r\<in>set queue. r \<in> set (listBlindRequests el (og_queue og1))"
    proof
      fix r
      assume r: "r \<in> set queue"
      with Cons.prems(3) have "rq_requestId r \<noteq> rq_requestId request" by (auto simp: image_iff)
      moreover have "r \<in> set (listBlindRequests el (og_queue og))" using Cons.prems(4) r by simp
      ultimately show "r \<in> set (listBlindRequests el (og_queue og1))"
        using Q(1) listed_after_dequeue [of r el "og_queue og" "rq_requestId request"] by (elim disjE) simp_all
    qed
    from Cons.IH [OF more [unfolded st(1)] _ _ listed] Cons.prems(2,3) st(2) False
    obtain before r later where "queue = before @ r # later" "length rest = Suc (length before)"
      "\<exists>key. iu_key iu = Some key \<and> iu_sign iu key (rq_blindedMessage r) = None"
      "set (r # later) \<subseteq> set (listBlindRequests el (og_queue og'))" by auto
    then show ?thesis using st(2)
      by (intro exI [of _ "request # before"] exI [of _ r] exI [of _ later]) simp
  qed
qed simp

text \<open>When everything can be signed, every request has an outcome.\<close>

lemma signable_loop:
  assumes "\<And>key request. iu_key iu = Some key \<Longrightarrow> request \<in> set queue \<Longrightarrow>
      iu_sign iu key (rq_blindedMessage request) \<noteq> None"
    and "process_requests iu moments queue (s, og) = ((t, og'), outcomes)"
  shows "length outcomes = length queue \<and> Threw \<notin> set outcomes"
  using assms
proof (induction queue arbitrary: s og outcomes)
  case (Cons request queue)
  obtain u og1 outcome where step: "process_request iu (moments request) request (s, og) = ((u, og1), outcome)"
    by (metis prod.collapse)
  have no: "outcome \<noteq> Threw" using process_request_queue(2) [OF step] Cons.prems(1) by fastforce
  obtain st rest where more: "process_requests iu moments queue (u, og1) = (st, rest)" by fastforce
  with Cons.prems(2) step no have st: "st = (t, og')" "outcomes = outcome # rest" by simp_all
  have "length rest = length queue \<and> Threw \<notin> set rest"
    by (rule Cons.IH [OF _ more [unfolded st(1)]]) (use Cons.prems(1) in simp)
  with st(2) no show ?case by simp
qed simp


section \<open>Leaving the queue\<close>

fun leaves_queue :: "issue_outcome \<Rightarrow> bool" where
  "leaves_queue (Rejected reason) = True"
| "leaves_queue (Reissued i) = True"
| "leaves_queue (Issued i) = True"
| "leaves_queue outcome = False"

definition queued_ids :: "blind_request list \<Rightarrow> string set" where
  "queued_ids queue = rq_requestId ` set queue"

lemma queued_ids_dequeue: "queued_ids (dequeueBlindRequest rid queue) = queued_ids queue - {rid}"
proof -
  have "queued_ids (filter (\<lambda>entry. rq_requestId entry \<noteq> rid) rs) = queued_ids rs - {rid}" for rs
    by (auto simp: queued_ids_def)
  moreover have "queued_ids (map sanitiseBlindBallotRequest queue) = queued_ids queue"
    by (simp add: queued_ids_def image_image)
  ultimately show ?thesis by (simp only: dequeueBlindRequest_def)
qed

lemma answer_leaves:
  assumes "answer_request iu mo request (s, og) = ((t, og'), outcome)" "leaves_queue outcome"
  shows "og_queue og' = dequeueBlindRequest (rq_requestId request) (og_queue og)"
  using assms
  by (auto simp: answer_request_def Let_def reissue_def issue_new_def take_off_queue_def put_in_mailbox_def
      await_authorization_def simp del: reduceCoordinatorEvent.simps split: option.splits if_splits)

lemma process_request_leaves:
  assumes "process_request iu mo request (s, og) = ((t, og'), outcome)" "leaves_queue outcome"
  shows "og_queue og' = dequeueBlindRequest (rq_requestId request) (og_queue og)"
  using assms answer_leaves
  by (auto simp: process_request_def take_off_queue_def split: option.splits prod.splits)

lemma loop_leaves:
  assumes "process_requests iu moments queue (s, og) = ((t, og'), outcomes)"
  shows "queued_ids (og_queue og') \<subseteq> queued_ids (og_queue og)
    \<and> (\<forall>(request, outcome)\<in>set (zip queue outcomes). leaves_queue outcome \<longrightarrow>
         rq_requestId request \<notin> queued_ids (og_queue og'))"
  using assms
proof (induction queue arbitrary: s og outcomes)
  case (Cons request queue)
  obtain u og1 outcome where step: "process_request iu (moments request) request (s, og) = ((u, og1), outcome)"
    by (metis prod.collapse)
  have less: "queued_ids (og_queue og1) \<subseteq> queued_ids (og_queue og)"
    using process_request_queue(1) [OF step] by (auto simp: queued_ids_dequeue)
  have left: "leaves_queue outcome \<Longrightarrow> rq_requestId request \<notin> queued_ids (og_queue og1)"
    using process_request_leaves [OF step] by (simp add: queued_ids_dequeue)
  show ?case
  proof (cases "outcome = Threw")
    case True
    with Cons.prems step less show ?thesis by auto
  next
    case False
    obtain st rest where more: "process_requests iu moments queue (u, og1) = (st, rest)" by fastforce
    with Cons.prems step False have st: "st = (t, og')" "outcomes = outcome # rest" by simp_all
    from Cons.IH [OF more [unfolded st(1)]] less left show ?thesis unfolding st(2) by auto
  qed
qed simp

section \<open>A whole run\<close>

text \<open>What \<open>processPendingBlindRequests\<close> starts its loop with.\<close>

lemma answering_run:
  assumes "processPendingBlindRequests h sign summary delegated generated moments now og = Inr (outcomes, og')"
    and "og_state og = Some s"
  obtains key keyed nx after where
    "co_issuedBlindResponses keyed = co_issuedBlindResponses s" "co_whitelist keyed = co_whitelist s"
    "co_pendingBlindRequests keyed = co_pendingBlindRequests s"
    "process_requests \<lparr>iu_host = h, iu_electionId = og_electionId og, iu_key = key, iu_sign = sign\<rparr> moments
       (listBlindRequests (og_electionId og) (og_queue og)) (keyed, og) = ((nx, after), outcomes)"
    "og_queue og' = og_queue after"
    "Threw \<in> set outcomes \<Longrightarrow> og_state og' = Some keyed"
proof -
  define r where "r = refreshElectionSummaryFromLocalPublication now summary s"
  obtain key k where key: "(if delegated then (None, r)
      else let (k, t) = ensureBlindSigningKey generated r in (Some k, t)) = (key, k)" by fastforce
  let ?iu = "\<lparr>iu_host = h, iu_electionId = og_electionId og, iu_key = key, iu_sign = sign\<rparr>"
  let ?queue = "listBlindRequests (og_electionId og) (og_queue og)"
  have rs: "co_issuedBlindResponses r = co_issuedBlindResponses s" "co_whitelist r = co_whitelist s"
    "co_pendingBlindRequests r = co_pendingBlindRequests s"
    by (simp_all add: r_def refreshElectionSummaryFromLocalPublication_def Let_def)
  have es: "co_issuedBlindResponses (snd (ensureBlindSigningKey generated r)) = co_issuedBlindResponses r"
    "co_whitelist (snd (ensureBlindSigningKey generated r)) = co_whitelist r"
    "co_pendingBlindRequests (snd (ensureBlindSigningKey generated r)) = co_pendingBlindRequests r"
    by (simp_all add: ensureBlindSigningKey_def Let_def split: option.split)
  have ks: "co_issuedBlindResponses k = co_issuedBlindResponses s" "co_whitelist k = co_whitelist s"
    "co_pendingBlindRequests k = co_pendingBlindRequests s"
    using key es rs by (auto split: if_splits prod.splits)
  obtain nx after outs where loop: "process_requests ?iu moments ?queue (k, og) = ((nx, after), outs)"
    by (metis prod.collapse)
  have no: "(og_coordinatorNpub og = []) = False"
    using assms by (auto simp: processPendingBlindRequests_def split: if_splits)
  have res: "(Inr (outcomes, og') :: issue_outcome list organiser_result) = (if ?queue = [] then Inr ([], og\<lparr>og_state := Some r\<rparr>)
      else Inr (outs, after\<lparr>og_state := Some (if Threw \<in> set outs then k else nx)\<rparr>))"
    by (rule sym) (use assms in \<open>simp only: processPendingBlindRequests_def no option.case if_False Let_def
        r_def [symmetric] key [unfolded Let_def] prod.case loop\<close>)
  show ?thesis
  proof (cases "?queue = []")
    case True
    with loop res ks show ?thesis by (intro that [of k key nx after]) auto
  next
    case False
    with loop res ks show ?thesis by (intro that [of k key nx after]) auto
  qed
qed

lemma enqueue_distinct:
  "distinct (map rq_requestId queue) \<Longrightarrow> distinct (map rq_requestId (enqueueBlindRequest request queue))"
  by (induction queue) (auto simp: enqueueBlindRequest_def Let_def)

lemma listed_distinct:
  "distinct (map rq_requestId queue) \<Longrightarrow> distinct (map rq_requestId (listBlindRequests el queue))"
  by (induction queue) (auto simp: listBlindRequests_def)

end
