(* ===== verification/Session_Safety.thy ===== *)
theory Session_Safety
  imports Issue_Safety
begin

text \<open>
  The coordinator's object over a whole session: the organiser's operations, the answering of
  requests and the intake of ballots, in any order.  Every operation of the organiser and the
  answering loop meet one contract, \<open>organiser_operation\<close>: they keep the coordinator's invariant, the
  ballots and the issued credentials.  The intake keeps the issued credentials and lets the ledger
  of counted ballots grow.
\<close>

section \<open>The contract\<close>

lemma good_step_ledger:
  assumes "ledger_inv s" "good_step s t"
  shows "ledger_inv t" "ledger_of t = ledger_of s" "preserving s t"
proof -
  have st: "coordinator_inv t" "preserving s t"
    using assms by (simp_all add: ledger_inv_def good_step_def)
  then have same: "co_receivedSubmissions t = co_receivedSubmissions s"
    "co_acceptedNullifiers t = co_acceptedNullifiers s" "co_acceptanceResults t = co_acceptanceResults s"
    by (simp_all add: preserving_def same_ballots_def)
  show "preserving s t" by (rule st(2))
  show led: "ledger_of t = ledger_of s" by (rule ledger_of_cong [OF same(1,3)])
  have "acceptance_inv t = acceptance_inv s" by (rule acceptance_inv_cong) (simp_all add: same)
  with assms(1) st(1) led show "ledger_inv t" by (simp add: ledger_inv_def same)
qed

locale organiser_operation =
  fixes operation :: "organiser \<Rightarrow> 'a organiser_result"
  assumes operation_good: "operation og = Inr (result, og') \<Longrightarrow> og_electionId og' = og_electionId og
    \<and> (\<exists>s t. og_state og = Some s \<and> og_state og' = Some t \<and> good_step s t)"
begin

lemma operation_ledger:
  assumes "operation og = Inr (result, og')" "og_state og = Some s" "ledger_inv s"
  shows "\<exists>t. og_state og' = Some t \<and> ledger_inv t \<and> ledger_of t = ledger_of s \<and> preserving s t"
proof -
  from operation_good [OF assms(1)] assms(2) obtain t where "og_state og' = Some t" "good_step s t" by auto
  with good_step_ledger [OF assms(3)] show ?thesis by blast
qed

end

lemma with_state_good:
  assumes "with_state og f = Inr (result, og')"
    and "\<And>s t. f s = Inr (result, t) \<Longrightarrow> good_step s t"
  shows "og_electionId og' = og_electionId og
    \<and> (\<exists>s t. og_state og = Some s \<and> og_state og' = Some t \<and> good_step s t)"
  using assms by (auto simp: with_state_def split: option.splits sum.splits if_splits)

section \<open>The organiser's operations\<close>

lemma settings_good:
  assumes "obj_get (co_whitelist s) npub = Some existing"
  shows "good_step s ((put_entry npub (entry_settings c g existing) s)\<lparr>co_lastUpdatedAt := now\<rparr>)"
  using claims_rise_put [of s npub "entry_settings c g existing"] assms
  by (intro good_registers) (simp_all add: entry_settings_def)

lemma listed_good: "good_step s (rr_state (reduceCoordinatorEvent h s (WHITELIST_ADDED entry) now))"
  by (rule good_event) simp

lemma put_code_good: "good_step s (put_code k entry now s)"
  by (intro good_registers) (simp_all add: put_code_def)

interpretation add_voter: organiser_operation "addWhitelistNpub h encode now npub credentials grp"
proof
  fix og og' result
  assume "addWhitelistNpub h encode now npub credentials grp og = Inr (result, og')"
  then show "og_electionId og' = og_electionId og
      \<and> (\<exists>s t. og_state og = Some s \<and> og_state og' = Some t \<and> good_step s t)"
    unfolding addWhitelistNpub_def
    by (rule with_state_good)
       (auto simp: Let_def simp del: reduceCoordinatorEvent.simps intro: settings_good listed_good
          split: sum.splits option.splits if_splits)
qed

interpretation set_credentials: organiser_operation "setWhitelistCredentialsPerVoter encode now npub credentials"
proof
  fix og og' result
  assume "setWhitelistCredentialsPerVoter encode now npub credentials og = Inr (result, og')"
  then show "og_electionId og' = og_electionId og
      \<and> (\<exists>s t. og_state og = Some s \<and> og_state og' = Some t \<and> good_step s t)"
    unfolding setWhitelistCredentialsPerVoter_def
    by (rule with_state_good)
       (auto intro: settings_good split: sum.splits option.splits if_splits)
qed

interpretation set_group: organiser_operation "setWhitelistBallotGroup encode now npub grp"
proof
  fix og og' result
  assume "setWhitelistBallotGroup encode now npub grp og = Inr (result, og')"
  then show "og_electionId og' = og_electionId og
      \<and> (\<exists>s t. og_state og = Some s \<and> og_state og' = Some t \<and> good_step s t)"
    unfolding setWhitelistBallotGroup_def
    by (rule with_state_good)
       (auto intro: settings_good split: sum.splits option.splits if_splits)
qed

lemma batch_step_good: "good_step s (fst (batch_step h el now credentials groups npub s))"
  by (auto simp: batch_step_def Let_def simp del: reduceCoordinatorEvent.simps intro: settings_good listed_good
      split: option.split)

lemma batch_loop_good: "good_step (fst acc) (fst (batch_loop h el now credentials groups npubs acc))"
proof (induction npubs arbitrary: acc)
  case (Cons npub npubs)
  obtain s n c where acc: "acc = (s, n, c)" by (metis prod.collapse)
  obtain s' a b where step: "batch_step h el now credentials groups npub s = (s', a, b)" by (metis prod.collapse)
  have "good_step s s'" using batch_step_good [of s h el now credentials groups npub] step by simp
  then have "good_step s (fst (batch_loop h el now credentials groups npubs (s', if a then Suc n else n, c \<or> b)))"
    using Cons.IH [of "(s', if a then Suc n else n, c \<or> b)"] unfolding fst_conv by (rule good_step_trans)
  then show ?case by (simp only: acc step batch_loop.simps Let_def prod.case fst_conv)
qed simp

interpretation add_voters: organiser_operation "addWhitelistNpubs h encode now npubs credentials groups"
proof
  fix og og' result
  assume run: "addWhitelistNpubs h encode now npubs credentials groups og = Inr (result, og')"
  have loop: "good_step s t" if "batch_loop h (og_electionId og) now credentials groups ns (s, 0, False) = (t, r)"
    for s ns t r
    using batch_loop_good [of "(s, 0, False)" h "og_electionId og" now credentials groups ns] that by simp
  from run show "og_electionId og' = og_electionId og
      \<and> (\<exists>s t. og_state og = Some s \<and> og_state og' = Some t \<and> good_step s t)"
    unfolding addWhitelistNpubs_def
    by (rule with_state_good) (auto simp: Let_def intro: loop split: sum.splits prod.splits)
qed

interpretation add_code: organiser_operation "addBearerInviteCode now codeHash credentials grp maxOption"
proof
  fix og og' result
  assume "addBearerInviteCode now codeHash credentials grp maxOption og = Inr (result, og')"
  then show "og_electionId og' = og_electionId og
      \<and> (\<exists>s t. og_state og = Some s \<and> og_state og' = Some t \<and> good_step s t)"
    unfolding addBearerInviteCode_def
    by (rule with_state_good) (auto simp: Let_def intro: put_code_good split: option.splits if_splits)
qed

text \<open>All changes of a code at once.\<close>

interpretation change_code: organiser_operation "change_code codeHash now change"
proof
  fix og og' result
  assume "change_code codeHash now change og = Inr (result, og')"
  then show "og_electionId og' = og_electionId og
      \<and> (\<exists>s t. og_state og = Some s \<and> og_state og' = Some t \<and> good_step s t)"
    unfolding change_code_def
    by (rule with_state_good) (auto simp: Let_def intro: put_code_good split: option.splits)
qed

interpretation add_paper: organiser_operation "addPaperBallotAdmission h now entry"
proof
  fix og og' result
  assume "addPaperBallotAdmission h now entry og = Inr (result, og')"
  then show "og_electionId og' = og_electionId og
      \<and> (\<exists>s t. og_state og = Some s \<and> og_state og' = Some t \<and> good_step s t)"
    unfolding addPaperBallotAdmission_def
    by (rule with_state_good) (auto simp: Let_def intro!: good_registers split: option.splits if_splits)
qed

interpretation revoke_paper: organiser_operation "revokePaperBallotAdmission now key"
proof
  fix og og' result
  assume "revokePaperBallotAdmission now key og = Inr (result, og')"
  then show "og_electionId og' = og_electionId og
      \<and> (\<exists>s t. og_state og = Some s \<and> og_state og' = Some t \<and> good_step s t)"
    unfolding revokePaperBallotAdmission_def
    by (rule with_state_good) (auto simp: Let_def intro!: good_registers split: option.splits if_splits)
qed

section \<open>Answering requests\<close>

lemma refresh_good: "good_step s (refreshElectionSummaryFromLocalPublication now summary s)"
proof -
  have "es_electionId (mergeElectionSummaryIntoCoordinatorElection e summary) = es_electionId e" for e
    by (simp add: mergeElectionSummaryIntoCoordinatorElection_def split: option.split)
  then show ?thesis
    by (intro good_registers)
       (simp_all add: refreshElectionSummaryFromLocalPublication_def Let_def election_id_def)
qed

lemma ensure_key_good: "good_step s (snd (ensureBlindSigningKey generated s))"
  by (intro good_registers) (auto simp: ensureBlindSigningKey_def Let_def election_id_def split: option.split)

lemma process_requests_election:
  "og_electionId (snd (fst (process_requests iu moments queue st))) = og_electionId (snd st)"
proof (induction queue arbitrary: st)
  case (Cons request queue)
  have one: "og_electionId (snd (fst (process_request iu mo request st))) = og_electionId (snd st)" for mo
    by (simp add: process_request_def answer_request_def reissue_def issue_new_def take_off_queue_def
        put_in_mailbox_def await_authorization_def Let_def case_prod_beta
        del: reduceCoordinatorEvent.simps split: option.split)
  show ?case using Cons.IH one by (auto simp: Let_def case_prod_beta)
qed simp

interpretation answering: organiser_operation
  "processPendingBlindRequests h sign summary delegated generated moments now"
proof
  fix og og' result
  assume run: "processPendingBlindRequests h sign summary delegated generated moments now og = Inr (result, og')"
  obtain s where s: "og_state og = Some s" "og_coordinatorNpub og \<noteq> []"
    using run by (auto simp: processPendingBlindRequests_def split: option.splits if_splits)
  define r where "r = refreshElectionSummaryFromLocalPublication now summary s"
  obtain key k where key: "(if delegated then (None, r)
      else let (k, t) = ensureBlindSigningKey generated r in (Some k, t)) = (key, k)" by fastforce
  have gr: "good_step s r" unfolding r_def by (rule refresh_good)
  have "good_step r k" using key ensure_key_good [of r generated] by (auto split: if_splits prod.splits)
  with gr have gk: "good_step s k" by (rule good_step_trans)
  let ?iu = "\<lparr>iu_host = h, iu_electionId = og_electionId og, iu_key = key, iu_sign = sign\<rparr>"
  let ?queue = "listBlindRequests (og_electionId og) (og_queue og)"
  obtain nx after outs where loop: "process_requests ?iu moments ?queue (k, og) = ((nx, after), outs)"
    by (metis prod.collapse)
  have "good_step k nx" using good.kept_loop [of "(k, og)" ?iu moments ?queue] loop by simp
  with gk have gn: "good_step s nx" by (rule good_step_trans)
  have el: "og_electionId after = og_electionId og"
    using process_requests_election [of ?iu moments ?queue "(k, og)"] loop by simp
  have no: "(og_coordinatorNpub og = []) = False" using s(2) by simp
  have "(Inr (result, og') :: issue_outcome list organiser_result) = (if ?queue = [] then Inr ([], og\<lparr>og_state := Some r\<rparr>)
      else Inr (outs, after\<lparr>og_state := Some (if Threw \<in> set outs then k else nx)\<rparr>))"
    by (rule sym) (use run in \<open>simp only: processPendingBlindRequests_def s(1) no option.case if_False Let_def
        r_def [symmetric] key [unfolded Let_def] prod.case loop\<close>)
  then have "og_electionId og' = og_electionId og"
    "og_state og' = Some r \<or> og_state og' = Some k \<or> og_state og' = Some nx"
    using el by (auto split: if_splits)
  then show "og_electionId og' = og_electionId og
      \<and> (\<exists>s t. og_state og = Some s \<and> og_state og' = Some t \<and> good_step s t)"
    using s(1) gr gk gn by blast
qed

interpretation authorizing: organiser_operation
  "authorizeRequester h encode sign summary delegated generated moments now npub credentials grp"
proof
  fix og og' result
  assume run: "authorizeRequester h encode sign summary delegated generated moments now npub credentials grp og
    = Inr (result, og')"
  then obtain n u listed s outs where
    add: "addWhitelistNpub h encode now n credentials grp og = Inr (u, listed)"
    and answer: "processPendingBlindRequests h sign summary delegated generated moments now
      (release_requests n s listed) = Inr (outs, og')"
    by (auto simp: authorizeRequester_def Let_def split: sum.splits prod.splits option.splits)
  have queued: "og_electionId (release_requests n s listed) = og_electionId listed"
    "og_state (release_requests n s listed) = og_state listed"
    by (simp_all add: release_requests_def)
  show "og_electionId og' = og_electionId og
      \<and> (\<exists>s t. og_state og = Some s \<and> og_state og' = Some t \<and> good_step s t)"
    using add_voter.operation_good [OF add] answering.operation_good [OF answer] queued
    by (auto intro: good_step_trans)
qed


section \<open>The intake\<close>

lemma accepted_frame:
  fixes h :: host and res :: acceptance_result and now :: string
  assumes "coordinator_inv s"
  defines "t \<equiv> rr_state (reduceCoordinatorEvent h s (BALLOT_ACCEPTED res) now)"
  shows "co_whitelist t = co_whitelist s" "obj_get (co_issuedBlindResponses t) = obj_get (co_issuedBlindResponses s)"
proof -
  have "t = s \<or> (co_whitelist t = co_whitelist s
      \<and> co_issuedBlindResponses t = co_issuedBlindResponses (cloneCoordinatorState h s))"
    unfolding t_def by (simp add: coordinator_ballot_accepted_def split: option.split)
  with clone_gets(2) [OF assms(1), of h]
  show "co_whitelist t = co_whitelist s" "obj_get (co_issuedBlindResponses t) = obj_get (co_issuedBlindResponses s)"
    by auto
qed

lemma received_frame:
  assumes "coordinator_inv s"
  shows "co_whitelist (received_state h s su) = co_whitelist s"
    "obj_get (co_issuedBlindResponses (received_state h s su)) = obj_get (co_issuedBlindResponses s)"
  using clone_gets(2) [OF assms, of h] by (simp_all add: received_state_def)

lemma process_submission_frame:
  assumes inv: "coordinator_inv s" and run: "process_submission h c electionId req d now s su = Inr (t, outcome)"
  shows "co_whitelist t = co_whitelist s \<and> obj_get (co_issuedBlindResponses t) = obj_get (co_issuedBlindResponses s)"
proof -
  let ?after = "received_state h s su"
  have "t = s \<or> receivable h s su \<and> (t = ?after
      \<or> (\<exists>res. t = rr_state (reduceCoordinatorEvent h ?after (BALLOT_ACCEPTED res) now)))"
    using run by (auto simp: process_submission_unfold Let_def simp del: reduceCoordinatorEvent.simps
        split: if_splits sum.splits)
  moreover have "coordinator_inv ?after" if "receivable h s su"
    using inv that by (rule receive_keeps_coordinator_inv)
  ultimately show ?thesis using accepted_frame received_frame [OF inv] by auto
qed

lemma process_queue_frame:
  assumes "ledger_inv s" "\<forall>su\<in>set queue. su_submissionId su \<noteq> []"
    and "process_queue h c electionId req d now s queue = Inr (t, outcomes)"
  shows "co_whitelist t = co_whitelist s \<and> obj_get (co_issuedBlindResponses t) = obj_get (co_issuedBlindResponses s)"
  using assms
proof (induction queue arbitrary: s outcomes)
  case (Cons su queue)
  from Cons.prems(3) obtain u outcome rest where
    run: "process_submission h c electionId req d now s su = Inr (u, outcome)"
    and more: "process_queue h c electionId req d now u queue = Inr (t, rest)" "outcomes = outcome # rest"
    by (auto split: sum.splits)
  have sid: "su_submissionId su \<noteq> []" using Cons.prems(2) by simp
  have "ledger_inv u" by (rule process_submission_refines(1) [OF Cons.prems(1) sid run])
  from Cons.IH [OF this _ more(1)] Cons.prems(2) process_submission_frame [OF _ run] Cons.prems(1)
  show ?case by (simp add: ledger_inv_def)
qed simp

lemma ledger_step_grows: "L \<subseteq>\<^sub>m ledger_step ok su L"
  by (auto simp: map_le_def ledger_step_def fresh_def)

lemma ledger_fold_grows: "L \<subseteq>\<^sub>m fold (ledger_step ok) queue L"
proof (induction queue arbitrary: L)
  case (Cons su queue)
  show ?case using map_le_trans [OF ledger_step_grows Cons.IH] by simp
qed simp

section \<open>Sessions\<close>

text \<open>
  An action of a session, with the clock, the randomness and the outside data it meets.  An action
  that throws leaves the object as it was.
\<close>

record session_env =
  en_host :: host
  en_encode :: "string \<Rightarrow> string option"
  en_sign :: "blind_private_key \<Rightarrow> string \<Rightarrow> string option"
  en_verify :: blind_verifier

datatype organiser_action =
    Add_voter string string "jsnum option" "string field"
  | Set_credentials string string jsnum
  | Set_group string string "string option"
  | Add_voters string "string list" "jsnum obj" "string field obj"
  | Add_code string "string option" "jsnum option" "string field" "jsnum option"
  | Revoke_code string "string option"
  | Toggle_code string "string option"
  | Note_code string "string option" string
  | Mark_code string "string option" bool
  | Auto_code string "string option" bool
  | Group_code string "string option" "string option"
  | Add_paper string admission_entry
  | Revoke_paper string string
  | Receive_requests "questionnaire_definition option" "blind_request \<Rightarrow> bool" "blind_request list"
  | Answer_requests "summary_patch option" bool blind_private_key "blind_request \<Rightarrow> moment" string
  | Authorize "summary_patch option" bool blind_private_key "blind_request \<Rightarrow> moment" string string
      "jsnum option" "string field"
  | Take_ballots "string list" "questionnaire_definition option" string "ballot_submission list"

definition after_operation :: "organiser \<Rightarrow> 'a organiser_result \<Rightarrow> organiser" where
  "after_operation og res = (case res of Inl e \<Rightarrow> og | Inr (result, og') \<Rightarrow> og')"

definition take_ballots ::
  "session_env \<Rightarrow> string list \<Rightarrow> questionnaire_definition option \<Rightarrow> string \<Rightarrow> ballot_submission list
     \<Rightarrow> organiser \<Rightarrow> organiser" where
  "take_ballots en req d now ballots og = (case og_state og of
     None \<Rightarrow> og
   | Some s \<Rightarrow>
       if og_coordinatorNpub og = [] then og
       else (case process_queue (en_host en) (en_verify en) (og_electionId og) req d now s ballots of
           Inl e \<Rightarrow> og
         | Inr (t, outcomes) \<Rightarrow> og\<lparr>og_state := Some t\<rparr>))"

fun act :: "session_env \<Rightarrow> organiser_action \<Rightarrow> organiser \<Rightarrow> organiser" where
  "act en (Add_voter now npub credentials grp) og =
     after_operation og (addWhitelistNpub (en_host en) (en_encode en) now npub credentials grp og)"
| "act en (Set_credentials now npub credentials) og =
     after_operation og (setWhitelistCredentialsPerVoter (en_encode en) now npub credentials og)"
| "act en (Set_group now npub grp) og =
     after_operation og (setWhitelistBallotGroup (en_encode en) now npub grp og)"
| "act en (Add_voters now npubs credentials groups) og =
     after_operation og (addWhitelistNpubs (en_host en) (en_encode en) now npubs credentials groups og)"
| "act en (Add_code now codeHash credentials grp maxOption) og =
     after_operation og (addBearerInviteCode now codeHash credentials grp maxOption og)"
| "act en (Revoke_code now codeHash) og = after_operation og (revokeBearerInviteCode now codeHash og)"
| "act en (Toggle_code now codeHash) og = after_operation og (toggleBearerInviteCodeAvailability now codeHash og)"
| "act en (Note_code now codeHash note) og = after_operation og (updateBearerInviteCodeNote now codeHash note og)"
| "act en (Mark_code now codeHash used) og = after_operation og (setBearerInviteCodeMarkedUsed now codeHash used og)"
| "act en (Auto_code now codeHash flg) og =
     after_operation og (setBearerInviteCodeAutoRequestBallot now codeHash flg og)"
| "act en (Group_code now codeHash grp) og = after_operation og (setBearerInviteCodeBallotGroup now codeHash grp og)"
| "act en (Add_paper now entry) og = after_operation og (addPaperBallotAdmission (en_host en) now entry og)"
| "act en (Revoke_paper now key) og = after_operation og (revokePaperBallotAdmission now key og)"
| "act en (Receive_requests d skip requests) og =
     og\<lparr>og_queue := syncBlindRequests (en_host en) d skip requests (og_queue og)\<rparr>"
| "act en (Answer_requests summary delegated generated moments now) og = after_operation og
     (processPendingBlindRequests (en_host en) (en_sign en) summary delegated generated moments now og)"
| "act en (Authorize summary delegated generated moments now npub credentials grp) og = after_operation og
     (authorizeRequester (en_host en) (en_encode en) (en_sign en) summary delegated generated moments now npub
        credentials grp og)"
| "act en (Take_ballots req d now ballots) og = take_ballots en req d now ballots og"

fun identified :: "organiser_action \<Rightarrow> bool" where
  "identified (Take_ballots req d now ballots) = (\<forall>su\<in>set ballots. su_submissionId su \<noteq> [])"
| "identified a = True"

definition run_session :: "session_env \<Rightarrow> organiser_action list \<Rightarrow> organiser \<Rightarrow> organiser" where
  "run_session en actions og = fold (act en) actions og"

text \<open>What a session keeps and what it only adds to.\<close>

definition session_grows :: "coordinator_state \<Rightarrow> coordinator_state \<Rightarrow> bool" where
  "session_grows s t \<longleftrightarrow> ledger_of s \<subseteq>\<^sub>m ledger_of t \<and> claims_rise (co_whitelist s) (co_whitelist t)
     \<and> issued_stays (co_issuedBlindResponses s) (co_issuedBlindResponses t)"

lemma session_grows_refl [simp]: "session_grows s s"
  by (simp add: session_grows_def)

lemma session_grows_trans: "session_grows s t \<Longrightarrow> session_grows t u \<Longrightarrow> session_grows s u"
  unfolding session_grows_def by (blast intro: map_le_trans claims_rise_trans issued_stays_trans)

definition session_step :: "organiser \<Rightarrow> organiser \<Rightarrow> bool" where
  "session_step og og' \<longleftrightarrow> (\<forall>s. og_state og = Some s \<and> ledger_inv s \<longrightarrow>
     (\<exists>t. og_state og' = Some t \<and> ledger_inv t \<and> session_grows s t))"

context organiser_operation
begin

lemma after_operation_step: "session_step og (after_operation og (operation og))"
proof (cases "operation og")
  case (Inr res)
  obtain result og' where res: "res = (result, og')" by fastforce
  show ?thesis
    unfolding session_step_def
  proof (intro allI impI)
    fix s
    assume s: "og_state og = Some s \<and> ledger_inv s"
    then obtain t where "og_state og' = Some t" "ledger_inv t" "ledger_of t = ledger_of s" "preserving s t"
      using operation_ledger [of og result og' s] Inr res by blast
    then show "\<exists>t. og_state (after_operation og (operation og)) = Some t \<and> ledger_inv t \<and> session_grows s t"
      using Inr res by (simp add: after_operation_def session_grows_def preserving_def)
  qed
qed (auto simp: after_operation_def session_step_def)

end

lemma take_ballots_step:
  assumes "\<forall>su\<in>set ballots. su_submissionId su \<noteq> []"
  shows "session_step og (take_ballots en req d now ballots og)"
  unfolding session_step_def
proof (intro allI impI)
  fix s
  assume s: "og_state og = Some s \<and> ledger_inv s"
  show "\<exists>t. og_state (take_ballots en req d now ballots og) = Some t \<and> ledger_inv t \<and> session_grows s t"
  proof (cases "process_queue (en_host en) (en_verify en) (og_electionId og) req d now s ballots")
    case (Inr res)
    obtain t outcomes where res: "res = (t, outcomes)" by fastforce
    have run: "process_queue (en_host en) (en_verify en) (og_electionId og) req d now s ballots = Inr (t, outcomes)"
      using Inr res by simp
    have inv: "ledger_inv s" using s by simp
    note R = process_queue_refines [OF inv assms run] and F = process_queue_frame [OF inv assms run]
    have "ledger_of s \<subseteq>\<^sub>m ledger_of t" using R ledger_fold_grows by metis
    then have "session_grows s t" using F by (simp add: session_grows_def issued_stays_def)
    with s R run show ?thesis by (simp add: take_ballots_def)
  qed (use s in \<open>simp add: take_ballots_def\<close>)
qed

lemma act_step: "identified a \<Longrightarrow> session_step og (act en a og)"
  by (cases a)
     (simp_all add: add_voter.after_operation_step set_credentials.after_operation_step
        set_group.after_operation_step add_voters.after_operation_step add_code.after_operation_step
        change_code.after_operation_step add_paper.after_operation_step revoke_paper.after_operation_step
        answering.after_operation_step authorizing.after_operation_step take_ballots_step
        revokeBearerInviteCode_def toggleBearerInviteCodeAvailability_def updateBearerInviteCodeNote_def
        setBearerInviteCodeMarkedUsed_def setBearerInviteCodeAutoRequestBallot_def
        setBearerInviteCodeBallotGroup_def, simp add: session_step_def)

lemma session_kept:
  assumes "\<forall>a\<in>set actions. identified a" "og_state og = Some s" "ledger_inv s"
  shows "\<exists>t. og_state (run_session en actions og) = Some t \<and> ledger_inv t \<and> session_grows s t"
  using assms
proof (induction actions arbitrary: og s)
  case (Cons a actions)
  obtain u where u: "og_state (act en a og) = Some u" "ledger_inv u" "session_grows s u"
    using act_step [of a og en] Cons.prems by (auto simp: session_step_def)
  from Cons.IH [OF _ u(1,2)] Cons.prems(1) obtain t where
    "og_state (run_session en actions (act en a og)) = Some t" "ledger_inv t" "session_grows u t" by auto
  with u(3) show ?case by (auto simp: run_session_def intro: session_grows_trans)
qed (simp add: run_session_def)

text \<open>Counted ballots of a state share nothing.\<close>

lemma counted_disjoint:
  assumes "ledger_inv t" "ledger_of t a = Some su" "ledger_of t b = Some tu" "a \<noteq> b"
  shows "nullifiers_of su \<inter> nullifiers_of tu = {}"
proof -
  have "False" if "n \<in> nullifiers_of su" "n \<in> nullifiers_of tu" for n
    using ledger_holds(4) [OF assms(1,2) that(1)] ledger_holds(4) [OF assms(1,3) that(2)] assms(4) by simp
  then show ?thesis by blast
qed

end
