(* ===== verification/Issuance_Properties.thy ===== *)
theory Issuance_Properties
  imports Session_Safety Samples
begin

text \<open>
  The properties of the issuing of credentials and of whole sessions of the coordinator, with an
  election of two invited voters on which they are evaluated.
\<close>

section \<open>A small session\<close>

definition sample_private_key :: blind_private_key where
  "sample_private_key = \<lparr>bpk_keyId = ''k1'', bpk_jwk = JNull, bpk_privateJwk = JNull\<rparr>"

text \<open>A signer that throws on an empty message.\<close>

definition sample_sign :: "blind_private_key \<Rightarrow> string \<Rightarrow> string option" where
  "sample_sign key m = (if m = [] then None else Some (''sig:'' @ m))"

definition sample_moment :: "blind_request \<Rightarrow> moment" where
  "sample_moment r = \<lparr>mo_now = ''7'', mo_seconds = 7, mo_definition = None, mo_definitionHash = ''hash'',
     mo_issuanceId = ''i:'' @ rq_requestId r\<rparr>"

definition sample_request :: "string \<Rightarrow> string \<Rightarrow> string \<Rightarrow> blind_request" where
  "sample_request rid npub m = \<lparr>rq_electionId = ''e1'', rq_requestId = rid, rq_invitedNpub = npub,
     rq_blindedMessage = m, rq_blindSigningKeyId = ''k1'', rq_clientNonce = ''c'', rq_createdAt = ''5'',
     rq_inviteCodeHash = Undefined, rq_paperBallotAdmissionKey = Undefined, rq_generalInvitePow = Undefined,
     rq_ballotScope = Undefined, rq_lastSentAt = Undefined\<rparr>"

definition sample_issuer :: issuer where
  "sample_issuer = \<lparr>iu_host = plain_host, iu_electionId = ''e1'', iu_key = Some sample_private_key,
     iu_sign = sample_sign\<rparr>"

definition sample_coordinator :: coordinator_state where
  "sample_coordinator = (emptyCoordinatorState sample_summary ''0'')\<lparr>
     co_whitelist := [(''npub1a'', new_entry ''e1'' ''npub1a'' ''0''), (''npub1b'', new_entry ''e1'' ''npub1b'' ''0'')],
     co_blindSigningPrivateKey := Some sample_private_key\<rparr>"

definition sample_organiser :: "blind_request list \<Rightarrow> organiser" where
  "sample_organiser queue = \<lparr>og_electionId = ''e1'', og_coordinatorNpub = ''npub1c'',
     og_state = Some sample_coordinator, og_pendingAuthorizations = [], og_queue = queue, og_mailbox = []\<rparr>"









text \<open>A code for one voter, presented by two.\<close>

definition sample_code :: string where
  "sample_code = replicate 64 CHR ''a''"

definition sample_code_entry :: bearer_invite where
  "sample_code_entry = \<lparr>bi_electionId = ''e1'', bi_codeHash = sample_code, bi_createdAt = ''0'',
     bi_state = BearerAvailable, bi_credentialsPerVoter = None, bi_maxRedemptions = None, bi_ballotGroup = None,
     bi_note = None, bi_autoRequestBallot = None, bi_markedUsedAt = None, bi_redeemedAt = None,
     bi_redeemedNpub = None, bi_redeemedNpubs = None, bi_revokedAt = None\<rparr>"

definition code_coordinator :: coordinator_state where
  "code_coordinator = sample_coordinator\<lparr>co_bearerInviteCodes := [(sample_code, sample_code_entry)]\<rparr>"

definition code_request :: "string \<Rightarrow> string \<Rightarrow> blind_request" where
  "code_request rid npub = (sample_request rid npub ''m'')\<lparr>rq_inviteCodeHash := Present sample_code\<rparr>"

definition code_requests :: "blind_request list" where
  "code_requests = [code_request ''r1'' ''npub1x'', code_request ''r2'' ''npub1y'']"

definition code_run :: "(coordinator_state \<times> organiser) \<times> issue_outcome list" where
  "code_run = process_requests sample_issuer sample_moment code_requests (code_coordinator, sample_organiser [])"

lemma code_run_outcomes:
  "map leaves_queue (snd code_run) = [True, True]
   \<and> snd code_run ! 1 = Rejected (Invite_unavailable Code_redeemed)
   \<and> map fst (co_whitelist (fst (fst code_run))) = [''npub1a'', ''npub1b'', ''npub1x'']
   \<and> map (redeemers \<circ> snd) (co_bearerInviteCodes (fst (fst code_run))) = [[''npub1x'']]"
  by code_simp


text \<open>
  Two weaknesses, on examples.  Any text in the place of a code spares the proof of work, and the
  request of a stranger then waits for authorisation.  A request that is refused for its credential
  index has used up the code it presented.
\<close>

definition busy_definition :: questionnaire_definition where
  "busy_definition = sample_definition\<lparr>d_generalInvitePowDifficulty := Some (num_int 20)\<rparr>"

definition busy_moment :: moment where
  "busy_moment = (sample_moment (sample_request ''r1'' ''npub1x'' ''m''))\<lparr>mo_definition := Some busy_definition\<rparr>"

definition uninvited_answer :: "string field \<Rightarrow> (coordinator_state \<times> organiser) \<times> issue_outcome" where
  "uninvited_answer code = process_request sample_issuer busy_moment
     ((sample_request ''r1'' ''npub1x'' ''m'')\<lparr>rq_inviteCodeHash := code\<rparr>) (sample_coordinator, sample_organiser [])"

lemma invite_text_spares_work:
  "snd (uninvited_answer Undefined) = Rejected Invalid_pow
   \<and> snd (uninvited_answer (Present ''x'')) = Held (Some CE_not_whitelisted)
   \<and> map fst (og_pendingAuthorizations (snd (fst (uninvited_answer (Present ''x''))))) = [''npub1x'']"
  by code_simp

definition second_credential_run :: "(coordinator_state \<times> organiser) \<times> issue_outcome" where
  "second_credential_run = process_request sample_issuer (sample_moment (sample_request ''r1'' ''npub1a'' ''m''))
     ((code_request ''r1'' ''npub1a'')\<lparr>rq_ballotScope := Present (empty_scope\<lparr>sc_credentialIndex := Present (num_int 2)\<rparr>)\<rparr>)
     (code_coordinator, sample_organiser [])"

lemma refused_request_uses_code:
  "snd second_credential_run = Rejected Proxy_not_enabled
   \<and> map (redeemers \<circ> snd) (co_bearerInviteCodes (fst (fst second_credential_run))) = [[''npub1a'']]
   \<and> map (bi_state \<circ> snd) (co_bearerInviteCodes (fst (fst second_credential_run))) = [BearerRedeemed]"
  by code_simp

section \<open>Properties\<close>



text \<open>
  C6: answering a whole queue of requests never gives a private code more redeemers than its maximum
  allows, beyond those it had before, whoever sends what; nobody who has redeemed it is forgotten,
  its maximum stays, and a code is revoked afterwards exactly when it was before.
\<close>

theorem code_redemptions_capped:
  "case obj_get (co_bearerInviteCodes s) k of
     None \<Rightarrow> obj_get (co_bearerInviteCodes (fst (fst (process_requests iu moments queue (s, og))))) k = None
   | Some e \<Rightarrow>
      (case obj_get (co_bearerInviteCodes (fst (fst (process_requests iu moments queue (s, og))))) k of
         None \<Rightarrow> False
       | Some e' \<Rightarrow> set (redeemers e) \<subseteq> set (redeemers e')
           \<and> int (length (redeemers e')) \<le> max (int (length (redeemers e))) (max_redemptions (bi_maxRedemptions e))
           \<and> max_redemptions (bi_maxRedemptions e') = max_redemptions (bi_maxRedemptions e)
           \<and> (bi_state e' = BearerRevoked \<longleftrightarrow> bi_state e = BearerRevoked))"
proof -
  let ?t = "fst (fst (process_requests iu moments queue (s, og)))"
  have "codes_step s ?t" using codes.kept_loop [of "(s, og)" iu moments queue] by simp
  then have "rel_option code_step (obj_get (co_bearerInviteCodes s) k) (obj_get (co_bearerInviteCodes ?t) k)"
    unfolding codes_step_def by blast
  then show ?thesis
    by (cases "obj_get (co_bearerInviteCodes s) k"; cases "obj_get (co_bearerInviteCodes ?t) k")
       (auto simp: code_step_def)
qed

text \<open>
  C7: asking for a credential admits nobody who was not admitted by the organiser.  Every voter who is
  on the whitelist after a run of the loop, and was not before, has redeemed a private code that is
  not revoked, or holds a paper admission of its own: there is an assignment of keys to the remaining
  voters that is injective, each key being that of an admission of this election which was not
  revoked when the run began, which a request of the voter presented, and which names this voter.
\<close>

theorem admitted_voters_accounted_for:
  assumes "papers_keyed s" "named_voters queue"
    and "process_requests iu moments queue (s, og) = ((t, og'), outcomes)"
  shows "\<exists>key. own_admissions (iu_electionId iu) queue s t key"
  by (rule own_admissions_loop [OF own_admissions_start assms(1) papers_step_refl assms(2) _ assms(3)]) simp_all

lemma admitted_voters_accounted_for_witness:
  "\<exists>key. own_admissions (iu_electionId sample_issuer) code_requests code_coordinator (fst (fst code_run)) key"
proof (rule admitted_voters_accounted_for)
  show "papers_keyed code_coordinator"
    by (simp add: papers_keyed_def code_coordinator_def sample_coordinator_def emptyCoordinatorState_def)
  show "named_voters code_requests" by code_simp
  show "process_requests sample_issuer sample_moment code_requests (code_coordinator, sample_organiser [])
      = ((fst (fst code_run), snd (fst code_run)), snd code_run)"
    by (simp add: code_run_def)
qed

text \<open>
  C11: a run over the queue answers every request when all of them can be signed, and a request that was
  rejected or given its credential has left the queue when the run ends.
\<close>

theorem signable_queue_answered:
  assumes "processPendingBlindRequests h sign summary delegated generated moments now og = Inr (outcomes, og')"
    and "og_state og = Some s"
    and "\<forall>key request. request \<in> set (og_queue og) \<longrightarrow> sign key (rq_blindedMessage request) \<noteq> None"
  shows "length outcomes = length (listBlindRequests (og_electionId og) (og_queue og))
     \<and> Threw \<notin> set outcomes
     \<and> (\<forall>(request, outcome)\<in>set (zip (listBlindRequests (og_electionId og) (og_queue og)) outcomes).
          leaves_queue outcome \<longrightarrow> rq_requestId request \<notin> queued_ids (og_queue og'))"
proof -
  obtain key keyed nx after where
    run: "process_requests \<lparr>iu_host = h, iu_electionId = og_electionId og, iu_key = key, iu_sign = sign\<rparr> moments
       (listBlindRequests (og_electionId og) (og_queue og)) (keyed, og) = ((nx, after), outcomes)"
    and "og_queue og' = og_queue after"
    using answering_run [OF assms(1,2)] by metis
  moreover have "length outcomes = length (listBlindRequests (og_electionId og) (og_queue og))
      \<and> Threw \<notin> set outcomes"
    by (rule signable_loop [OF _ run]) (use assms(3) in \<open>auto simp: listBlindRequests_def\<close>)
  ultimately show ?thesis using loop_leaves [OF run] by simp
qed

lemma signable_queue_answered_witness:
  "\<exists>outcomes og'. processPendingBlindRequests plain_host sample_sign None False sample_private_key sample_moment
      ''9'' (sample_organiser [sample_request ''r1'' ''npub1a'' ''m1'']) = Inr (outcomes, og')
    \<and> length outcomes = length (listBlindRequests (og_electionId (sample_organiser [sample_request ''r1'' ''npub1a'' ''m1'']))
        (og_queue (sample_organiser [sample_request ''r1'' ''npub1a'' ''m1''])))"
proof -
  let ?og = "sample_organiser [sample_request ''r1'' ''npub1a'' ''m1'']"
  have "processPendingBlindRequests plain_host sample_sign None False sample_private_key sample_moment ''9'' ?og
      \<noteq> Inl e" for e
    by (auto simp: processPendingBlindRequests_def sample_organiser_def Let_def split: prod.split)
  then obtain outcomes og' where run: "processPendingBlindRequests plain_host sample_sign None False
      sample_private_key sample_moment ''9'' ?og = Inr (outcomes, og')"
    by (metis old.sum.exhaust prod.collapse)
  have "length outcomes = length (listBlindRequests (og_electionId ?og) (og_queue ?og))"
    using signable_queue_answered [OF run, of sample_coordinator]
    by (simp add: sample_organiser_def sample_request_def sample_sign_def)
  with run show ?thesis by blast
qed










end
