(* ===== verification/Spec2Isabelle.thy ===== *)
theory Spec2Isabelle
  imports Election_Properties Voter_Properties Validation_Properties Credential_Properties
    Questionnaire_Properties Admission_Properties Service_Properties Transport_Properties
    Issuance_Properties
begin

text \<open>
  A verification development for auditable-voting, a browser program for questionnaire votes over
  Nostr.  A coordinator publishes a questionnaire and keeps a list of voters; each voter asks for a
  blind signature on a token, and later submits a ballot that carries the unblinded credential and a
  nullifier, so that the ballot is known to come from a listed voter, but not from which, and counts
  once.  The paths below are relative to \<open>src/web/src\<close>.

  \<^bold>\<open>How the parts interact.\<close>  A questionnaire definition is validated when it is published and when it
  is read (\<open>questionnaireProtocol.ts\<close>).  Voter and coordinator each keep a state that changes only
  through their reducer (\<open>questionnaireOptionA.ts\<close>).  The runtime (\<open>questionnaireOptionARuntime.ts\<close>)
  feeds the coordinator's reducer.  It takes the queued requests for a credential one by one, checks
  each against the whitelist, the private codes and the paper admissions that the organiser keeps, and
  signs what it admits; and it takes the queued ballots one by one, lets the reducer store each,
  validates it, verifies its credentials and lets the reducer accept it.  Public questionnaires count
  decrypted responses instead (\<open>questionnaireRuntime.ts\<close>), or responses that carry a token, which the
  panel of the coordinator and the page of the auditor read from the relays, verify and admit
  (\<open>questionnaireTransport.ts\<close>).  Around them are the admission of voters (private invites, printed
  codes, one-time passwords, resident tables), proofs of work for uninvited requests, helpers that a
  coordinator delegates work to, and the choice of relays.

  \<^bold>\<open>What models what.\<close>
  \<^item> \<open>Prelude\<close>: the JavaScript substrate (numbers, strings, dictionaries in insertion order, dynamic
    values, stable sorting) and \<open>host\<close>, the record of what comes from outside: the date parser, SHA-256, collation,
    the npub and URL tests.  \<open>comparator\<close> is the contract of a sorting comparison.
  \<^item> \<open>Protocol\<close>, \<open>Definition_Check\<close>, \<open>Response_Check\<close>: \<open>questionnaireProtocol.ts\<close>, its data, normalisers,
    \<open>validateQuestionnaireDefinition\<close> and \<open>validateQuestionnaireResponsePayload\<close>, one definition per
    group of checks, in the order of the errors; the relay lists of \<open>questionnaireRelays.ts\<close>.
  \<^item> \<open>Conditions\<close>: \<open>questionConditionEvaluator.ts\<close>; a thrown \<open>CircularDependencyError\<close> is a left summand.
  \<^item> \<open>Json\<close>, \<open>Blind_Token\<close>: canonical JSON, signed messages, nullifiers (\<open>questionnaireBlindToken.ts\<close>).
  \<^item> \<open>OptionA_Types\<close>, \<open>OptionA_Scope\<close>, \<open>OptionA_Messages\<close>: the data of \<open>questionnaireOptionA.ts\<close>, ballot scopes and
    their keys, the sanitisers of messages; \<open>keyed_sanitiser\<close> is the contract that the two sanitisers
    of records share.
  \<^item> \<open>Reducer\<close>: the contract of a reducer (\<open>event_reducer\<close>, extended by \<open>progressing_reducer\<close>), from which the
    facts about whole runs of events follow once.  \<open>Voter\<close> and \<open>Coordinator\<close> have one definition per event;
    \<open>Voter_Safety\<close> and \<open>Coordinator_Safety\<close> state their invariants and interpret the contract;
    \<open>Acceptance\<close> treats histories of the coordinator and double acceptance.
  \<^item> \<open>Ballot_Validation\<close>: login proofs, blind requests and ballots, with the specification
    \<open>acceptable_ballot\<close> that the ballot validator is proved to decide.
  \<^item> \<open>Runtime_Scopes\<close>, \<open>Intake\<close>: the credential scopes the runtime builds, the merging of published
    summaries, and the intake loop with its decisions.  \<open>Intake_Safety\<close> abstracts a state to the ledger of
    its counted ballots and proves the loop to refine a plain loop over that ledger.
  \<^item> \<open>Organiser\<close>, \<open>Invite_Registers\<close>, \<open>Issuance\<close>: the coordinator's class of
    \<open>questionnaireOptionARuntime.ts\<close> with its operations on the registers, the queue and the mailbox of
    \<open>questionnaireOptionAStorage.ts\<close>, and the loop \<open>processPendingBlindRequestsInternal\<close>.
    \<open>Issuance_Safety\<close>, \<open>Admission_Safety\<close> and \<open>Issue_Safety\<close> say what a run of the loop keeps
    (\<open>kept_by_requests\<close> is the contract of such a relation), whom it admits and what it issues;
    \<open>Session_Safety\<close> gives the operations of the class one contract, \<open>organiser_operation\<close>, and composes
    them with the intake to sessions (\<open>act\<close>, \<open>run_session\<close>).
  \<^item> \<open>Tally\<close>: \<open>questionnaireRuntime.ts\<close> and the response envelope of \<open>questionnaireNostr.ts\<close>.
  \<^item> \<open>Public_Events\<close>: what \<open>questionnaireTransport.ts\<close> does with the events that the relays return:
    parsing, authentication, merging, the choice of a delegated worker.  \<open>Blind_Admissions\<close>: order,
    repetitions, verification of proofs and the pass \<open>admit_entries\<close> that decides what counts.
    \<open>Public_Event_Safety\<close> and \<open>Blind_Admission_Safety\<close> hold their lemmas.
  \<^item> \<open>Pow\<close>, \<open>Paper_Ballot\<close>, \<open>Csv\<close>, \<open>Resident_Register\<close>, \<open>Otp\<close>, \<open>Otp_Safety\<close>: proofs of work, private invite codes and
    printed codes, delivery tables, resident tables, one-time passwords.
  \<^item> \<open>Worker_Delegation\<close>, \<open>Worker_Safety\<close>, \<open>Relay_Backoff\<close>: delegated work with its configuration versions, and relay health.
  \<^item> \<open>Samples\<close> holds a small election on which the examples evaluate; the \<open>Properties\<close> theories state
    the properties, each with an example where it has hypotheses.

  \<^bold>\<open>What the lemmas show.\<close>  The intake counts exactly the eligible ballots that are fresh, no credential twice, and
  always returns; both reducers keep their invariants, refuse without effect and never lose what was
  issued; a restored state still knows every spent nullifier.  A credential is issued only for a request
  that passes every check, a voter never has two for one scope, codes and paper admissions admit no more
  voters than they are made for, and over whole sessions no counted ballot, voter or credential is lost.  The validators decide direct specifications and return for
  every valid definition.  Scope keys, signed messages and hashed texts bind what they should.  Responses
  are partitioned, ranks and yes/no answers are conserved by the summaries.  Public responses with one
  token count once, whatever order the relays answer in, and a worker is addressed only on the word of
  the coordinator.  Printed codes, admission
  entries and one-time passwords are single use or limited, tables read back, versions rise, revocations
  are final, cooldowns are bounded.  Where the code falls short, a theorem shows it: an option selected twice counts
  twice, one-time passwords that are checked at the same time escape the limit, a repeated response id
  displaces a genuine response, a decision signed by a stranger counts, one malformed response
  stops the verification of all, and one request that cannot be signed stops the issuing for all.

  \<^bold>\<open>Conventions.\<close>  A thrown exception is a left summand; \<open>undefined\<close>, \<open>null\<close> and a value are told apart
  (\<open>field\<close>) where the code does.  A mutable map of a module is an argument and a result.  Clocks, random bytes,
  digests and signature verifiers are parameters; the only assumptions about them are that SHA-256 gives 64
  hexadecimal digits, or 32 bytes, and that the collation is a strict order, where a property says so.
  Checks that run side by side store their results in the order of an argument, the list in which they end.

  \<^bold>\<open>Bounds and fuel.\<close>  No definition uses fuel.  The mining loop and the loop that draws an unused code
  are partial functions, \<open>None\<close> when they run for ever; mining is proved to return exactly when a nonce
  exists.  The walk along the conditions terminates because it never visits a question twice.
  Strings are code units from 0 to 255.  Numbers are rationals or one of the three non-finite values;
  rounding of doubles is not modelled, and nothing that is counted here reaches the sizes at which it
  would matter.  Dictionaries have no inherited properties, so names such as \<open>constructor\<close>, which a plain
  JavaScript object answers to, are ordinary keys here.

  \<^bold>\<open>Not modelled.\<close>  The React components; publishing, fetching and encrypting of Nostr events and direct
  messages; \<open>localStorage\<close> as text (its contents are arguments); RSA blind signatures, which come from a library (the
  intake takes the verifier as an argument, the issuing the signer); the mining worker pool with its cancellation; the earlier shard
  protocol (\<open>simple*.ts\<close>); the Rust worker and cores, except the one function that normalises
  relays; result packs and readable results; interface strings.  The network calls inside the modelled
  methods of the runtime are left out: the intake records the decisions that it would publish, the
  issuing fills the mailbox and leaves out acknowledgements, invites and repeated deliveries.  One run of
  the issuing loop is at work at a time, as the class makes sure; what the organiser changes during the
  awaits of a run, which the run then overwrites, is not modelled.
\<close>

end
